(* ===== verification/Prelude.thy ===== *)
theory Prelude
  imports
    Main
    "HOL-Library.AList"
    "HOL-Library.Multiset"
    "HOL-Library.Char_ord"
    "HOL-Library.List_Lexorder"
    "HOL-Library.Product_Lexorder"
begin

section \<open>Prelude: Go values, maps and lists shared by every component\<close>

text \<open>
  This theory fixes the conventions of the development.

  \<^item> A Go \<^verbatim>\<open>string\<close> is a HOL \<^typ>\<open>string\<close>; an \<^verbatim>\<open>xid.ID\<close> is the string its
    \<^verbatim>\<open>String()\<close> method prints (20 characters of lower-case base32hex, an encoding that keeps
    the order of the ids), so the nil id is twenty zeros.
  \<^item> A \<^verbatim>\<open>time.Time\<close> is an \<^typ>\<open>int\<close>, the number of nanoseconds since the zero time, so
    \<^verbatim>\<open>IsZero\<close> is equality with 0; a \<^verbatim>\<open>time.Duration\<close> is an \<^typ>\<open>int\<close> of nanoseconds.
    Operations that read the clock or draw a fresh id take the reading as an argument.
  \<^item> A pointer that may be \<^verbatim>\<open>nil\<close> is an \<open>option\<close>.
  \<^item> A Go map is an association list with distinct keys (the order of the list is the order in
    which a \<^verbatim>\<open>range\<close> loop happens to visit it): \<^const>\<open>map_of\<close> looks up,
    \<open>AList.update\<close> stores and \<open>AList.delete\<close> deletes.
  \<^item> A database table is the list of its rows.
\<close>

type_synonym xid = string
type_synonym time = int
type_synonym duration = int

type_synonym ('k, 'v) gomap = "('k \<times> 'v) list"

definition nil_xid :: xid where
  "nil_xid = replicate 20 (CHR ''0'')"

abbreviation IsZero :: "time \<Rightarrow> bool" where
  "IsZero t \<equiv> t = 0"

abbreviation second :: duration where
  "second \<equiv> 1000000000"

abbreviation millisecond :: duration where
  "millisecond \<equiv> 1000000"

abbreviation minute :: duration where
  "minute \<equiv> 60 * second"

subsection \<open>Collections of facts\<close>

named_theorems gomap_simps \<open>lookups in an updated Go map\<close>
named_theorems sql_simps \<open>rows selected and changed by a statement\<close>

subsection \<open>Go maps\<close>

abbreviation mget :: "('k, 'v) gomap \<Rightarrow> 'k \<Rightarrow> 'v option" where
  "mget \<equiv> map_of"

abbreviation mput :: "'k \<Rightarrow> 'v \<Rightarrow> ('k, 'v) gomap \<Rightarrow> ('k, 'v) gomap" where
  "mput \<equiv> AList.update"

abbreviation mdel :: "'k \<Rightarrow> ('k, 'v) gomap \<Rightarrow> ('k, 'v) gomap" where
  "mdel \<equiv> AList.delete"

abbreviation mkeys :: "('k, 'v) gomap \<Rightarrow> 'k set" where
  "mkeys m \<equiv> fst ` set m"

definition wf_map :: "('k, 'v) gomap \<Rightarrow> bool" where
  "wf_map m \<longleftrightarrow> distinct (map fst m)"

lemma mget_mput [simp, gomap_simps]: "mget (mput k v m) k' = (if k' = k then Some v else mget m k')"
  by (simp add: update_conv')

lemma mget_mdel [simp, gomap_simps]: "mget (mdel k m) k' = (if k' = k then None else mget m k')"
  by (simp add: delete_conv')

lemma wf_map_mput [simp]: "wf_map m \<Longrightarrow> wf_map (mput k v m)"
  by (simp add: wf_map_def distinct_update)

lemma wf_map_mdel [simp]: "wf_map m \<Longrightarrow> wf_map (mdel k m)"
  by (simp add: wf_map_def distinct_delete)

lemma wf_map_Nil [simp]: "wf_map []"
  by (simp add: wf_map_def)

lemma mget_in_set: "wf_map m \<Longrightarrow> (k, v) \<in> set m \<longleftrightarrow> mget m k = Some v"
  by (simp add: wf_map_def)

lemma set_mput:
  "wf_map m \<Longrightarrow> set (mput k v m) = insert (k, v) (set m - {p. fst p = k})"
  by (auto simp: mget_in_set split: if_splits)

lemma set_mdel: "set (mdel k m) = set m - {p. fst p = k}"
  by (auto simp: AList.delete_eq)

lemma mkeys_mget: "k \<in> mkeys m \<longleftrightarrow> mget m k \<noteq> None"
  by (metis domIff dom_map_of_conv_image_fst)

text \<open>
  A sum over the values of a Go map does not depend on the order of the list; storing and deleting
  change it by the value of the one key.
\<close>

definition msum :: "('k \<Rightarrow> 'v \<Rightarrow> nat) \<Rightarrow> ('k, 'v) gomap \<Rightarrow> nat" where
  "msum f m = sum_list (map (\<lambda>(k, v). f k v) m)"

lemma msum_Nil [simp]: "msum f [] = 0"
  by (simp add: msum_def)

lemma msum_Cons [simp]: "msum f ((k, v) # m) = f k v + msum f m"
  by (simp add: msum_def)

lemma msum_mdel_notin: "mget m k = None \<Longrightarrow> msum f (mdel k m) = msum f m"
  by (induction m) (auto simp: AList.delete_eq split: if_splits)

lemma msum_mdel: "wf_map m \<Longrightarrow> mget m k = Some v \<Longrightarrow> f k v + msum f (mdel k m) = msum f m"
proof (induction m)
  case (Cons p m)
  obtain a b where p: "p = (a, b)" by (cases p)
  show ?case
  proof (cases "a = k")
    case True
    with Cons.prems p have "mget m k = None"
      by (auto simp: wf_map_def map_of_eq_None_iff)
    with Cons.prems p True show ?thesis
      using msum_mdel_notin [of m k f] by (simp add: AList.delete_eq)
  next
    case False
    with Cons p show ?thesis by (auto simp: wf_map_def AList.delete_eq)
  qed
qed simp

lemma msum_mput_notin: "mget m k = None \<Longrightarrow> msum f (mput k v m) = msum f m + f k v"
  by (induction m) (auto split: if_splits)

lemma msum_mput:
  "wf_map m \<Longrightarrow> mget m k = Some v0 \<Longrightarrow> msum f (mput k v m) + f k v0 = msum f m + f k v"
  by (induction m) (auto simp: wf_map_def split: if_splits)

lemma msum_cong: "(\<And>k v. (k, v) \<in> set m \<Longrightarrow> f k v = g k v) \<Longrightarrow> msum f m = msum g m"
  by (induction m) auto

subsection \<open>Lists\<close>

lemma remove_nth:
  assumes "distinct xs" "b < length xs"
  shows "set (take b xs @ drop (Suc b) xs) = set xs - {xs ! b}"
    and "distinct (take b xs @ drop (Suc b) xs)"
proof -
  have x: "xs = take b xs @ xs ! b # drop (Suc b) xs" using assms(2) by (rule id_take_nth_drop)
  then have d: "distinct (take b xs @ xs ! b # drop (Suc b) xs)" using assms(1) by argo
  have "set xs = set (take b xs @ xs ! b # drop (Suc b) xs)" using x by argo
  with d show "set (take b xs @ drop (Suc b) xs) = set xs - {xs ! b}" by auto
  from d show "distinct (take b xs @ drop (Suc b) xs)" by auto
qed

end
