(* ===== verification/Go_Heap.thy ===== *)
theory Go_Heap
  imports Prelude
begin

section \<open>The binary heap of Go's container/heap\<close>

text \<open>
  \<^verbatim>\<open>dispatcher/queue.go\<close> keeps its jobs in a slice ordered by the standard library's
  \<^verbatim>\<open>container/heap\<close>.  This theory holds that package's \<^verbatim>\<open>up\<close>, \<^verbatim>\<open>down\<close>,
  \<^verbatim>\<open>Push\<close> and \<^verbatim>\<open>Pop\<close> on lists, with the interface's \<^verbatim>\<open>Less\<close> as the argument
  \<open>lt\<close>, the locale \<open>heap_order\<close> of what \<^verbatim>\<open>Less\<close> has to satisfy, and the proof that the
  heap is a priority queue in the sense of the locale \<open>pqueue\<close>: a push adds one element, a pop
  removes a least one.
\<close>

subsection \<open>The package's functions\<close>

definition heap_swap :: "'a list \<Rightarrow> nat \<Rightarrow> nat \<Rightarrow> 'a list" where
  "heap_swap xs i j = xs[i := xs ! j, j := xs ! i]"

abbreviation parent :: "nat \<Rightarrow> nat" where
  "parent j \<equiv> (j - 1) div 2"

function heap_up :: "('a \<Rightarrow> 'a \<Rightarrow> bool) \<Rightarrow> 'a list \<Rightarrow> nat \<Rightarrow> 'a list" where
  "heap_up lt xs j =
     (if parent j = j \<or> \<not> lt (xs ! j) (xs ! parent j) then xs
      else heap_up lt (heap_swap xs (parent j) j) (parent j))"
  by pat_completeness auto
termination
  by (relation "measure (\<lambda>(_, _, j). j)") auto

definition least_child :: "('a \<Rightarrow> 'a \<Rightarrow> bool) \<Rightarrow> 'a list \<Rightarrow> nat \<Rightarrow> nat \<Rightarrow> nat" where
  "least_child lt xs i n =
     (if 2 * i + 2 < n \<and> lt (xs ! (2 * i + 2)) (xs ! (2 * i + 1)) then 2 * i + 2 else 2 * i + 1)"

function heap_down :: "('a \<Rightarrow> 'a \<Rightarrow> bool) \<Rightarrow> 'a list \<Rightarrow> nat \<Rightarrow> nat \<Rightarrow> 'a list" where
  "heap_down lt xs i n =
     (if 2 * i + 1 \<ge> n \<or> \<not> lt (xs ! least_child lt xs i n) (xs ! i) then xs
      else heap_down lt (heap_swap xs i (least_child lt xs i n)) (least_child lt xs i n) n)"
  by pat_completeness auto
termination
  by (relation "measure (\<lambda>(_, _, i, n). n - i)") (auto simp: least_child_def)

declare heap_up.simps [simp del] heap_down.simps [simp del]

definition heap_push :: "('a \<Rightarrow> 'a \<Rightarrow> bool) \<Rightarrow> 'a \<Rightarrow> 'a list \<Rightarrow> 'a list" where
  "heap_push lt x xs = heap_up lt (xs @ [x]) (length xs)"

definition heap_pop :: "('a \<Rightarrow> 'a \<Rightarrow> bool) \<Rightarrow> 'a list \<Rightarrow> 'a \<times> 'a list" where
  "heap_pop lt xs =
     (let n = length xs - 1; ys = heap_down lt (heap_swap xs 0 n) 0 n in (ys ! n, take n ys))"

definition heap_ordered :: "('a \<Rightarrow> 'a \<Rightarrow> bool) \<Rightarrow> 'a list \<Rightarrow> nat \<Rightarrow> bool" where
  "heap_ordered lt xs n \<longleftrightarrow> (\<forall>k\<in>{1..<n}. \<not> lt (xs ! k) (xs ! parent k))"

subsection \<open>Both loops permute the slice\<close>

lemma length_heap_swap [simp]: "length (heap_swap xs i j) = length xs"
  by (simp add: heap_swap_def)

lemma mset_heap_swap: "i < length xs \<Longrightarrow> j < length xs \<Longrightarrow> mset (heap_swap xs i j) = mset xs"
  by (simp add: heap_swap_def mset_swap)

lemma heap_swap_nth:
  "i < length xs \<Longrightarrow> j < length xs \<Longrightarrow>
   heap_swap xs i j ! k = (if k = i then xs ! j else if k = j then xs ! i else xs ! k)"
  by (auto simp: heap_swap_def nth_list_update)

lemma least_child_bounds:
  "2 * i + 1 < n \<Longrightarrow> i < least_child lt xs i n \<and> least_child lt xs i n < n"
  by (auto simp: least_child_def)

lemma parent_least_child: "parent (least_child lt xs i n) = i"
  by (simp add: least_child_def)

lemma mset_heap_up: "j < length xs \<Longrightarrow> mset (heap_up lt xs j) = mset xs"
proof (induction lt xs j rule: heap_up.induct)
  case (1 lt xs j)
  have "parent j \<le> j" by simp
  with 1 show ?case by (subst heap_up.simps) (auto simp: mset_heap_swap)
qed

lemma length_heap_up [simp]: "length (heap_up lt xs j) = length xs"
  by (induction lt xs j rule: heap_up.induct) (subst heap_up.simps, simp)

lemma length_heap_down [simp]: "length (heap_down lt xs i n) = length xs"
  by (induction lt xs i n rule: heap_down.induct) (subst heap_down.simps, simp)

lemma mset_heap_down: "n \<le> length xs \<Longrightarrow> mset (heap_down lt xs i n) = mset xs"
proof (induction lt xs i n rule: heap_down.induct)
  case (1 lt xs i n)
  then show ?case using least_child_bounds [of i n lt xs]
    by (subst heap_down.simps) (auto simp: mset_heap_swap)
qed

lemma heap_down_above: "n \<le> k \<Longrightarrow> n \<le> length xs \<Longrightarrow> heap_down lt xs i n ! k = xs ! k"
proof (induction lt xs i n rule: heap_down.induct)
  case (1 lt xs i n)
  then show ?case using least_child_bounds [of i n lt xs]
    by (subst heap_down.simps) (auto simp: heap_swap_nth)
qed

subsection \<open>The contract of a priority queue\<close>

text \<open>
  What the clients of a priority queue rely on, with \<open>bag\<close> the multiset of its elements.  Inside
  the locale, \<open>drain\<close> pops until the queue is empty: the elements come out least first.
\<close>

locale pqueue =
  fixes lt :: "'a \<Rightarrow> 'a \<Rightarrow> bool"
    and enq :: "'a \<Rightarrow> 'q \<Rightarrow> 'q"
    and deq :: "'q \<Rightarrow> 'a \<times> 'q"
    and peek :: "'q \<Rightarrow> 'a"
    and bag :: "'q \<Rightarrow> 'a multiset"
    and invar :: "'q \<Rightarrow> bool"
  assumes enq_bag: "invar q \<Longrightarrow> bag (enq x q) = add_mset x (bag q)"
    and enq_invar: "invar q \<Longrightarrow> invar (enq x q)"
    and deq_bag: "invar q \<Longrightarrow> bag q \<noteq> {#} \<Longrightarrow> deq q = (x, q') \<Longrightarrow> bag q = add_mset x (bag q')"
    and deq_invar: "invar q \<Longrightarrow> bag q \<noteq> {#} \<Longrightarrow> deq q = (x, q') \<Longrightarrow> invar q'"
    and deq_peek: "invar q \<Longrightarrow> bag q \<noteq> {#} \<Longrightarrow> deq q = (x, q') \<Longrightarrow> x = peek q"
    and peek_in: "invar q \<Longrightarrow> bag q \<noteq> {#} \<Longrightarrow> peek q \<in># bag q"
    and peek_least: "invar q \<Longrightarrow> y \<in># bag q \<Longrightarrow> \<not> lt y (peek q)"
begin

primrec drain :: "nat \<Rightarrow> 'q \<Rightarrow> 'a list" where
  "drain 0 q = []"
| "drain (Suc n) q = (case deq q of (x, q') \<Rightarrow> x # drain n q')"

lemma drain_bag: "invar q \<Longrightarrow> n = size (bag q) \<Longrightarrow> mset (drain n q) = bag q"
proof (induction n arbitrary: q)
  case (Suc n)
  obtain x q' where d: "deq q = (x, q')" by (cases "deq q")
  have ne: "bag q \<noteq> {#}" using Suc.prems by auto
  have "bag q = add_mset x (bag q')" "invar q'" using deq_bag deq_invar Suc.prems ne d by blast+
  with Suc d show ?case by simp
qed simp

lemma drain_sorted:
  "invar q \<Longrightarrow> n = size (bag q) \<Longrightarrow> sorted_wrt (\<lambda>x y. \<not> lt y x) (drain n q)"
proof (induction n arbitrary: q)
  case (Suc n)
  obtain x q' where d: "deq q = (x, q')" by (cases "deq q")
  have ne: "bag q \<noteq> {#}" using Suc.prems by auto
  have b: "bag q = add_mset x (bag q')" "invar q'" "x = peek q"
    using deq_bag deq_invar deq_peek Suc.prems ne d by blast+
  have "y \<in># bag q'" if "y \<in> set (drain n q')" for y
    using drain_bag [of q' n] b Suc.prems that by (metis add_left_cancel plus_1_eq_Suc set_mset_mset size_add_mset)
  then have "\<forall>y\<in>set (drain n q'). \<not> lt y x" using peek_least Suc.prems b by auto
  with Suc d b show ?case by simp
qed simp

end

subsection \<open>What Less has to be, and the heap order it keeps\<close>

locale heap_order =
  fixes lt :: "'a \<Rightarrow> 'a \<Rightarrow> bool"
  assumes lt_asym: "lt x y \<Longrightarrow> \<not> lt y x"
    and not_lt_trans: "\<not> lt y x \<Longrightarrow> \<not> lt z y \<Longrightarrow> \<not> lt z x"
begin

text \<open>
  The invariants of the two loops: only the edge above \<open>j\<close> (going up), or the edges below \<open>i\<close>
  (going down), may violate the heap order.
\<close>

definition up_inv :: "'a list \<Rightarrow> nat \<Rightarrow> bool" where
  "up_inv xs j \<longleftrightarrow>
     (\<forall>k\<in>{1..<length xs}. k \<noteq> j \<longrightarrow> \<not> lt (xs ! k) (xs ! parent k)) \<and>
     (\<forall>k\<in>{1..<length xs}. parent k = j \<and> 0 < j \<longrightarrow> \<not> lt (xs ! k) (xs ! parent j))"

definition down_inv :: "'a list \<Rightarrow> nat \<Rightarrow> nat \<Rightarrow> bool" where
  "down_inv xs i n \<longleftrightarrow>
     (\<forall>k\<in>{1..<n}. parent k \<noteq> i \<longrightarrow> \<not> lt (xs ! k) (xs ! parent k)) \<and>
     (\<forall>k\<in>{1..<n}. parent k = i \<and> 0 < i \<longrightarrow> \<not> lt (xs ! k) (xs ! parent i))"

lemma up_inv_step:
  assumes inv: "up_inv xs j" and j: "j < length xs" "0 < j" and lt: "lt (xs ! j) (xs ! parent j)"
  shows "up_inv (heap_swap xs (parent j) j) (parent j)"
proof -
  let ?i = "parent j" and ?ys = "heap_swap xs (parent j) j"
  have ij: "?i < j" using j by auto
  have nth: "?ys ! k = (if k = ?i then xs ! j else if k = j then xs ! ?i else xs ! k)" for k
    using ij j by (simp add: heap_swap_nth)
  have edge: "\<not> lt (xs ! k) (xs ! parent k)" if "k < length xs" "0 < k" "k \<noteq> j" for k
    using inv that by (auto simp: up_inv_def)
  have below: "\<not> lt (xs ! k) (xs ! ?i)" if "k < length xs" "parent k = j" "0 < k" for k
    using inv that j by (auto simp: up_inv_def)
  have "\<not> lt (?ys ! k) (?ys ! parent k)" if k: "k < length xs" "0 < k" "k \<noteq> ?i" for k
  proof -
    have "parent k < k" using k by auto
    consider "k = j" | "k \<noteq> j" "parent k = j" | "k \<noteq> j" "parent k = ?i" | "k \<noteq> j" "parent k \<noteq> j" "parent k \<noteq> ?i"
      by blast
    then show ?thesis
    proof cases
      case 1
      then show ?thesis using lt_asym [OF lt] ij nth by simp
    next
      case 2
      then show ?thesis using below k nth ij by simp
    next
      case 3
      then have "\<not> lt (xs ! k) (xs ! ?i)" using edge k by metis
      then have "\<not> lt (xs ! k) (xs ! j)" using not_lt_trans lt_asym [OF lt] by blast
      then show ?thesis using 3 k nth by simp
    next
      case 4
      then show ?thesis using edge k nth by simp
    qed
  qed
  moreover have "\<not> lt (?ys ! k) (?ys ! parent ?i)"
    if k: "k < length xs" "0 < k" "parent k = ?i" "0 < ?i" for k
  proof -
    have p: "parent ?i < ?i" using k(4) by auto
    have up: "\<not> lt (xs ! ?i) (xs ! parent ?i)" using edge k(4) ij j by simp
    have "k \<noteq> ?i" using k(2,3) by auto
    moreover have "\<not> lt (xs ! k) (xs ! ?i)" if "k \<noteq> j" using edge [of k] k that by metis
    ultimately have "\<not> lt (?ys ! k) (xs ! parent ?i)"
      using up not_lt_trans [OF up, of "xs ! k"] nth [of k] by (cases "k = j") simp_all
    then show ?thesis using nth p ij by simp
  qed
  ultimately show ?thesis using ij j by (auto simp: up_inv_def)
qed

lemma heap_up_ordered:
  "up_inv xs j \<Longrightarrow> j < length xs \<Longrightarrow> heap_ordered lt (heap_up lt xs j) (length xs)"
proof (induction j arbitrary: xs rule: less_induct)
  case (less j)
  show ?case
  proof (cases "parent j = j \<or> \<not> lt (xs ! j) (xs ! parent j)")
    case True
    then have "heap_ordered lt xs (length xs)"
      using less.prems by (auto simp: heap_ordered_def up_inv_def)
    with True show ?thesis by (subst heap_up.simps) simp
  next
    case False
    then have j: "parent j < j" by (cases j) auto
    then have "up_inv (heap_swap xs (parent j) j) (parent j)"
      using False less.prems up_inv_step by simp
    with j False less.IH [of "parent j" "heap_swap xs (parent j) j"] less.prems show ?thesis
      by (subst heap_up.simps) simp
  qed
qed

lemma lt_irrefl: "\<not> lt x x"
  using lt_asym by blast

lemma least_child_le:
  assumes "0 < k" "k < n" "parent k = i"
  shows "\<not> lt (xs ! k) (xs ! least_child lt xs i n)"
proof -
  from assms have "k = 2 * i + 1 \<or> k = 2 * i + 2" by auto
  then show ?thesis
  proof
    assume k: "k = 2 * i + 1"
    show ?thesis unfolding k
      using lt_irrefl lt_asym [of "xs ! (2 * i + 2)" "xs ! (2 * i + 1)"]
      by (simp add: least_child_def)
  next
    assume k: "k = 2 * i + 2"
    then show ?thesis using assms(2) lt_irrefl by (auto simp: least_child_def)
  qed
qed

lemma down_inv_step:
  assumes inv: "down_inv xs i n" and n: "2 * i + 1 < n" "n \<le> length xs"
    and j: "j = least_child lt xs i n" and lt: "lt (xs ! j) (xs ! i)"
  shows "down_inv (heap_swap xs i j) j n"
proof -
  let ?ys = "heap_swap xs i j"
  have ij: "i < j" "j < n" "parent j = i"
    unfolding j using least_child_bounds [OF n(1), of lt xs] parent_least_child [of lt xs i n]
    by blast+
  have nth: "?ys ! k = (if k = i then xs ! j else if k = j then xs ! i else xs ! k)" for k
    using ij n by (simp add: heap_swap_nth)
  have edge: "\<not> lt (xs ! k) (xs ! parent k)" if "k < n" "0 < k" "parent k \<noteq> i" for k
    using inv that by (auto simp: down_inv_def)
  have sib: "\<not> lt (xs ! k) (xs ! j)" if "k < n" "0 < k" "parent k = i" for k
    unfolding j using that by (intro least_child_le)
  have "\<not> lt (?ys ! k) (?ys ! parent k)" if k: "k < n" "0 < k" "parent k \<noteq> j" for k
  proof -
    have "parent k < k" using k by auto
    consider "k = i" | "k = j" | "k \<noteq> j" "parent k = i" | "k \<noteq> i" "k \<noteq> j" "parent k \<noteq> i"
      by blast
    then show ?thesis
    proof cases
      case 1
      then have "\<not> lt (xs ! j) (xs ! parent i)"
        using inv ij k by (auto simp: down_inv_def)
      with 1 k show ?thesis using nth \<open>parent k < k\<close> by simp
    next
      case 2
      then show ?thesis using lt_asym [OF lt] nth ij by simp
    next
      case 3
      then show ?thesis using sib k nth \<open>parent k < k\<close> by simp
    next
      case 4
      then show ?thesis using edge k nth by simp
    qed
  qed
  moreover have "\<not> lt (?ys ! k) (?ys ! parent j)"
    if k: "k < n" "0 < k" "parent k = j" for k
  proof -
    have "j < k" using k by auto
    then show ?thesis using edge [of k] k ij nth by auto
  qed
  ultimately show ?thesis by (auto simp: down_inv_def)
qed

lemma heap_down_ordered:
  "down_inv xs i n \<Longrightarrow> n \<le> length xs \<Longrightarrow> heap_ordered lt (heap_down lt xs i n) n"
proof (induction "n - i" arbitrary: xs i rule: less_induct)
  case less
  let ?j = "least_child lt xs i n"
  show ?case
  proof (cases "2 * i + 1 \<ge> n \<or> \<not> lt (xs ! ?j) (xs ! i)")
    case True
    have "\<not> lt (xs ! k) (xs ! parent k)" if k: "k < n" "0 < k" for k
    proof (cases "parent k = i")
      case False
      with k less.prems show ?thesis by (auto simp: down_inv_def)
    next
      case p: True
      then have "\<not> lt (xs ! k) (xs ! ?j)" using k by (intro least_child_le)
      moreover have "2 * i + 1 < n" using p k by auto
      ultimately show ?thesis using True p not_lt_trans by auto
    qed
    with True show ?thesis by (subst heap_down.simps) (auto simp: heap_ordered_def)
  next
    case False
    then have "i < ?j" "?j < n" using least_child_bounds [of i n lt xs] by auto
    moreover from False have "down_inv (heap_swap xs i ?j) ?j n"
      using down_inv_step less.prems by simp
    ultimately show ?thesis
      using False less.hyps [of ?j "heap_swap xs i ?j"] less.prems
      by (subst heap_down.simps) simp
  qed
qed

lemma heap_root_least:
  "heap_ordered lt xs n \<Longrightarrow> k < n \<Longrightarrow> \<not> lt (xs ! k) (xs ! 0)"
proof (induction k rule: less_induct)
  case (less k)
  show ?case
  proof (cases "k = 0")
    case True
    then show ?thesis using lt_asym by blast
  next
    case False
    then have "parent k < k" "\<not> lt (xs ! k) (xs ! parent k)"
      using less.prems by (auto simp: heap_ordered_def)
    then show ?thesis using less not_lt_trans by (meson less_trans)
  qed
qed

lemma heap_push_ordered:
  assumes "heap_ordered lt xs (length xs)"
  shows "heap_ordered lt (heap_push lt x xs) (length (heap_push lt x xs))"
proof -
  have "up_inv (xs @ [x]) (length xs)"
    unfolding up_inv_def
  proof safe
    fix k assume k: "k \<in> {1..<length (xs @ [x])}" "k \<noteq> length xs" "lt ((xs @ [x]) ! k) ((xs @ [x]) ! parent k)"
    moreover from k have "parent k < length xs" "k < length xs" by auto
    ultimately show False using assms by (auto simp: heap_ordered_def nth_append)
  qed auto
  then show ?thesis
    using heap_up_ordered [of "xs @ [x]" "length xs"] by (simp add: heap_push_def)
qed

lemma heap_pop_ordered:
  assumes "heap_ordered lt xs (length xs)" "xs \<noteq> []" "heap_pop lt xs = (x, ys)"
  shows "x = xs ! 0" and "mset xs = add_mset x (mset ys)" and "heap_ordered lt ys (length ys)"
proof -
  let ?n = "length xs - 1"
  let ?sw = "heap_swap xs 0 ?n" and ?zs = "heap_down lt (heap_swap xs 0 (length xs - 1)) 0 (length xs - 1)"
  have n: "?n < length xs" "0 < length xs" using assms by auto
  have ys: "ys = take ?n ?zs" "x = ?zs ! ?n" using assms by (auto simp: heap_pop_def Let_def)
  have nth: "?sw ! k = (if k = 0 then xs ! ?n else if k = ?n then xs ! 0 else xs ! k)" for k
    using n by (simp add: heap_swap_nth)
  show x: "x = xs ! 0" using ys nth n heap_down_above [of ?n ?n ?sw lt 0] by auto
  have "down_inv ?sw 0 ?n"
    using assms nth by (auto simp: down_inv_def heap_ordered_def)
  then have "heap_ordered lt ?zs ?n" using heap_down_ordered n by simp
  then show "heap_ordered lt ys (length ys)"
    by (auto simp: ys heap_ordered_def)
  have "?zs = ys @ [x]"
    using n ys take_Suc_conv_app_nth [of ?n ?zs] by simp
  moreover have "mset ?zs = mset xs"
    using mset_heap_down [of ?n ?sw lt 0] mset_heap_swap [of 0 xs ?n] n by simp
  ultimately show "mset xs = add_mset x (mset ys)" by simp
qed

end

text \<open>Every strict weak order makes the heap such a priority queue.\<close>

sublocale heap_order \<subseteq> heap: pqueue "lt" "heap_push lt" "heap_pop lt" "\<lambda>xs. xs ! 0" mset
  "\<lambda>xs. heap_ordered lt xs (length xs)"
proof unfold_locales
  fix q x q' y
  assume inv: "heap_ordered lt q (length q)"
  show "mset (heap_push lt x q) = add_mset x (mset q)"
    by (simp add: heap_push_def mset_heap_up)
  show "heap_ordered lt (heap_push lt x q) (length (heap_push lt x q))"
    using inv by (rule heap_push_ordered)
  show "\<not> lt y (q ! 0)" if "y \<in># mset q"
    using that heap_root_least [OF inv] by (auto simp: in_set_conv_nth)
  assume ne: "mset q \<noteq> {#}"
  then show "q ! 0 \<in># mset q" by simp
  assume "heap_pop lt q = (x, q')"
  with ne inv heap_pop_ordered [of q x q']
  show "mset q = add_mset x (mset q')" "heap_ordered lt q' (length q')" "x = q ! 0" by simp_all
qed

end
