(* ===== verification/Go_Url.thy ===== *)
theory Go_Url
  imports Prelude
begin

section \<open>Absolute URLs as Go's net/url parses them\<close>

text \<open>
  \<^verbatim>\<open>Consumer.IsInValidState\<close> and \<^verbatim>\<open>NewConsumer\<close> accept a callback URL exactly when
  \<^verbatim>\<open>url.Parse\<close> succeeds on it and the result \<^verbatim>\<open>IsAbs\<close>.  This theory holds the part
  of the standard library's parser that decides that: the control character check, the scheme, the
  authority (userinfo, host, port) and the percent escapes; the other fields of the parsed URL play
  no role.
\<close>

subsection \<open>Characters\<close>

abbreviation ord :: "char \<Rightarrow> nat" where
  "ord c \<equiv> of_char c"

definition is_alpha :: "char \<Rightarrow> bool" where
  "is_alpha c \<longleftrightarrow> (97 \<le> ord c \<and> ord c \<le> 122) \<or> (65 \<le> ord c \<and> ord c \<le> 90)"

definition is_digit :: "char \<Rightarrow> bool" where
  "is_digit c \<longleftrightarrow> 48 \<le> ord c \<and> ord c \<le> 57"

definition unhex :: "char \<Rightarrow> nat option" where
  "unhex c =
     (if is_digit c then Some (ord c - 48)
      else if 97 \<le> ord c \<and> ord c \<le> 102 then Some (ord c - 97 + 10)
      else if 65 \<le> ord c \<and> ord c \<le> 70 then Some (ord c - 65 + 10)
      else None)"

definition cut :: "char \<Rightarrow> string \<Rightarrow> string \<times> string" where
  "cut c s = (takeWhile (\<lambda>d. d \<noteq> c) s, drop 1 (dropWhile (\<lambda>d. d \<noteq> c) s))"

definition after_last :: "char \<Rightarrow> string \<Rightarrow> string" where
  "after_last c s = rev (takeWhile (\<lambda>d. d \<noteq> c) (rev s))"

definition before_last :: "char \<Rightarrow> string \<Rightarrow> string" where
  "before_last c s = take (length s - length (after_last c s) - 1) s"

subsection \<open>Percent escapes\<close>

datatype escape_mode = EncodeOther | EncodeHost | EncodeZone

definition host_plain :: "char \<Rightarrow> bool" where
  "host_plain c \<longleftrightarrow> is_alpha c \<or> is_digit c \<or> c \<in> set ''!$&()*+,;=:[]<>-_.~'' \<or> ord c = 39 \<or> ord c = 34"

fun unescape_ok :: "escape_mode \<Rightarrow> string \<Rightarrow> bool" where
  "unescape_ok m [] = True"
| "unescape_ok m (c # s) =
     (if c = CHR ''%'' then
        (case s of
           h # l # s' \<Rightarrow>
             (case (unhex h, unhex l) of
                (Some a, Some b) \<Rightarrow>
                  (m = EncodeHost \<longrightarrow> 8 \<le> a \<or> (a = 2 \<and> b = 5)) \<and>
                  (m = EncodeZone \<longrightarrow>
                     (a = 2 \<and> b = 5) \<or> (a = 2 \<and> b = 0) \<or> host_plain (char_of (16 * a + b))) \<and>
                  unescape_ok m s'
              | _ \<Rightarrow> False)
         | _ \<Rightarrow> False)
      else (m \<noteq> EncodeOther \<and> ord c < 128 \<longrightarrow> host_plain c) \<and> unescape_ok m s)"

subsection \<open>Scheme, authority and the parser\<close>

datatype scheme_result = SchemeErr | Scheme string string

fun getScheme_from :: "string \<Rightarrow> string \<Rightarrow> string \<Rightarrow> scheme_result" where
  "getScheme_from raw acc [] = Scheme [] raw"
| "getScheme_from raw acc (c # s) =
     (if is_alpha c then getScheme_from raw (acc @ [c]) s
      else if is_digit c \<or> c \<in> set ''+-.'' then
        (if acc = [] then Scheme [] raw else getScheme_from raw (acc @ [c]) s)
      else if c = CHR '':'' then (if acc = [] then SchemeErr else Scheme acc s)
      else Scheme [] raw)"

definition getScheme :: "string \<Rightarrow> scheme_result" where
  "getScheme raw = getScheme_from raw [] raw"

definition validOptionalPort :: "string \<Rightarrow> bool" where
  "validOptionalPort p = (case p of [] \<Rightarrow> True | c # ds \<Rightarrow> c = CHR '':'' \<and> list_all is_digit ds)"

fun index_pct25 :: "string \<Rightarrow> nat option" where
  "index_pct25 (a # b # c # s) =
     (if [a, b, c] = ''%25'' then Some 0 else map_option Suc (index_pct25 (b # c # s)))"
| "index_pct25 _ = None"

definition parseHost_ok :: "string \<Rightarrow> bool" where
  "parseHost_ok host =
     (if take 1 host = ''['' then
        CHR '']'' \<in> set host \<and> validOptionalPort (after_last (CHR '']'') host) \<and>
        (let lit = before_last (CHR '']'') host in
         case index_pct25 lit of
           None \<Rightarrow> unescape_ok EncodeHost host
         | Some z \<Rightarrow>
             unescape_ok EncodeHost (take z host) \<and> unescape_ok EncodeZone (drop z lit) \<and>
             unescape_ok EncodeHost (drop (length lit) host))
      else
        (CHR '':'' \<in> set host \<longrightarrow> validOptionalPort (CHR '':'' # after_last (CHR '':'') host)) \<and>
        unescape_ok EncodeHost host)"

definition validUserinfo :: "string \<Rightarrow> bool" where
  "validUserinfo s \<longleftrightarrow>
     list_all (\<lambda>c. is_alpha c \<or> is_digit c \<or> c \<in> set ''-._:~!$&()*+,;=%@'' \<or> ord c = 39) s"

definition parseAuthority_ok :: "string \<Rightarrow> bool" where
  "parseAuthority_ok authority =
     (if CHR ''@'' \<in> set authority then
        parseHost_ok (after_last (CHR ''@'') authority) \<and>
        validUserinfo (before_last (CHR ''@'') authority) \<and>
        unescape_ok EncodeOther (before_last (CHR ''@'') authority)
      else parseHost_ok authority)"

definition parse_ok :: "string \<Rightarrow> string \<Rightarrow> bool" where
  "parse_ok scheme rest0 =
     (let rest = fst (cut (CHR ''?'') rest0) in
      if take 1 rest \<noteq> ''/'' \<and> scheme \<noteq> [] then True
      else if take 1 rest \<noteq> ''/'' \<and> CHR '':'' \<in> set (fst (cut (CHR ''/'') rest)) then False
      else if (scheme \<noteq> [] \<or> take 3 rest \<noteq> ''///'') \<and> take 2 rest = ''//'' then
        (let authority = takeWhile (\<lambda>c. c \<noteq> CHR ''/'') (drop 2 rest);
             path = dropWhile (\<lambda>c. c \<noteq> CHR ''/'') (drop 2 rest) in
         parseAuthority_ok authority \<and> unescape_ok EncodeOther path)
      else unescape_ok EncodeOther rest)"

text \<open>
  \<open>url_Parse s\<close> is the scheme of the parsed URL, or \<open>None\<close> when \<^verbatim>\<open>url.Parse\<close> returns an
  error.
\<close>

definition url_Parse :: "string \<Rightarrow> string option" where
  "url_Parse raw =
     (let (u, frag) = cut (CHR ''#'') raw in
      if list_ex (\<lambda>c. ord c < 32 \<or> ord c = 127) u then None
      else if u = ''*'' then (if unescape_ok EncodeOther frag then Some [] else None)
      else (case getScheme u of
              SchemeErr \<Rightarrow> None
            | Scheme scheme rest \<Rightarrow>
                if parse_ok scheme rest \<and> unescape_ok EncodeOther frag then Some scheme else None))"

definition IsAbs :: "string \<Rightarrow> bool" where
  "IsAbs scheme \<longleftrightarrow> scheme \<noteq> []"

definition absolute_url :: "string \<Rightarrow> bool" where
  "absolute_url raw = (case url_Parse raw of None \<Rightarrow> False | Some scheme \<Rightarrow> IsAbs scheme)"

lemma absolute_url_examples:
  "absolute_url ''https://imytech.net/callback''"
  "absolute_url ''http://localhost:8080/c?x=1''"
  "\<not> absolute_url ''./consumer''"
  "\<not> absolute_url ''http://localhost:80a/c''"
  "\<not> absolute_url ''http://a b.com/''"
  "\<not> absolute_url ''''"
  by code_simp+

end
