(* ===== verification/Data_Model.thy ===== *)
theory Data_Model
  imports Go_Url
begin

section \<open>The data transfer objects of storage/data\<close>

text \<open>
  One record per struct of \<^verbatim>\<open>src/storage/data\<close>; Go's embedding of
  \<^verbatim>\<open>BasePaginateable\<close> and \<^verbatim>\<open>MessageStakeholder\<close> is record extension, so the methods of the
  embedded structs are polymorphic in the extension.  Fields that several structs share are
  prefixed.  \<^verbatim>\<open>QuickFix\<close> methods return the flag of the code and the fixed object; the ids and
  the time they draw are arguments.  The lemmas show that the constructors return valid objects,
  that \<^verbatim>\<open>QuickFix\<close> is idempotent, and that lock ids of different kinds never collide.
\<close>

subsection \<open>Errors\<close>

text \<open>
  The error values of the storage packages; \<open>DBError n\<close> is an error of the database driver with
  MySQL number \<open>n\<close> (1062 is a duplicate key, 1451 and 1452 are foreign key violations) and
  \<open>IOError\<close> any other failure of the driver or the network.
\<close>

datatype error =
    ErrInsufficientInformationForCreating
  | ErrInvalidConsumerType
  | ErrLockableNil
  | ErrNoLock
  | ErrAlreadyLocked
  | ErrNoRowsUpdated
  | ErrInvalidStateToSave
  | ErrPaginationDeadlock
  | ErrNoRows
  | ErrNoTxInContext
  | ErrDuplicateMessageIDForChannel
  | ErrDuplicateScheduledMessageIDForChannel
  | ErrScheduledNotDispatched
  | ErrDuplicateDispatchPause
  | ErrOptimisticAppInit
  | ErrOptimisticAppComplete
  | ErrAppInitializing
  | ErrNoDataChangeFromInitialized
  | ErrCompleteWhileNotBeingInitialized
  | ErrConsumer
  | ErrPanicInExecuteJob
  | ErrArchive error
  | ErrBatchDelete error
  | DBError nat
  | IOError string

type_synonym 'a result = "error + 'a"

subsection \<open>common.go: paginateable objects and cursors\<close>

record BasePaginateable =
  ID :: xid
  CreatedAt :: time
  UpdatedAt :: time

record Cursor =
  cur_ID :: xid
  cur_Timestamp :: time

record Pagination =
  Next :: "Cursor option"
  Previous :: "Cursor option"

definition GetCursor :: "'a BasePaginateable_scheme \<Rightarrow> Cursor" where
  "GetCursor p = \<lparr>cur_ID = ID p, cur_Timestamp = CreatedAt p\<rparr>"

definition NewPagination ::
  "'a BasePaginateable_scheme option \<Rightarrow> 'b BasePaginateable_scheme option \<Rightarrow> Pagination" where
  "NewPagination after before =
     \<lparr>Next = map_option GetCursor after, Previous = map_option GetCursor before\<rparr>"

definition no_page :: Pagination where
  "no_page = \<lparr>Next = None, Previous = None\<rparr>"

text \<open>One repair of a \<^verbatim>\<open>QuickFix\<close>: \<open>if c { f; madeChanges = true }\<close>.\<close>

definition fix_when :: "('a \<Rightarrow> bool) \<Rightarrow> ('a \<Rightarrow> 'a) \<Rightarrow> bool \<times> 'a \<Rightarrow> bool \<times> 'a" where
  "fix_when c f x = (if c (snd x) then (True, f (snd x)) else x)"

definition base_QuickFix ::
  "xid \<Rightarrow> time \<Rightarrow> 'a BasePaginateable_scheme \<Rightarrow> bool \<times> 'a BasePaginateable_scheme" where
  "base_QuickFix newid now p =
     (let x1 = fix_when (\<lambda>p. ID p = nil_xid) (\<lambda>p. p\<lparr>ID := newid\<rparr>) (False, p);
          x2 = fix_when (\<lambda>p. IsZero (CreatedAt p)) (\<lambda>p. p\<lparr>CreatedAt := now\<rparr>) x1
      in fix_when (\<lambda>p. IsZero (UpdatedAt p)) (\<lambda>p. p\<lparr>UpdatedAt := now\<rparr>) x2)"

definition setValIfBothNotEmpty :: "string \<Rightarrow> string \<Rightarrow> bool \<times> string" where
  "setValIfBothNotEmpty src fallback =
     (if length src \<le> 0 \<and> length fallback > 0 then (True, fallback) else (False, src))"

subsection \<open>producer.go and channel.go\<close>

record MessageStakeholder = BasePaginateable +
  Name :: string
  Token :: string

definition createMessageStakeholder :: "xid \<Rightarrow> string \<Rightarrow> string \<Rightarrow> MessageStakeholder" where
  "createMessageStakeholder newid name token =
     \<lparr>ID = newid, CreatedAt = 0, UpdatedAt = 0, Name = name, Token = token\<rparr>"

record Producer = MessageStakeholder +
  ProducerID :: string

record Channel = MessageStakeholder +
  ChannelID :: string

definition producer_QuickFix :: "xid \<Rightarrow> time \<Rightarrow> Producer \<Rightarrow> bool \<times> Producer" where
  "producer_QuickFix newid now producer =
     (let (m1, p1) = base_QuickFix newid now producer;
          (m2, name) = setValIfBothNotEmpty (Name p1) (ProducerID p1)
      in (m2 \<or> m1, p1\<lparr>Name := name\<rparr>))"

definition producer_IsInValidState :: "Producer \<Rightarrow> bool" where
  "producer_IsInValidState producer =
     (if length (ProducerID producer) \<le> 0 \<or> length (Name producer) \<le> 0 \<or> length (Token producer) \<le> 0
      then False else True)"

definition NewProducer :: "xid \<Rightarrow> string \<Rightarrow> string \<Rightarrow> Producer result" where
  "NewProducer newid producerID token =
     (if length producerID \<le> 0 \<or> length token \<le> 0 then Inl ErrInsufficientInformationForCreating
      else Inr (MessageStakeholder.extend (createMessageStakeholder newid producerID token)
                  (Producer.fields producerID)))"

definition channel_QuickFix :: "xid \<Rightarrow> time \<Rightarrow> Channel \<Rightarrow> bool \<times> Channel" where
  "channel_QuickFix newid now channel =
     (let (m1, c1) = base_QuickFix newid now channel;
          (m2, name) = setValIfBothNotEmpty (Name c1) (ChannelID c1)
      in (m2 \<or> m1, c1\<lparr>Name := name\<rparr>))"

definition channel_IsInValidState :: "Channel \<Rightarrow> bool" where
  "channel_IsInValidState channel =
     (if length (ChannelID channel) \<le> 0 \<or> length (Name channel) \<le> 0 \<or> length (Token channel) \<le> 0
      then False else True)"

definition NewChannel :: "xid \<Rightarrow> string \<Rightarrow> string \<Rightarrow> Channel result" where
  "NewChannel newid channelID token =
     (if length channelID \<le> 0 \<or> length token \<le> 0 then Inl ErrInsufficientInformationForCreating
      else Inr (MessageStakeholder.extend (createMessageStakeholder newid channelID token)
                  (Channel.fields channelID)))"

subsection \<open>consumer.go\<close>

datatype ConsumerType = PullConsumer | PushConsumer

definition ConsumerType_String :: "ConsumerType \<Rightarrow> string" where
  "ConsumerType_String t = (case t of PullConsumer \<Rightarrow> ''pull'' | _ \<Rightarrow> ''push'')"

definition getConsumerTypeFromString :: "string \<Rightarrow> ConsumerType result" where
  "getConsumerTypeFromString value =
     (if value = ''pull'' then Inr PullConsumer
      else if value = ''push'' then Inr PushConsumer
      else if value = '''' then Inr PushConsumer
      else Inl ErrInvalidConsumerType)"

record Consumer = MessageStakeholder +
  ConsumerID :: string
  CallbackURL :: string
  ConsumingFrom :: "Channel option"
  CType :: ConsumerType

definition consumer_QuickFix :: "xid \<Rightarrow> time \<Rightarrow> Consumer \<Rightarrow> bool \<times> Consumer" where
  "consumer_QuickFix newid now consumer =
     (let (m1, c1) = base_QuickFix newid now consumer;
          (m2, name) = setValIfBothNotEmpty (Name c1) (ConsumerID c1)
      in (m2 \<or> m1, c1\<lparr>Name := name\<rparr>))"

definition consumer_IsInValidState :: "Consumer \<Rightarrow> bool" where
  "consumer_IsInValidState consumer =
     (if length (ConsumerID consumer) \<le> 0 \<or> length (Name consumer) \<le> 0 \<or> length (Token consumer) \<le> 0
         \<or> (case ConsumingFrom consumer of None \<Rightarrow> True | Some ch \<Rightarrow> \<not> channel_IsInValidState ch)
      then False
      else (case url_Parse (CallbackURL consumer) of
              None \<Rightarrow> False
            | Some scheme \<Rightarrow> IsAbs scheme))"

definition consumer_GetChannelIDSafely :: "Consumer \<Rightarrow> string" where
  "consumer_GetChannelIDSafely consumer =
     (case ConsumingFrom consumer of Some ch \<Rightarrow> ChannelID ch | None \<Rightarrow> '''')"

text \<open>The callback URL argument is the parsed URL: its scheme and its \<^verbatim>\<open>String()\<close> form.\<close>

definition NewConsumer ::
  "xid \<Rightarrow> Channel option \<Rightarrow> string \<Rightarrow> string \<Rightarrow> string \<times> string \<Rightarrow> string \<Rightarrow> Consumer result" where
  "NewConsumer newid channel consumerID token callbackURL consumerTypeStr =
     (if length consumerID \<le> 0 \<or> length token \<le> 0 \<or> channel = None \<or> \<not> IsAbs (fst callbackURL)
      then Inl ErrInsufficientInformationForCreating
      else (case getConsumerTypeFromString consumerTypeStr of
              Inl e \<Rightarrow> Inl e
            | Inr t \<Rightarrow>
                Inr (MessageStakeholder.extend (createMessageStakeholder newid consumerID token)
                       (Consumer.fields consumerID (snd callbackURL) channel t))))"

subsection \<open>message.go\<close>

datatype MsgStatus = MsgStatusAcknowledged | MsgStatusDispatched | MsgStatusOther int

definition MsgStatus_GetValue :: "MsgStatus \<Rightarrow> int" where
  "MsgStatus_GetValue st =
     (case st of MsgStatusAcknowledged \<Rightarrow> 101 | MsgStatusDispatched \<Rightarrow> 102 | MsgStatusOther n \<Rightarrow> n)"

type_synonym HeadersMap = "(string, string) gomap"

record Message = BasePaginateable +
  MessageID :: string
  Payload :: string
  ContentType :: string
  msg_Priority :: nat
  msg_Status :: MsgStatus
  BroadcastedTo :: "Channel option"
  ProducedBy :: "Producer option"
  ReceivedAt :: time
  OutboxedAt :: time
  Headers :: HeadersMap

definition message_QuickFix :: "xid \<Rightarrow> xid \<Rightarrow> time \<Rightarrow> Message \<Rightarrow> bool \<times> Message" where
  "message_QuickFix newid newmid now message =
     (let x0 = base_QuickFix newid now message;
          x1 = fix_when (\<lambda>g. IsZero (ReceivedAt g)) (\<lambda>g. g\<lparr>ReceivedAt := now\<rparr>) x0;
          x2 = fix_when (\<lambda>g. IsZero (OutboxedAt g)) (\<lambda>g. g\<lparr>OutboxedAt := now\<rparr>) x1;
          x3 = fix_when (\<lambda>g. CreatedAt g > ReceivedAt g) (\<lambda>g. g\<lparr>CreatedAt := ReceivedAt g\<rparr>) x2;
          x4 = fix_when (\<lambda>g. msg_Status g \<noteq> MsgStatusAcknowledged \<and> msg_Status g \<noteq> MsgStatusDispatched)
                 (\<lambda>g. g\<lparr>msg_Status := MsgStatusAcknowledged\<rparr>) x3
      in fix_when (\<lambda>g. length (MessageID g) \<le> 0) (\<lambda>g. g\<lparr>MessageID := newmid\<rparr>) x4)"

definition message_IsInValidState :: "Message \<Rightarrow> bool" where
  "message_IsInValidState message =
     (let v1 = \<not> (length (MessageID message) \<le> 0 \<or> length (Payload message) \<le> 0
                  \<or> length (ContentType message) \<le> 0);
          v2 = (if (case BroadcastedTo message of None \<Rightarrow> True | Some ch \<Rightarrow> \<not> channel_IsInValidState ch)
                   \<or> (case ProducedBy message of None \<Rightarrow> True | Some pr \<Rightarrow> \<not> producer_IsInValidState pr)
                then False else v1);
          v3 = (if v2 \<and> msg_Status message \<noteq> MsgStatusAcknowledged
                   \<and> msg_Status message \<noteq> MsgStatusDispatched
                then False else v2)
      in v3 \<and> (case msg_Status message of
                  MsgStatusAcknowledged \<Rightarrow> \<not> IsZero (ReceivedAt message)
                | MsgStatusDispatched \<Rightarrow> \<not> IsZero (OutboxedAt message)
                | MsgStatusOther n \<Rightarrow> True))"

definition message_GetChannelIDSafely :: "Message \<Rightarrow> string" where
  "message_GetChannelIDSafely message =
     (case BroadcastedTo message of Some ch \<Rightarrow> ChannelID ch | None \<Rightarrow> '''')"

definition message_GetLockID :: "Message \<Rightarrow> string" where
  "message_GetLockID message = ''msg-'' @ ID message"

definition NewMessage ::
  "xid \<Rightarrow> xid \<Rightarrow> time \<Rightarrow> Channel option \<Rightarrow> Producer option \<Rightarrow> string \<Rightarrow> string \<Rightarrow> HeadersMap
   \<Rightarrow> Message \<times> error option" where
  "NewMessage newid newmid now channel producedBy payload contentType headers =
     (let msg = snd (message_QuickFix newid newmid now
                  \<lparr>ID = nil_xid, CreatedAt = 0, UpdatedAt = 0, MessageID = '''', Payload = payload,
                   ContentType = contentType, msg_Priority = 0, msg_Status = MsgStatusOther 0,
                   BroadcastedTo = channel, ProducedBy = producedBy, ReceivedAt = 0, OutboxedAt = 0,
                   Headers = headers\<rparr>)
      in (msg, if \<not> message_IsInValidState msg then Some ErrInsufficientInformationForCreating else None))"

subsection \<open>scheduledmessage.go\<close>

datatype ScheduledMsgStatus =
  ScheduledMsgStatusScheduled | ScheduledMsgStatusDispatched | ScheduledMsgStatusOther int

definition ScheduledMsgStatus_GetValue :: "ScheduledMsgStatus \<Rightarrow> int" where
  "ScheduledMsgStatus_GetValue st =
     (case st of ScheduledMsgStatusScheduled \<Rightarrow> 101 | ScheduledMsgStatusDispatched \<Rightarrow> 102
      | ScheduledMsgStatusOther n \<Rightarrow> n)"

record ScheduledMessage = BasePaginateable +
  sm_MessageID :: string
  sm_Payload :: string
  sm_ContentType :: string
  sm_Priority :: nat
  sm_Status :: ScheduledMsgStatus
  sm_BroadcastedTo :: "Channel option"
  sm_ProducedBy :: "Producer option"
  DispatchSchedule :: time
  DispatchedAt :: time
  sm_Headers :: HeadersMap

definition scheduled_QuickFix ::
  "xid \<Rightarrow> xid \<Rightarrow> time \<Rightarrow> ScheduledMessage \<Rightarrow> bool \<times> ScheduledMessage" where
  "scheduled_QuickFix newid newmid now message =
     (let x0 = base_QuickFix newid now message;
          x1 = fix_when (\<lambda>g. IsZero (DispatchSchedule g)) (\<lambda>g. g\<lparr>DispatchSchedule := now + 2 * minute\<rparr>) x0;
          x2 = fix_when (\<lambda>g. sm_Status g \<noteq> ScheduledMsgStatusScheduled \<and> sm_Status g \<noteq> ScheduledMsgStatusDispatched)
                 (\<lambda>g. g\<lparr>sm_Status := ScheduledMsgStatusScheduled\<rparr>) x1
      in fix_when (\<lambda>g. length (sm_MessageID g) \<le> 0) (\<lambda>g. g\<lparr>sm_MessageID := newmid\<rparr>) x2)"

definition scheduled_IsInValidState :: "ScheduledMessage \<Rightarrow> bool" where
  "scheduled_IsInValidState message =
     (let v1 = \<not> (length (sm_MessageID message) \<le> 0 \<or> length (sm_Payload message) \<le> 0
                  \<or> length (sm_ContentType message) \<le> 0);
          v2 = (if (case sm_BroadcastedTo message of None \<Rightarrow> True | Some ch \<Rightarrow> \<not> channel_IsInValidState ch)
                   \<or> (case sm_ProducedBy message of None \<Rightarrow> True | Some pr \<Rightarrow> \<not> producer_IsInValidState pr)
                then False else v1);
          v3 = (if v2 \<and> sm_Status message \<noteq> ScheduledMsgStatusScheduled
                   \<and> sm_Status message \<noteq> ScheduledMsgStatusDispatched
                then False else v2)
      in v3 \<and> (case sm_Status message of
                  ScheduledMsgStatusScheduled \<Rightarrow> \<not> IsZero (DispatchSchedule message)
                | ScheduledMsgStatusDispatched \<Rightarrow> \<not> IsZero (DispatchedAt message)
                | ScheduledMsgStatusOther n \<Rightarrow> True))"

definition scheduled_GetChannelIDSafely :: "ScheduledMessage \<Rightarrow> string" where
  "scheduled_GetChannelIDSafely message =
     (case sm_BroadcastedTo message of Some ch \<Rightarrow> ChannelID ch | None \<Rightarrow> '''')"

definition scheduled_GetLockID :: "ScheduledMessage \<Rightarrow> string" where
  "scheduled_GetLockID message = ''sch-msg-'' @ ID message"

definition NewScheduledMessage ::
  "xid \<Rightarrow> xid \<Rightarrow> time \<Rightarrow> Channel option \<Rightarrow> Producer option \<Rightarrow> string \<Rightarrow> string \<Rightarrow> time \<Rightarrow> HeadersMap
   \<Rightarrow> ScheduledMessage \<times> error option" where
  "NewScheduledMessage newid newmid now channel producedBy payload contentType dispatchSchedule headers =
     (let msg = snd (scheduled_QuickFix newid newmid now
                  \<lparr>ID = nil_xid, CreatedAt = 0, UpdatedAt = 0, sm_MessageID = '''', sm_Payload = payload,
                   sm_ContentType = contentType, sm_Priority = 0, sm_Status = ScheduledMsgStatusOther 0,
                   sm_BroadcastedTo = channel, sm_ProducedBy = producedBy,
                   DispatchSchedule = dispatchSchedule, DispatchedAt = 0, sm_Headers = headers\<rparr>)
      in (msg, if \<not> scheduled_IsInValidState msg then Some ErrInsufficientInformationForCreating else None))"

subsection \<open>job.go\<close>

datatype JobStatus = JobQueued | JobInflight | JobDelivered | JobDead | JobParked | JobStatusOther int

definition JobStatus_GetValue :: "JobStatus \<Rightarrow> int" where
  "JobStatus_GetValue st =
     (case st of JobQueued \<Rightarrow> 1001 | JobInflight \<Rightarrow> 1002 | JobDelivered \<Rightarrow> 1003 | JobDead \<Rightarrow> 1004
      | JobParked \<Rightarrow> 1100 | JobStatusOther n \<Rightarrow> n)"

record DeliveryJob = BasePaginateable +
  dj_Message :: "Message option"
  Listener :: "Consumer option"
  dj_Status :: JobStatus
  StatusChangedAt :: time
  DispatchReceivedAt :: time
  EarliestNextAttemptAt :: time
  RetryAttemptCount :: nat
  dj_Priority :: nat
  IncrementalTimeout :: nat

definition job_QuickFix :: "xid \<Rightarrow> time \<Rightarrow> DeliveryJob \<Rightarrow> bool \<times> DeliveryJob" where
  "job_QuickFix newid now job =
     (let x0 = base_QuickFix newid now job;
          x1 = fix_when (\<lambda>j. IsZero (DispatchReceivedAt j))
                 (\<lambda>j. j\<lparr>DispatchReceivedAt := now, EarliestNextAttemptAt := now\<rparr>) x0;
          x2 = fix_when (\<lambda>j. IsZero (StatusChangedAt j)) (\<lambda>j. j\<lparr>StatusChangedAt := now\<rparr>) x1;
          x3 = fix_when (\<lambda>j. IsZero (EarliestNextAttemptAt j))
                 (\<lambda>j. j\<lparr>EarliestNextAttemptAt := DispatchReceivedAt j\<rparr>) x2
      in fix_when (\<lambda>j. dj_Status j \<notin> {JobQueued, JobInflight, JobDelivered, JobDead, JobParked})
           (\<lambda>j. j\<lparr>dj_Status := JobQueued\<rparr>) x3)"

definition job_IsInValidState :: "DeliveryJob \<Rightarrow> bool" where
  "job_IsInValidState job =
     (let v1 = (case dj_Message job of None \<Rightarrow> False | Some m \<Rightarrow> message_IsInValidState m) \<and>
               (case Listener job of None \<Rightarrow> False | Some c \<Rightarrow> consumer_IsInValidState c);
          v2 = (if v1 \<and> dj_Status job \<noteq> JobQueued \<and> dj_Status job \<noteq> JobInflight
                   \<and> dj_Status job \<noteq> JobDelivered \<and> dj_Status job \<noteq> JobDead then False else v1)
      in (if v2 then
            (if IsZero (DispatchReceivedAt job) then False
             else if IsZero (StatusChangedAt job) then False
             else if IsZero (EarliestNextAttemptAt job) then False
             else True)
          else False))"

definition job_GetLockID :: "DeliveryJob \<Rightarrow> string" where
  "job_GetLockID job = ''dj-'' @ ID job"

definition NewDeliveryJob ::
  "xid \<Rightarrow> time \<Rightarrow> Message option \<Rightarrow> Consumer option \<Rightarrow> DeliveryJob \<times> error option" where
  "NewDeliveryJob newid now msg consumer =
     (let job = \<lparr>ID = nil_xid, CreatedAt = 0, UpdatedAt = 0, dj_Message = msg, Listener = consumer,
                 dj_Status = JobStatusOther 0, StatusChangedAt = 0, DispatchReceivedAt = 0,
                 EarliestNextAttemptAt = 0, RetryAttemptCount = 0,
                 dj_Priority = (case msg of None \<Rightarrow> 0 | Some m \<Rightarrow> msg_Priority m),
                 IncrementalTimeout = 0\<rparr>;
          job' = snd (job_QuickFix newid now job)
      in (job', if \<not> job_IsInValidState job' then Some ErrInsufficientInformationForCreating else None))"

subsection \<open>lock.go\<close>

record Lock =
  LockID :: string
  AttainedAt :: time

text \<open>A \<^verbatim>\<open>Lockable\<close> is given by its lock id, \<open>None\<close> for a nil interface.\<close>

definition NewLock :: "time \<Rightarrow> string option \<Rightarrow> Lock option \<times> error option" where
  "NewLock now lockable =
     (case lockable of
        None \<Rightarrow> (None, Some ErrLockableNil)
      | Some lid \<Rightarrow> (Some \<lparr>LockID = lid, AttainedAt = now\<rparr>, None))"

subsection \<open>dispatchpause.go\<close>

definition GlobalDispatchPauseScope :: string where
  "GlobalDispatchPauseScope = ''__global__''"

definition MaxDispatchPauseReasonLength :: nat where
  "MaxDispatchPauseReasonLength = 1024"

definition jobParkingDrainerLockID :: string where
  "jobParkingDrainerLockID = ''job-parking-drainer''"

record DispatchPause =
  Scope :: string
  pause_ConsumerID :: string
  Reason :: string
  PausedAt :: time

definition IsGlobal :: "DispatchPause \<Rightarrow> bool" where
  "IsGlobal pause \<longleftrightarrow> Scope pause = GlobalDispatchPauseScope"

definition pause_QuickFix :: "time \<Rightarrow> DispatchPause \<Rightarrow> bool \<times> DispatchPause" where
  "pause_QuickFix now pause =
     (let x1 = fix_when (\<lambda>p. IsZero (PausedAt p)) (\<lambda>p. p\<lparr>PausedAt := now\<rparr>) (False, pause)
      in fix_when (\<lambda>p. length (Reason p) > MaxDispatchPauseReasonLength)
           (\<lambda>p. p\<lparr>Reason := take MaxDispatchPauseReasonLength (Reason p)\<rparr>) x1)"

definition pause_IsInValidState :: "DispatchPause \<Rightarrow> bool" where
  "pause_IsInValidState pause =
     (if length (Scope pause) = 0 \<or> IsZero (PausedAt pause)
         \<or> length (Reason pause) > MaxDispatchPauseReasonLength then False
      else if IsGlobal pause then length (pause_ConsumerID pause) = 0
      else pause_ConsumerID pause = Scope pause)"

definition NewGlobalDispatchPause :: "time \<Rightarrow> string \<Rightarrow> DispatchPause" where
  "NewGlobalDispatchPause now reason =
     snd (pause_QuickFix now \<lparr>Scope = GlobalDispatchPauseScope, pause_ConsumerID = '''',
                              Reason = reason, PausedAt = 0\<rparr>)"

definition NewConsumerDispatchPause :: "time \<Rightarrow> Consumer option \<Rightarrow> string \<Rightarrow> DispatchPause result" where
  "NewConsumerDispatchPause now consumer reason =
     (case consumer of
        None \<Rightarrow> Inl ErrInsufficientInformationForCreating
      | Some c \<Rightarrow>
          if ID c = nil_xid then Inl ErrInsufficientInformationForCreating
          else Inr (snd (pause_QuickFix now \<lparr>Scope = ID c, pause_ConsumerID = ID c,
                                             Reason = reason, PausedAt = 0\<rparr>)))"

definition DrainLock_GetLockID :: string where
  "DrainLock_GetLockID = jobParkingDrainerLockID"

subsection \<open>dlqsummary.go\<close>

record DLQSummary =
  dlq_ConsumerID :: string
  dlq_ConsumerName :: string
  dlq_ChannelID :: string
  dlq_ChannelName :: string
  DeadCount :: int
  LastCheckedAt :: time

definition DLQSummaryLock_GetLockID :: string where
  "DLQSummaryLock_GetLockID = ''dlq-summary-updater''"

subsection \<open>Properties of the objects\<close>

lemmas quickfix_defs =
  base_QuickFix_def producer_QuickFix_def channel_QuickFix_def consumer_QuickFix_def
  message_QuickFix_def scheduled_QuickFix_def job_QuickFix_def pause_QuickFix_def
  setValIfBothNotEmpty_def

lemmas valid_defs =
  producer_IsInValidState_def channel_IsInValidState_def consumer_IsInValidState_def
  message_IsInValidState_def scheduled_IsInValidState_def job_IsInValidState_def
  pause_IsInValidState_def

lemma fix_when_skip: "\<not> c (snd x) \<Longrightarrow> fix_when c f x = x"
  by (simp add: fix_when_def)

lemma fix_when_pair: "fix_when c f (m, p) = (if c p then (True, f p) else (m, p))"
  by (simp add: fix_when_def)

lemma snd_fix_when: "snd (fix_when c f x) = (if c (snd x) then f (snd x) else snd x)"
  by (simp add: fix_when_def)

lemma base_QuickFix_fixed:
  "ID p \<noteq> nil_xid \<Longrightarrow> CreatedAt p \<noteq> 0 \<Longrightarrow> UpdatedAt p \<noteq> 0 \<Longrightarrow> base_QuickFix newid now p = (False, p)"
  by (simp add: base_QuickFix_def fix_when_skip Let_def)

lemma base_QuickFix_parts:
  "ID (snd (base_QuickFix newid now p)) = (if ID p = nil_xid then newid else ID p)"
  "CreatedAt (snd (base_QuickFix newid now p)) = (if CreatedAt p = 0 then now else CreatedAt p)"
  "UpdatedAt (snd (base_QuickFix newid now p)) = (if UpdatedAt p = 0 then now else UpdatedAt p)"
  "BasePaginateable.more (snd (base_QuickFix newid now p)) = BasePaginateable.more p"
  by (simp_all add: base_QuickFix_def snd_fix_when Let_def)

lemma job_QuickFix_fixed:
  "ID j \<noteq> nil_xid \<Longrightarrow> CreatedAt j \<noteq> 0 \<Longrightarrow> UpdatedAt j \<noteq> 0 \<Longrightarrow> DispatchReceivedAt j \<noteq> 0 \<Longrightarrow>
   StatusChangedAt j \<noteq> 0 \<Longrightarrow> EarliestNextAttemptAt j \<noteq> 0 \<Longrightarrow>
   dj_Status j \<in> {JobQueued, JobInflight, JobDelivered, JobDead, JobParked} \<Longrightarrow>
   job_QuickFix newid now j = (False, j)"
  by (simp add: job_QuickFix_def fix_when_skip base_QuickFix_fixed Let_def)

lemma job_QuickFix_idempotent:
  assumes "newid \<noteq> nil_xid" "now \<noteq> 0"
  shows "job_QuickFix newid' now' (snd (job_QuickFix newid now job)) =
         (False, snd (job_QuickFix newid now job))"
  by (rule job_QuickFix_fixed)
    (use assms in \<open>simp_all add: job_QuickFix_def base_QuickFix_def snd_fix_when Let_def\<close>)

lemma NewDeliveryJob_eq:
  assumes "now \<noteq> 0"
  shows "fst (NewDeliveryJob newid now (Some m) (Some c)) =
     \<lparr>ID = newid, CreatedAt = now, UpdatedAt = now, dj_Message = Some m, Listener = Some c,
      dj_Status = JobQueued, StatusChangedAt = now, DispatchReceivedAt = now,
      EarliestNextAttemptAt = now, RetryAttemptCount = 0, dj_Priority = msg_Priority m,
      IncrementalTimeout = 0\<rparr>"
  using assms
  by (simp add: NewDeliveryJob_def job_QuickFix_def base_QuickFix_def fix_when_pair Let_def)

lemma NewDeliveryJob_valid:
  "now \<noteq> 0 \<Longrightarrow> message_IsInValidState m \<Longrightarrow> consumer_IsInValidState c \<Longrightarrow>
   job_IsInValidState (fst (NewDeliveryJob newid now (Some m) (Some c)))"
  by (simp add: NewDeliveryJob_eq job_IsInValidState_def)

lemma NewDeliveryJob_err:
  "now \<noteq> 0 \<Longrightarrow> message_IsInValidState m \<Longrightarrow> consumer_IsInValidState c \<Longrightarrow>
   snd (NewDeliveryJob newid now (Some m) (Some c)) = None"
  using NewDeliveryJob_valid [of now m c newid] by (simp add: NewDeliveryJob_def Let_def)

lemma lock_ids_disjoint:
  "job_GetLockID j \<noteq> message_GetLockID m"
  "job_GetLockID j \<noteq> scheduled_GetLockID s"
  "job_GetLockID j \<noteq> DrainLock_GetLockID"
  "job_GetLockID j \<noteq> DLQSummaryLock_GetLockID"
  "message_GetLockID m \<noteq> scheduled_GetLockID s"
  "message_GetLockID m \<noteq> DrainLock_GetLockID"
  "message_GetLockID m \<noteq> DLQSummaryLock_GetLockID"
  "scheduled_GetLockID s \<noteq> DrainLock_GetLockID"
  "scheduled_GetLockID s \<noteq> DLQSummaryLock_GetLockID"
  "DrainLock_GetLockID \<noteq> DLQSummaryLock_GetLockID"
  by (simp_all add: job_GetLockID_def message_GetLockID_def scheduled_GetLockID_def
      DrainLock_GetLockID_def DLQSummaryLock_GetLockID_def jobParkingDrainerLockID_def)

lemma pause_QuickFix_parts:
  "Scope (snd (pause_QuickFix now p)) = Scope p"
  "pause_ConsumerID (snd (pause_QuickFix now p)) = pause_ConsumerID p"
  "PausedAt (snd (pause_QuickFix now p)) = (if PausedAt p = 0 then now else PausedAt p)"
  "Reason (snd (pause_QuickFix now p)) = take MaxDispatchPauseReasonLength (Reason p)"
  by (simp_all add: pause_QuickFix_def snd_fix_when Let_def)

lemma NewGlobalDispatchPause_valid:
  "now \<noteq> 0 \<Longrightarrow> pause_IsInValidState (NewGlobalDispatchPause now reason)"
  by (simp add: NewGlobalDispatchPause_def pause_IsInValidState_def pause_QuickFix_parts
      IsGlobal_def GlobalDispatchPauseScope_def)

lemma NewConsumerDispatchPause_valid:
  "now \<noteq> 0 \<Longrightarrow> NewConsumerDispatchPause now (Some c) reason = Inr p \<Longrightarrow>
   ID c \<noteq> '''' \<Longrightarrow> ID c \<noteq> GlobalDispatchPauseScope \<Longrightarrow> pause_IsInValidState p"
  by (auto simp: NewConsumerDispatchPause_def pause_IsInValidState_def pause_QuickFix_parts
      IsGlobal_def split: if_splits)

end
