(* ===== verification/Job_Queue.thy ===== *)
theory Job_Queue
  imports Go_Heap Data_Model
begin

section \<open>The priority queue of dispatcher/queue.go\<close>

text \<open>
  A \<^verbatim>\<open>*Job\<close> is an address of the store (\<open>job_store\<close>), because the lane scheduler changes the
  fields of a job that a queue and the table of held jobs share.  \<^verbatim>\<open>PriorityQueue\<close> is the slice
  of addresses, its gauge is threaded through the two operations that change it.  The lemmas are
  the interpretation of the priority queue contract on \<^verbatim>\<open>jobs.Less\<close>: the next job is the one
  of highest priority and, among equals, of smallest sequence number.
\<close>

record Job =
  Data :: DeliveryJob
  Priority :: nat
  seq :: nat

type_synonym job_ref = nat
type_synonym job_store = "job_ref \<Rightarrow> Job"

definition NewJob :: "DeliveryJob \<Rightarrow> Job" where
  "NewJob job = \<lparr>Data = job, Priority = dj_Priority job, seq = 0\<rparr>"

definition Less :: "Job \<Rightarrow> Job \<Rightarrow> bool" where
  "Less a b = (if Priority a \<noteq> Priority b then Priority a > Priority b else seq a < seq b)"

definition jobs_Less :: "job_store \<Rightarrow> job_ref \<Rightarrow> job_ref \<Rightarrow> bool" where
  "jobs_Less st i j = Less (st i) (st j)"

definition Enqueue :: "job_store \<Rightarrow> job_ref \<Rightarrow> job_ref list \<Rightarrow> int \<Rightarrow> job_ref list \<times> int" where
  "Enqueue st job jobs queuedCounter = (heap_push (jobs_Less st) job jobs, queuedCounter + 1)"

definition Peek :: "job_ref list \<Rightarrow> job_ref option" where
  "Peek jobs = (if length jobs = 0 then None else Some (jobs ! 0))"

text \<open>
  On an empty queue \<^verbatim>\<open>heap.Pop\<close> indexes the slice at \<^verbatim>\<open>-1\<close> and panics; that is \<open>None\<close>.
\<close>

definition Dequeue ::
  "job_store \<Rightarrow> job_ref list \<Rightarrow> int \<Rightarrow> (job_ref \<times> job_ref list \<times> int) option" where
  "Dequeue st jobs queuedCounter =
     (if jobs = [] then None
      else (case heap_pop (jobs_Less st) jobs of (j, js) \<Rightarrow> Some (j, js, queuedCounter - 1)))"

subsection \<open>The order is a strict weak order, so the queue keeps its contract\<close>

lemma Less_asym: "Less a b \<Longrightarrow> \<not> Less b a"
  by (auto simp: Less_def split: if_splits)

lemma not_Less_trans: "\<not> Less b a \<Longrightarrow> \<not> Less c b \<Longrightarrow> \<not> Less c a"
  by (auto simp: Less_def split: if_splits)

interpretation jq: heap_order "jobs_Less st" for st :: job_store
  by unfold_locales (auto simp: jobs_Less_def dest: Less_asym not_Less_trans)

abbreviation queue_ok :: "job_store \<Rightarrow> job_ref list \<Rightarrow> bool" where
  "queue_ok st q \<equiv> heap_ordered (jobs_Less st) q (length q)"

text \<open>
  A queue depends on the priorities and sequence numbers of its own jobs only, so replacing the
  data of a waiting job in place keeps its place.
\<close>

lemma heap_ordered_cong:
  assumes "\<And>x. x \<in> set q \<Longrightarrow> Priority (st' x) = Priority (st x) \<and> seq (st' x) = seq (st x)"
  shows "queue_ok st' q = queue_ok st q"
proof -
  have "jobs_Less st' (q ! k) (q ! parent k) = jobs_Less st (q ! k) (q ! parent k)"
    if "k \<in> {1..<length q}" for k
  proof -
    from that have "k < length q" "parent k < length q" by auto
    then show ?thesis using assms nth_mem by (simp add: jobs_Less_def Less_def)
  qed
  then show ?thesis by (simp add: heap_ordered_def)
qed

lemma Enqueue_spec:
  assumes "queue_ok st q" "Enqueue st r q g = (q', g')"
  shows "mset q' = add_mset r (mset q)" and "queue_ok st q'" and "g' = g + 1"
    and "length q' = Suc (length q)" and "set q' = insert r (set q)"
    and "r \<notin> set q \<Longrightarrow> distinct q \<Longrightarrow> distinct q'"
proof -
  show m: "mset q' = add_mset r (mset q)" and "queue_ok st q'" and "g' = g + 1"
    using assms jq.heap.enq_bag jq.heap.enq_invar by (auto simp: Enqueue_def)
  show "length q' = Suc (length q)" using m by (metis size_add_mset size_mset)
  show "set q' = insert r (set q)" using m by (metis set_mset_add_mset_insert set_mset_mset)
  show "r \<notin> set q \<Longrightarrow> distinct q \<Longrightarrow> distinct q'"
    using m by (metis distinct.simps(2) mset.simps(2) mset_eq_imp_distinct_iff)
qed

lemma Dequeue_spec:
  assumes "queue_ok st q" "Dequeue st q g = Some (r, q', g')"
  shows "mset q = add_mset r (mset q')" and "queue_ok st q'" and "g' = g - 1" and "Peek q = Some r"
    and "length q = Suc (length q')" and "set q = insert r (set q')"
    and "distinct q \<Longrightarrow> distinct q' \<and> r \<notin> set q'"
    and "x \<in> set q \<Longrightarrow> \<not> jobs_Less st x r"
proof -
  from assms have ne: "mset q \<noteq> {#}" and p: "heap_pop (jobs_Less st) q = (r, q')" and g: "g' = g - 1"
    by (auto simp: Dequeue_def split: if_splits prod.splits)
  show m: "mset q = add_mset r (mset q')" using jq.heap.deq_bag [OF assms(1) ne p] .
  show "queue_ok st q'" using jq.heap.deq_invar [OF assms(1) ne p] .
  show "g' = g - 1" by (rule g)
  have r: "r = q ! 0" using jq.heap.deq_peek [OF assms(1) ne p] .
  then show "Peek q = Some r" using ne by (simp add: Peek_def)
  show "length q = Suc (length q')" using m by (metis size_add_mset size_mset)
  show "set q = insert r (set q')" using m by (metis set_mset_add_mset_insert set_mset_mset)
  show "distinct q \<Longrightarrow> distinct q' \<and> r \<notin> set q'"
    using m by (metis distinct.simps(2) mset.simps(2) mset_eq_imp_distinct_iff)
  show "x \<in> set q \<Longrightarrow> \<not> jobs_Less st x r"
    using jq.heap.peek_least [OF assms(1), of x] r by simp
qed

lemma Dequeue_total: "q \<noteq> [] \<Longrightarrow> \<exists>r q'. Dequeue st q g = Some (r, q', g - 1)"
  by (auto simp: Dequeue_def split: prod.splits)

subsection \<open>A whole run of the queue\<close>

text \<open>
  Enqueueing a list of jobs into an empty queue and dequeueing all of them: the jobs come back in
  the order of a stable sort by descending priority.
\<close>

definition enqueue_all :: "job_store \<Rightarrow> job_ref list \<Rightarrow> job_ref list" where
  "enqueue_all st rs = fold (\<lambda>r q. fst (Enqueue st r q 0)) rs []"

fun dequeue_n :: "job_store \<Rightarrow> nat \<Rightarrow> job_ref list \<Rightarrow> job_ref list" where
  "dequeue_n st 0 q = []"
| "dequeue_n st (Suc n) q =
     (case Dequeue st q 0 of None \<Rightarrow> [] | Some (r, q', g) \<Rightarrow> r # dequeue_n st n q')"

lemma dequeue_n_drain: "queue_ok st q \<Longrightarrow> n \<le> length q \<Longrightarrow> dequeue_n st n q = jq.heap.drain st n q"
proof (induction n arbitrary: q)
  case (Suc n)
  obtain r q' where p: "heap_pop (jobs_Less st) q = (r, q')" by (cases "heap_pop (jobs_Less st) q")
  from Suc.prems have "q \<noteq> []" by auto
  with p have d: "Dequeue st q 0 = Some (r, q', - 1)" by (simp add: Dequeue_def)
  have "queue_ok st q'" "n \<le> length q'"
    using Dequeue_spec(2,5) [OF Suc.prems(1) d] Suc.prems(2) by simp_all
  then have "dequeue_n st n q' = jq.heap.drain st n q'" by (rule Suc.IH)
  with d p show ?case by simp
qed simp

lemma enqueue_all_spec: "queue_ok st (enqueue_all st rs) \<and> mset (enqueue_all st rs) = mset rs"
proof -
  have "queue_ok st (fold (\<lambda>r q. fst (Enqueue st r q 0)) rs q) \<and>
        mset (fold (\<lambda>r q. fst (Enqueue st r q 0)) rs q) = mset rs + mset q" if "queue_ok st q" for q
    using that
  proof (induction rs arbitrary: q)
    case (Cons r rs)
    obtain q' g' where e: "Enqueue st r q 0 = (q', g')" by fastforce
    with Cons Enqueue_spec [OF Cons.prems e] show ?case by simp
  qed simp
  from this [of "[]"] show ?thesis by (simp add: enqueue_all_def heap_ordered_def)
qed

definition order_key :: "job_store \<Rightarrow> job_ref \<Rightarrow> int \<times> nat" where
  "order_key st r = (- int (Priority (st r)), seq (st r))"

lemma jobs_Less_key: "jobs_Less st a b \<longleftrightarrow> order_key st a < order_key st b"
  by (auto simp: jobs_Less_def Less_def order_key_def less_prod_def)

lemma insort_order_key:
  assumes "sorted (map (order_key st) xs)" "\<forall>y\<in>set xs. seq (st x) < seq (st y)"
  shows "sorted (map (order_key st) (insort_key (\<lambda>r. - int (Priority (st r))) x xs))"
  using assms
proof (induction xs)
  case (Cons y ys)
  have "order_key st x \<le> order_key st z" if "- int (Priority (st x)) \<le> - int (Priority (st y))" "z \<in> set (y # ys)" for z
  proof -
    have "order_key st y \<le> order_key st z" using Cons.prems that by auto
    then have "- int (Priority (st x)) \<le> - int (Priority (st z))"
      using that(1) by (auto simp: order_key_def less_eq_prod_def)
    then show ?thesis using Cons.prems(2) that(2) by (force simp: order_key_def less_eq_prod_def)
  qed
  moreover have "order_key st y \<le> order_key st x" if "\<not> - int (Priority (st x)) \<le> - int (Priority (st y))"
    using that by (auto simp: order_key_def less_eq_prod_def)
  ultimately show ?case using Cons by (auto simp: set_insort_key)
qed simp

lemma sort_key_order_key:
  "sorted_wrt (\<lambda>a b. seq (st a) < seq (st b)) rs \<Longrightarrow>
   sorted (map (order_key st) (sort_key (\<lambda>r. - int (Priority (st r))) rs))"
  by (induction rs) (auto intro: insort_order_key)

lemma order_key_inj:
  "sorted_wrt (\<lambda>a b. seq (st a) < seq (st b)) rs \<Longrightarrow> inj_on (order_key st) (set rs)"
  by (induction rs) (force simp: order_key_def)+

lemma sorted_order_unique:
  assumes "sorted (map (order_key st) xs)" "sorted (map (order_key st) ys)" "mset xs = mset ys"
    "inj_on (order_key st) (set xs)"
  shows "xs = ys"
proof -
  have "map (order_key st) xs = map (order_key st) ys"
    using assms(1-3) by (metis mset_map properties_for_sort)
  then show ?thesis using assms(3,4) map_inj_on [of "order_key st" xs ys]
    by (metis Un_absorb set_mset_mset)
qed

text \<open>
  C1: A job priority queue is a stable priority sort.  When jobs carry increasing sequence numbers,
  as the scheduler assigns them, enqueueing them all and dequeueing them all returns exactly the
  jobs enqueued, highest priority first and, among jobs of equal priority, first in first out.
\<close>

theorem queue_is_stable_priority_sort:
  assumes "sorted_wrt (\<lambda>a b. seq (st a) < seq (st b)) rs"
  shows "dequeue_n st (length rs) (enqueue_all st rs) = sort_key (\<lambda>r. - int (Priority (st r))) rs"
proof -
  let ?q = "enqueue_all st rs"
  have q: "queue_ok st ?q" "mset ?q = mset rs" using enqueue_all_spec by auto
  then have len: "length rs = length ?q" by (metis size_mset)
  then have d: "dequeue_n st (length rs) ?q = jq.heap.drain st (size (mset ?q)) ?q"
    using q dequeue_n_drain by simp
  have "sorted_wrt (\<lambda>a b. \<not> jobs_Less st b a) (jq.heap.drain st (size (mset ?q)) ?q)"
    using q(1) by (rule jq.heap.drain_sorted) simp
  then have "sorted (map (order_key st) (dequeue_n st (length rs) ?q))"
    by (simp add: d sorted_wrt_map jobs_Less_key not_less)
  moreover have "mset (dequeue_n st (length rs) ?q) = mset rs"
    using jq.heap.drain_bag [OF q(1) refl] q(2) by (simp add: d)
  ultimately show ?thesis
    using sort_key_order_key [OF assms] order_key_inj [OF assms]
    by (intro sorted_order_unique) (auto dest: mset_eq_setD)
qed

definition sample_job :: "nat \<Rightarrow> nat \<Rightarrow> Job" where
  "sample_job p n =
     \<lparr>Data = \<lparr>ID = ''j'', CreatedAt = 1, UpdatedAt = 1, dj_Message = None, Listener = None,
              dj_Status = JobQueued, StatusChangedAt = 1, DispatchReceivedAt = 1,
              EarliestNextAttemptAt = 1, RetryAttemptCount = 0, dj_Priority = p,
              IncrementalTimeout = 0\<rparr>,
      Priority = p, seq = n\<rparr>"

theorem queue_is_stable_priority_sort_witness:
  "dequeue_n (\<lambda>r. sample_job (r mod 3) r) (length [1, 2, 3, 4, 5])
     (enqueue_all (\<lambda>r. sample_job (r mod 3) r) [1, 2, 3, 4, 5]) = [2, 5, 1, 4, 3]"
proof -
  have "sorted_wrt (\<lambda>a b. seq (sample_job (a mod 3) a) < seq (sample_job (b mod 3) b)) [1, 2, 3, 4, 5 :: nat]"
    by (simp add: sample_job_def)
  from queue_is_stable_priority_sort [OF this] show ?thesis by (simp add: sample_job_def)
qed

end
