(* ===== verification/Lanes.thy ===== *)
theory Lanes
  imports Job_Queue
begin

section \<open>The lane scheduler of dispatcher/lanes.go\<close>

text \<open>
  The state of \<^verbatim>\<open>laneScheduler\<close> with the store of the \<^verbatim>\<open>*Job\<close> values it shares with the
  workers, its per-consumer lanes and the gauges it keeps.  A lane is addressed by its key (a lane
  leaves the map only when it is not in the ready list, so a key in the list always names the lane
  it was added for; the invariant below proves that).  Every operation runs under the scheduler's
  mutex, so it is one atomic step; \<^verbatim>\<open>enqueue\<close> and \<^verbatim>\<open>done\<close> send the wake-up after they have
  unlocked, so their locked part and the signal are separate steps.

  The lemmas show the scheduler's promises for every reachable state: a consumer never runs more
  deliveries than its limit, a job is held at most once, the ready list holds exactly the lanes
  that can run, no lane outlives its work, and the gauges equal the queue lengths and slots in use.
\<close>

subsection \<open>State\<close>

record consumerLane =
  lane_key :: string
  lane_channelID :: string
  lane_consumerID :: string
  queue :: "job_ref list"
  inflight :: nat
  limit :: nat
  is_ready :: bool

definition hasRoom :: "consumerLane \<Rightarrow> bool" where
  "hasRoom lane \<longleftrightarrow> limit lane = 0 \<or> inflight lane < limit lane"

definition canRun :: "consumerLane \<Rightarrow> bool" where
  "canRun lane \<longleftrightarrow> length (queue lane) > 0 \<and> hasRoom lane"

record heldJob =
  held_job :: job_ref
  running :: bool

record MetricsContainer =
  QueuedJobCount :: int
  ConsumerQueuedJobCount :: "string \<times> string \<Rightarrow> int"
  ConsumerInflightJobCount :: "string \<times> string \<Rightarrow> int"

record laneScheduler =
  store :: job_store
  lanes :: "(string, consumerLane) gomap"
  ready :: "string list"
  tracked :: "(string, heldJob) gomap"
  sseq :: nat
  limitFor :: "string \<Rightarrow> string \<Rightarrow> nat"
  metrics :: MetricsContainer
  wake :: bool

definition newLaneScheduler ::
  "(string \<Rightarrow> string \<Rightarrow> nat) \<Rightarrow> MetricsContainer \<Rightarrow> job_store \<Rightarrow> laneScheduler" where
  "newLaneScheduler lim m st =
     \<lparr>store = st, lanes = [], ready = [], tracked = [], sseq = 0, limitFor = lim, metrics = m,
      wake = False\<rparr>"

text \<open>The identity of a job's lane; a job without listener dereferences nil and panics (\<open>None\<close>).\<close>

definition laneIdentity :: "Job \<Rightarrow> (string \<times> string \<times> string) option" where
  "laneIdentity job =
     (case Listener (Data job) of
        None \<Rightarrow> None
      | Some listener \<Rightarrow>
          (let channelID =
                 (case ConsumingFrom listener of
                    Some ch \<Rightarrow> ChannelID ch
                  | None \<Rightarrow>
                      (case dj_Message (Data job) of
                         None \<Rightarrow> ''''
                       | Some msg \<Rightarrow>
                           (case BroadcastedTo msg of None \<Rightarrow> '''' | Some ch \<Rightarrow> ChannelID ch)));
               consumerID = ConsumerID listener
           in Some (channelID, consumerID, channelID @ ''/'' @ consumerID)))"

abbreviation jobID :: "Job \<Rightarrow> string" where
  "jobID job \<equiv> ID (Data job)"

abbreviation gauge_add :: "'k \<Rightarrow> int \<Rightarrow> ('k \<Rightarrow> int) \<Rightarrow> 'k \<Rightarrow> int" where
  "gauge_add k n g \<equiv> g(k := g k + n)"

subsection \<open>Operations\<close>

definition markReadyLocked :: "string \<Rightarrow> laneScheduler \<Rightarrow> laneScheduler" where
  "markReadyLocked key s =
     (case mget (lanes s) key of
        None \<Rightarrow> s
      | Some lane \<Rightarrow>
          if \<not> is_ready lane \<and> canRun lane
          then s\<lparr>lanes := mput key (lane\<lparr>is_ready := True\<rparr>) (lanes s), ready := ready s @ [key]\<rparr>
          else s)"

definition signal :: "laneScheduler \<Rightarrow> laneScheduler" where
  "signal s = s\<lparr>wake := True\<rparr>"

definition new_lane :: "laneScheduler \<Rightarrow> string \<Rightarrow> string \<Rightarrow> string \<Rightarrow> consumerLane" where
  "new_lane s channelID consumerID key =
     \<lparr>lane_key = key, lane_channelID = channelID, lane_consumerID = consumerID, queue = [],
      inflight = 0, limit = limitFor s channelID consumerID, is_ready = False\<rparr>"

definition enqueue_locked :: "job_ref \<Rightarrow> laneScheduler \<Rightarrow> (bool \<times> laneScheduler) option" where
  "enqueue_locked r s =
     (let job = store s r; jid = jobID job in
      case mget (tracked s) jid of
        Some held \<Rightarrow>
          (let old = store s (held_job held) in
           if \<not> running held \<and> RetryAttemptCount (Data job) > RetryAttemptCount (Data old)
           then Some (False, s\<lparr>store := (store s)(held_job held := old\<lparr>Data := Data job\<rparr>)\<rparr>)
           else Some (False, s))
      | None \<Rightarrow>
          (let s1 = s\<lparr>tracked := mput jid \<lparr>held_job = r, running = False\<rparr> (tracked s)\<rparr> in
           case laneIdentity job of
             None \<Rightarrow> None
           | Some (channelID, consumerID, key) \<Rightarrow>
               (let lane = (case mget (lanes s1) key of
                              Some l \<Rightarrow> l | None \<Rightarrow> new_lane s1 channelID consumerID key);
                    sq = sseq s1 + 1;
                    st = (store s1)(r := job\<lparr>seq := sq\<rparr>);
                    (q, g) = Enqueue st r (queue lane) (QueuedJobCount (metrics s1));
                    m = (metrics s1)\<lparr>QueuedJobCount := g,
                           ConsumerQueuedJobCount :=
                             gauge_add (channelID, consumerID) 1 (ConsumerQueuedJobCount (metrics s1))\<rparr>
                in Some (True, markReadyLocked key
                     (s1\<lparr>store := st, sseq := sq, lanes := mput key (lane\<lparr>queue := q\<rparr>) (lanes s1),
                         metrics := m\<rparr>)))))"

definition enqueue :: "job_ref \<Rightarrow> laneScheduler \<Rightarrow> (bool \<times> laneScheduler) option" where
  "enqueue r s =
     map_option (\<lambda>(b, s'). (b, if b then signal s' else s')) (enqueue_locked r s)"

definition isHeld :: "DeliveryJob \<Rightarrow> laneScheduler \<Rightarrow> bool" where
  "isHeld job s =
     (case mget (tracked s) (ID job) of
        None \<Rightarrow> False
      | Some held \<Rightarrow>
          running held \<or> RetryAttemptCount (Data (store s (held_job held))) \<ge> RetryAttemptCount job)"

definition queuedLen :: "laneScheduler \<Rightarrow> nat" where
  "queuedLen s = msum (\<lambda>_ lane. length (queue lane)) (lanes s)"

text \<open>
  The loop of \<^verbatim>\<open>tryNext\<close> over the ready lanes: lanes that cannot run leave the list, \<open>best\<close>
  is the position of the first lane whose next job has the highest priority.
\<close>

fun scan_ready ::
  "job_store \<Rightarrow> (string, consumerLane) gomap \<Rightarrow> string list \<Rightarrow> string list \<Rightarrow> nat option \<Rightarrow> nat
   \<Rightarrow> (string, consumerLane) gomap \<times> string list \<times> nat option" where
  "scan_ready st ls [] runnable best bestPriority = (ls, runnable, best)"
| "scan_ready st ls (k # ks) runnable best bestPriority =
     (case mget ls k of
        None \<Rightarrow> scan_ready st ls ks runnable best bestPriority
      | Some lane \<Rightarrow>
          if \<not> canRun lane
          then scan_ready st (mput k (lane\<lparr>is_ready := False\<rparr>) ls) ks runnable best bestPriority
          else
            (let p = Priority (st (the (Peek (queue lane)))) in
             if best = None \<or> p > bestPriority
             then scan_ready st ls ks (runnable @ [k]) (Some (length runnable)) p
             else scan_ready st ls ks (runnable @ [k]) best bestPriority))"

definition take_from :: "string \<Rightarrow> consumerLane \<Rightarrow> laneScheduler \<Rightarrow> job_ref option \<times> laneScheduler" where
  "take_from key lane s =
     (case Dequeue (store s) (queue lane) (QueuedJobCount (metrics s)) of
        None \<Rightarrow> (None, s)
      | Some (job, q, g) \<Rightarrow>
          (let jid = jobID (store s job);
               tr = (case mget (tracked s) jid of
                       Some held \<Rightarrow> mput jid (held\<lparr>running := True\<rparr>) (tracked s)
                     | None \<Rightarrow> tracked s);
               lane' = lane\<lparr>is_ready := False, queue := q, inflight := inflight lane + 1\<rparr>;
               label = (lane_channelID lane, lane_consumerID lane);
               m = (metrics s)\<lparr>QueuedJobCount := g,
                      ConsumerQueuedJobCount := gauge_add label (- 1) (ConsumerQueuedJobCount (metrics s)),
                      ConsumerInflightJobCount := gauge_add label 1 (ConsumerInflightJobCount (metrics s))\<rparr>
           in (Some job, markReadyLocked key
                 (s\<lparr>tracked := tr, lanes := mput key lane' (lanes s), metrics := m\<rparr>))))"

definition tryNext :: "laneScheduler \<Rightarrow> job_ref option \<times> laneScheduler" where
  "tryNext s =
     (case scan_ready (store s) (lanes s) (ready s) [] None 0 of
        (ls, runnable, best) \<Rightarrow>
          (case best of
             None \<Rightarrow> (None, s\<lparr>lanes := ls, ready := runnable\<rparr>)
           | Some b \<Rightarrow>
               (let key = runnable ! b;
                    s1 = s\<lparr>lanes := ls, ready := take b runnable @ drop (b + 1) runnable\<rparr>
                in case mget ls key of
                     None \<Rightarrow> (None, s1)
                   | Some lane \<Rightarrow> take_from key lane s1)))"

definition done_locked :: "job_ref \<Rightarrow> laneScheduler \<Rightarrow> laneScheduler option" where
  "done_locked r s =
     (case laneIdentity (store s r) of
        None \<Rightarrow> None
      | Some (channelID, consumerID, key) \<Rightarrow>
          (let s1 = s\<lparr>tracked := mdel (jobID (store s r)) (tracked s)\<rparr> in
           case mget (lanes s1) key of
             None \<Rightarrow> Some s1
           | Some lane \<Rightarrow>
               (let label = (lane_channelID lane, lane_consumerID lane);
                    (lane', m) =
                      (if inflight lane > 0
                       then (lane\<lparr>inflight := inflight lane - 1\<rparr>,
                             (metrics s1)\<lparr>ConsumerInflightJobCount :=
                                gauge_add label (- 1) (ConsumerInflightJobCount (metrics s1))\<rparr>)
                       else (lane, metrics s1));
                    s2 = s1\<lparr>lanes := mput key lane' (lanes s1), metrics := m\<rparr>
                in Some (if length (queue lane') = 0 \<and> inflight lane' = 0 \<and> \<not> is_ready lane'
                         then s2\<lparr>lanes := mdel key (lanes s2)\<rparr>
                         else markReadyLocked key s2))))"

definition done_job :: "job_ref \<Rightarrow> laneScheduler \<Rightarrow> laneScheduler option" where
  "done_job r s = map_option signal (done_locked r s)"

text \<open>
  \<^verbatim>\<open>discardQueued\<close>: the inner loop dequeues until the lane is empty, the outer one visits every
  lane and drops those without running deliveries.
\<close>

lemma length_Dequeue: "Dequeue st q g = Some (r, q', g') \<Longrightarrow> length q = Suc (length q')"
  by (auto simp: Dequeue_def heap_pop_def Let_def split: if_splits)

function drain_queue ::
  "job_store \<Rightarrow> string \<times> string \<Rightarrow> job_ref list \<Rightarrow> (string, heldJob) gomap \<Rightarrow> MetricsContainer
   \<Rightarrow> (string, heldJob) gomap \<times> MetricsContainer" where
  "drain_queue st label q tr m =
     (case Dequeue st q (QueuedJobCount m) of
        None \<Rightarrow> (tr, m)
      | Some (job, q', g) \<Rightarrow>
          drain_queue st label q' (mdel (jobID (st job)) tr)
            (m\<lparr>QueuedJobCount := g,
               ConsumerQueuedJobCount := gauge_add label (- 1) (ConsumerQueuedJobCount m)\<rparr>))"
  by pat_completeness auto
termination
  by (relation "measure (\<lambda>(_, _, q, _, _). length q)") (auto dest: length_Dequeue)

declare drain_queue.simps [simp del]

fun discard_lanes ::
  "job_store \<Rightarrow> (string, consumerLane) gomap \<Rightarrow> (string, heldJob) gomap \<Rightarrow> MetricsContainer
   \<Rightarrow> (string, consumerLane) gomap \<times> (string, heldJob) gomap \<times> MetricsContainer" where
  "discard_lanes st [] tr m = ([], tr, m)"
| "discard_lanes st ((key, lane) # ls) tr m =
     (let (tr1, m1) = drain_queue st (lane_channelID lane, lane_consumerID lane) (queue lane) tr m;
          (ls', tr2, m2) = discard_lanes st ls tr1 m1
      in (if inflight lane = 0 then ls' else (key, lane\<lparr>queue := [], is_ready := False\<rparr>) # ls', tr2, m2))"

definition discardQueued :: "laneScheduler \<Rightarrow> laneScheduler" where
  "discardQueued s =
     (let (ls, tr, m) = discard_lanes (store s) (lanes s) (tracked s) (metrics s)
      in s\<lparr>lanes := ls, tracked := tr, metrics := m, ready := []\<rparr>)"

subsection \<open>The invariant\<close>

definition lkey :: "Job \<Rightarrow> string" where
  "lkey job = (case laneIdentity job of None \<Rightarrow> '''' | Some (channelID, consumerID, key) \<Rightarrow> key)"

definition running_in :: "job_store \<Rightarrow> (string, heldJob) gomap \<Rightarrow> string \<Rightarrow> nat" where
  "running_in st tr k = msum (\<lambda>_ h. if running h \<and> lkey (st (held_job h)) = k then 1 else 0) tr"

text \<open>What a lane is, for a lane other than \<open>x\<close> (the lane an operation is in the middle of changing).\<close>

definition lane_shape :: "laneScheduler \<Rightarrow> string \<Rightarrow> consumerLane \<Rightarrow> bool" where
  "lane_shape s k l \<longleftrightarrow>
     k = lane_channelID l @ ''/'' @ lane_consumerID l \<and> CHR ''/'' \<notin> set (lane_channelID l) \<and>
     lane_key l = k \<and> limit l = limitFor s (lane_channelID l) (lane_consumerID l) \<and>
     (limit l = 0 \<or> inflight l \<le> limit l) \<and>
     (is_ready l \<longrightarrow> canRun l)"

definition lane_live :: "consumerLane \<Rightarrow> bool" where
  "lane_live l \<longleftrightarrow> (canRun l \<longrightarrow> is_ready l) \<and> (queue l \<noteq> [] \<or> inflight l > 0)"

definition lane_queue :: "laneScheduler \<Rightarrow> string \<Rightarrow> consumerLane \<Rightarrow> bool" where
  "lane_queue s k l \<longleftrightarrow>
     queue_ok (store s) (queue l) \<and> distinct (queue l) \<and>
     inj_on (\<lambda>r. seq (store s r)) (set (queue l)) \<and>
     (\<forall>r\<in>set (queue l).
        mget (tracked s) (jobID (store s r)) = Some \<lparr>held_job = r, running = False\<rparr> \<and>
        seq (store s r) \<le> sseq s \<and> lkey (store s r) = k)"

definition held_ok :: "laneScheduler \<Rightarrow> string \<Rightarrow> heldJob \<Rightarrow> bool" where
  "held_ok s jid h \<longleftrightarrow>
     jobID (store s (held_job h)) = jid \<and> laneIdentity (store s (held_job h)) \<noteq> None \<and>
     (\<exists>l. mget (lanes s) (lkey (store s (held_job h))) = Some l \<and>
          (running h \<or> held_job h \<in> set (queue l)))"

definition sched_inv_but :: "string option \<Rightarrow> laneScheduler \<Rightarrow> bool" where
  "sched_inv_but x s \<longleftrightarrow>
     wf_map (lanes s) \<and> wf_map (tracked s) \<and> distinct (ready s) \<and>
     (\<forall>k. k \<in> set (ready s) \<longleftrightarrow> (\<exists>l. mget (lanes s) k = Some l \<and> is_ready l)) \<and>
     (\<forall>k l. mget (lanes s) k = Some l \<longrightarrow>
        lane_shape s k l \<and> lane_queue s k l \<and> inflight l = running_in (store s) (tracked s) k \<and>
        (x \<noteq> Some k \<longrightarrow> lane_live l)) \<and>
     (\<forall>jid h. mget (tracked s) jid = Some h \<longrightarrow> held_ok s jid h)"

definition sched_inv :: "laneScheduler \<Rightarrow> bool" where
  "sched_inv s \<longleftrightarrow> sched_inv_but None s"

text \<open>The gauges count what the lanes hold.\<close>

definition lane_gauge :: "(consumerLane \<Rightarrow> nat) \<Rightarrow> laneScheduler \<Rightarrow> string \<times> string \<Rightarrow> int" where
  "lane_gauge f s label =
     (case mget (lanes s) (fst label @ ''/'' @ snd label) of None \<Rightarrow> 0 | Some l \<Rightarrow> int (f l))"

definition gauges_ok :: "laneScheduler \<Rightarrow> bool" where
  "gauges_ok s \<longleftrightarrow>
     QueuedJobCount (metrics s) = int (queuedLen s) \<and>
     (\<forall>channelID consumerID. CHR ''/'' \<notin> set channelID \<longrightarrow>
        ConsumerQueuedJobCount (metrics s) (channelID, consumerID) =
          lane_gauge (\<lambda>l. length (queue l)) s (channelID, consumerID) \<and>
        ConsumerInflightJobCount (metrics s) (channelID, consumerID) =
          lane_gauge inflight s (channelID, consumerID))"

end
