(* ===== verification/Lane_Invariant.thy ===== *)
theory Lane_Invariant
  imports Lanes
begin

section \<open>Every operation of the lane scheduler keeps its invariant\<close>

text \<open>
  The preservation lemmas of the scheduler of theory \<open>Lanes\<close>, one group per operation, then the
  step relation of a scheduler shared by the dispatcher, its workers and the assigning loop, and
  the properties of every state it can reach.
\<close>

subsection \<open>Helpers\<close>

lemma slash_split:
  "a @ ''/'' @ b = c @ ''/'' @ d \<Longrightarrow> CHR ''/'' \<notin> set a \<Longrightarrow> CHR ''/'' \<notin> set c \<Longrightarrow> a = c \<and> b = d"
proof (induction a arbitrary: c)
  case Nil
  then show ?case by (cases c) auto
next
  case (Cons x a)
  then show ?case by (cases c) auto
qed

lemma laneIdentity_key: "laneIdentity job = Some (ch, co, k) \<Longrightarrow> k = ch @ ''/'' @ co \<and> lkey job = k"
  by (auto simp: lkey_def laneIdentity_def Let_def split: option.splits)

lemma laneIdentity_Data: "Data a = Data b \<Longrightarrow> laneIdentity a = laneIdentity b"
  unfolding laneIdentity_def by (rule arg_cong [where f = "\<lambda>d. case Listener d of None \<Rightarrow> None
      | Some listener \<Rightarrow>
          (let channelID = (case ConsumingFrom listener of Some ch \<Rightarrow> ChannelID ch
                  | None \<Rightarrow> (case dj_Message d of None \<Rightarrow> '''' | Some msg \<Rightarrow>
                           (case BroadcastedTo msg of None \<Rightarrow> '''' | Some ch \<Rightarrow> ChannelID ch)));
               consumerID = ConsumerID listener
           in Some (channelID, consumerID, channelID @ ''/'' @ consumerID))"])

lemma lkey_Data: "Data a = Data b \<Longrightarrow> lkey a = lkey b"
  using laneIdentity_Data [of a b] by (simp add: lkey_def)

lemma laneIdentity_upd [simp]:
  "laneIdentity (job\<lparr>seq := n\<rparr>) = laneIdentity job" "lkey (job\<lparr>seq := n\<rparr>) = lkey job"
  by (auto intro: laneIdentity_Data lkey_Data)

lemma lane_shape_upd [simp]:
  "lane_shape (s\<lparr>lanes := a\<rparr>) k l = lane_shape s k l" "lane_shape (s\<lparr>ready := b\<rparr>) k l = lane_shape s k l"
  "lane_shape (s\<lparr>metrics := m\<rparr>) k l = lane_shape s k l" "lane_shape (s\<lparr>tracked := t\<rparr>) k l = lane_shape s k l"
  "lane_shape (s\<lparr>store := st\<rparr>) k l = lane_shape s k l" "lane_shape (s\<lparr>sseq := n\<rparr>) k l = lane_shape s k l"
  "lane_shape (s\<lparr>wake := w\<rparr>) k l = lane_shape s k l"
  by (simp_all add: lane_shape_def)

lemma lane_queue_upd [simp]:
  "lane_queue (s\<lparr>lanes := a\<rparr>) k l = lane_queue s k l" "lane_queue (s\<lparr>ready := b\<rparr>) k l = lane_queue s k l"
  "lane_queue (s\<lparr>metrics := m\<rparr>) k l = lane_queue s k l" "lane_queue (s\<lparr>wake := w\<rparr>) k l = lane_queue s k l"
  by (simp_all add: lane_queue_def)

lemma inv_lane:
  assumes "sched_inv_but x s" "mget (lanes s) k = Some l"
  shows "lane_shape s k l" "lane_queue s k l" "inflight l = running_in (store s) (tracked s) k"
    "x \<noteq> Some k \<Longrightarrow> lane_live l"
  using assms by (auto simp: sched_inv_but_def)

lemma inv_held: "sched_inv_but x s \<Longrightarrow> mget (tracked s) jid = Some h \<Longrightarrow> held_ok s jid h"
  by (auto simp: sched_inv_but_def)

lemma inv_wf: "sched_inv_but x s \<Longrightarrow> wf_map (lanes s) \<and> wf_map (tracked s) \<and> distinct (ready s)"
  by (auto simp: sched_inv_but_def)

lemma inv_ready:
  "sched_inv_but x s \<Longrightarrow> k \<in> set (ready s) \<longleftrightarrow> (\<exists>l. mget (lanes s) k = Some l \<and> is_ready l)"
  by (auto simp: sched_inv_but_def)

definition lane_inv :: "string option \<Rightarrow> laneScheduler \<Rightarrow> string \<Rightarrow> consumerLane \<Rightarrow> bool" where
  "lane_inv x s k l \<longleftrightarrow>
     lane_shape s k l \<and> lane_queue s k l \<and> inflight l = running_in (store s) (tracked s) k \<and>
     (x \<noteq> Some k \<longrightarrow> lane_live l)"

lemma inv_lane_inv: "sched_inv_but x s \<Longrightarrow> mget (lanes s) k = Some l \<Longrightarrow> lane_inv x s k l"
  by (simp add: sched_inv_but_def lane_inv_def)

lemma sched_inv_butI:
  assumes "wf_map (lanes s)" "wf_map (tracked s)" "distinct (ready s)"
    "\<And>k. k \<in> set (ready s) \<longleftrightarrow> (\<exists>l. mget (lanes s) k = Some l \<and> is_ready l)"
    "\<And>k l. mget (lanes s) k = Some l \<Longrightarrow> lane_inv x s k l"
    "\<And>jid h. mget (tracked s) jid = Some h \<Longrightarrow> held_ok s jid h"
  shows "sched_inv_but x s"
  using assms by (simp add: sched_inv_but_def lane_inv_def)

subsection \<open>markReadyLocked\<close>

lemma markReadyLocked_inv:
  assumes inv: "sched_inv_but (Some k) s"
    and live: "\<And>l. mget (lanes s) k = Some l \<Longrightarrow> queue l \<noteq> [] \<or> inflight l > 0"
  shows "sched_inv (markReadyLocked k s)"
proof (cases "\<exists>l. mget (lanes s) k = Some l \<and> \<not> is_ready l \<and> canRun l")
  case False
  then have "markReadyLocked k s = s" by (auto simp: markReadyLocked_def split: option.splits)
  moreover have "lane_live l" if "mget (lanes s) k' = Some l" for k' l
    using that False live inv_lane(4) [OF inv that] by (cases "k' = k") (auto simp: lane_live_def)
  ultimately show ?thesis using inv by (auto simp: sched_inv_def sched_inv_but_def)
next
  case True
  then obtain l where l: "mget (lanes s) k = Some l" "\<not> is_ready l" "canRun l" by auto
  let ?l = "l\<lparr>is_ready := True\<rparr>"
  let ?s = "s\<lparr>lanes := mput k ?l (lanes s), ready := ready s @ [k]\<rparr>"
  have eq: "markReadyLocked k s = ?s" using l by (simp add: markReadyLocked_def)
  have "sched_inv_but None ?s"
  proof (rule sched_inv_butI)
    show "wf_map (lanes ?s)" "wf_map (tracked ?s)" using inv_wf [OF inv] by simp_all
    show "distinct (ready ?s)" using inv_wf [OF inv] inv_ready [OF inv, of k] l by simp
    show "k' \<in> set (ready ?s) \<longleftrightarrow> (\<exists>l. mget (lanes ?s) k' = Some l \<and> is_ready l)" for k'
      using inv_ready [OF inv, of k'] by simp
  next
    fix k' l' assume l': "mget (lanes ?s) k' = Some l'"
    show "lane_inv None ?s k' l'"
    proof (cases "k' = k")
      case True
      with l' have "l' = ?l" by simp
      with True inv_lane_inv [OF inv l(1)] l show ?thesis
        by (auto simp: lane_inv_def lane_shape_def lane_queue_def lane_live_def canRun_def hasRoom_def)
    next
      case False
      with l' have "mget (lanes s) k' = Some l'" by simp
      from inv_lane_inv [OF inv this] False show ?thesis
        by (simp add: lane_inv_def)
    qed
  next
    fix jid h assume "mget (tracked ?s) jid = Some h"
    then have "held_ok s jid h" using inv_held [OF inv, of jid h] by simp
    then show "held_ok ?s jid h" using l by (auto simp: held_ok_def)
  qed
  then show ?thesis by (simp add: eq sched_inv_def)
qed

subsection \<open>Frames\<close>

text \<open>A lane's queue depends on the store and the tracked jobs at its own jobs only.\<close>

lemma lane_queue_frame:
  assumes "lane_queue s k l" "sseq s \<le> sseq s'"
    and same: "\<And>r. r \<in> set (queue l) \<Longrightarrow>
      Priority (store s' r) = Priority (store s r) \<and> seq (store s' r) = seq (store s r) \<and>
      jobID (store s' r) = jobID (store s r) \<and> lkey (store s' r) = lkey (store s r) \<and>
      mget (tracked s') (jobID (store s r)) = mget (tracked s) (jobID (store s r))"
  shows "lane_queue s' k l"
proof -
  have "queue_ok (store s') (queue l)"
    using assms(1) heap_ordered_cong [of "queue l" "store s'" "store s"] same by (simp add: lane_queue_def)
  moreover have "inj_on (\<lambda>r. seq (store s' r)) (set (queue l)) = inj_on (\<lambda>r. seq (store s r)) (set (queue l))"
    using same by (intro inj_on_cong) simp
  ultimately show ?thesis using assms(1,2) same by (fastforce simp: lane_queue_def)
qed

lemma running_in_store:
  "wf_map tr \<Longrightarrow>
   (\<And>jid h. mget tr jid = Some h \<Longrightarrow> lkey (st' (held_job h)) = lkey (st (held_job h))) \<Longrightarrow>
   running_in st' tr k = running_in st tr k"
  unfolding running_in_def by (intro msum_cong) (simp add: mget_in_set)

lemma running_in_zero:
  "wf_map tr \<Longrightarrow> (\<And>jid h. mget tr jid = Some h \<Longrightarrow> running h \<Longrightarrow> lkey (st (held_job h)) \<noteq> k) \<Longrightarrow>
   running_in st tr k = 0"
proof -
  assume wf: "wf_map tr" and no: "\<And>jid h. mget tr jid = Some h \<Longrightarrow> running h \<Longrightarrow> lkey (st (held_job h)) \<noteq> k"
  have "running_in st tr k = msum (\<lambda>_ _. 0) tr"
    unfolding running_in_def using wf no by (intro msum_cong) (auto simp: mget_in_set)
  also have "\<dots> = 0" by (simp add: msum_def)
  finally show ?thesis .
qed

lemma running_in_pos:
  assumes "wf_map tr" "mget tr jid = Some h" "running h"
  shows "running_in st tr (lkey (st (held_job h))) > 0"
  using msum_mdel [OF assms(1,2), of "\<lambda>_ h'. if running h' \<and> lkey (st (held_job h')) = lkey (st (held_job h)) then 1 else 0"]
    assms(3) by (simp add: running_in_def)

lemma running_in_new:
  "mget tr jid = None \<Longrightarrow>
   running_in st (mput jid h tr) k =
   running_in st tr k + (if running h \<and> lkey (st (held_job h)) = k then 1 else 0)"
  by (simp add: running_in_def msum_mput_notin)

lemma running_in_start:
  assumes "wf_map tr" "mget tr jid = Some h" "\<not> running h"
  shows "running_in st (mput jid (h\<lparr>running := True\<rparr>) tr) k =
         running_in st tr k + (if lkey (st (held_job h)) = k then 1 else 0)"
  using msum_mput [OF assms(1,2), of "\<lambda>_ h. if running h \<and> lkey (st (held_job h)) = k then 1 else 0" "h\<lparr>running := True\<rparr>"]
    assms(3) by (simp add: running_in_def)

lemma running_in_del:
  assumes "wf_map tr" "mget tr jid = Some h"
  shows "running_in st (mdel jid tr) k =
         running_in st tr k - (if running h \<and> lkey (st (held_job h)) = k then 1 else 0)"
  using msum_mdel [OF assms, of "\<lambda>_ h. if running h \<and> lkey (st (held_job h)) = k then 1 else 0"]
  by (simp add: running_in_def)

subsection \<open>enqueue\<close>

lemma lane_for:
  assumes inv: "sched_inv s" and id: "laneIdentity job = Some (ch, co, key)" and ch: "CHR ''/'' \<notin> set ch"
    and lane: "lane = (case mget (lanes s) key of Some l \<Rightarrow> l | None \<Rightarrow> new_lane s ch co key)"
  shows "lane_shape s key lane \<and> lane_queue s key lane \<and>
    inflight lane = running_in (store s) (tracked s) key \<and>
    lane_channelID lane = ch \<and> lane_consumerID lane = co"
proof (cases "mget (lanes s) key")
  case None
  note inv' = inv [unfolded sched_inv_def]
  have key: "key = ch @ ''/'' @ co" using laneIdentity_key id by blast
  have "running_in (store s) (tracked s) key = 0"
    using inv_wf [OF inv'] inv_held [OF inv'] None
    by (intro running_in_zero) (fastforce simp: held_ok_def)+
  with None lane key ch show ?thesis
    by (auto simp: new_lane_def lane_shape_def lane_queue_def heap_ordered_def)
next
  case (Some l)
  note l = inv_lane_inv [OF inv [unfolded sched_inv_def] Some]
  have "key = ch @ ''/'' @ co" using laneIdentity_key id by blast
  with l have "lane_channelID l = ch" "lane_consumerID l = co"
    using slash_split [of "lane_channelID l" "lane_consumerID l" ch co] ch
    by (auto simp: lane_inv_def lane_shape_def)
  with l Some lane show ?thesis by (simp add: lane_inv_def)
qed

lemma enqueue_new_inv:
  assumes inv: "sched_inv s"
    and fresh: "\<And>jid h. mget (tracked s) jid = Some h \<Longrightarrow> held_job h \<noteq> r"
    and new: "mget (tracked s) (jobID (store s r)) = None"
    and id: "laneIdentity (store s r) = Some (ch, co, key)" and ch: "CHR ''/'' \<notin> set ch"
    and e: "enqueue_locked r s = Some (b, s')"
  shows "sched_inv s'"
proof -
  note inv' = inv [unfolded sched_inv_def]
  define job where "job = store s r"
  define lane where "lane = (case mget (lanes s) key of Some l \<Rightarrow> l | None \<Rightarrow> new_lane s ch co key)"
  define st where "st = (store s)(r := job\<lparr>seq := sseq s + 1\<rparr>)"
  obtain q g where qg: "Enqueue st r (queue lane) (QueuedJobCount (metrics s)) = (q, g)" by fastforce
  define tr where "tr = mput (jobID job) \<lparr>held_job = r, running = False\<rparr> (tracked s)"
  obtain m where s': "s' = markReadyLocked key (s\<lparr>tracked := tr, store := st, sseq := sseq s + 1,
      lanes := mput key (lane\<lparr>queue := q\<rparr>) (lanes s), metrics := m\<rparr>)" (is "_ = markReadyLocked key ?s")
    using e new id qg
    by (auto simp: enqueue_locked_def Let_def job_def lane_def st_def tr_def new_lane_def split: option.splits)
  have lane: "lane_shape s key lane" "lane_queue s key lane"
    "inflight lane = running_in (store s) (tracked s) key"
    using lane_for [OF inv id ch lane_def] by auto
  have key: "lkey job = key" using laneIdentity_key [OF id] by (simp add: job_def)
  have notin: "r \<notin> set (queue l)" if "lane_queue s k l" for k l
    using that fresh [of "jobID (store s r)" "\<lparr>held_job = r, running = False\<rparr>"]
    by (auto simp: lane_queue_def)
  have frame: "lane_queue ?s k l" if "lane_queue s k l" for k l
    using that notin [OF that] new
    by (intro lane_queue_frame [OF that]) (auto simp: st_def tr_def job_def lane_queue_def)
  have runs: "running_in st tr k = running_in (store s) (tracked s) k" for k
    unfolding tr_def using new running_in_store [of "tracked s" st "store s" k] inv_wf [OF inv'] fresh
    by (simp add: running_in_new job_def st_def)
  have q: "mset q = add_mset r (mset (queue lane))" "queue_ok st q" "length q = Suc (length (queue lane))"
    "set q = insert r (set (queue lane))" "distinct q"
    using Enqueue_spec [OF _ qg] frame [OF lane(2)] notin [OF lane(2)] by (auto simp: lane_queue_def)
  have old: "\<forall>x\<in>set (queue lane). seq (st x) \<noteq> Suc (sseq s)"
    using lane(2) notin [OF lane(2)] by (auto simp: lane_queue_def st_def)
  have st_r: "seq (st r) = Suc (sseq s)" by (simp add: st_def)
  have inj: "inj_on (\<lambda>r. seq (st r)) (set q)"
    using frame [OF lane(2)] old st_r by (auto simp: lane_queue_def inj_on_insert q(4))
  have mem: "mget tr (jobID (st x)) = Some \<lparr>held_job = x, running = False\<rparr> \<and>
      seq (st x) \<le> sseq s + 1 \<and> lkey (st x) = key" if "x \<in> set q" for x
  proof (cases "x = r")
    case True
    then show ?thesis using key by (simp add: tr_def st_def)
  next
    case False
    then show ?thesis using that frame [OF lane(2)] by (simp add: q(4) lane_queue_def)
  qed
  have "lane_queue ?s key (lane\<lparr>queue := q\<rparr>)"
    using q(2,5) inj mem by (simp add: lane_queue_def)
  moreover have "lane_shape ?s key (lane\<lparr>queue := q\<rparr>)"
    using lane(1) q(3) by (auto simp: lane_shape_def canRun_def hasRoom_def)
  ultimately have new_lane_inv: "lane_inv (Some key) ?s key (lane\<lparr>queue := q\<rparr>)"
    using lane(3) runs by (simp add: lane_inv_def)
  have "sched_inv_but (Some key) ?s"
  proof (rule sched_inv_butI)
    show "wf_map (lanes ?s)" "wf_map (tracked ?s)" "distinct (ready ?s)"
      using inv_wf [OF inv'] by (simp_all add: tr_def)
    show "k \<in> set (ready ?s) \<longleftrightarrow> (\<exists>l. mget (lanes ?s) k = Some l \<and> is_ready l)" for k
      using inv_ready [OF inv', of k] by (auto simp: lane_def new_lane_def split: option.splits)
    show "lane_inv (Some key) ?s k l" if "mget (lanes ?s) k = Some l" for k l
      using that new_lane_inv inv_lane_inv [OF inv', of k l] frame [of k l] runs
      by (auto simp: lane_inv_def split: if_splits)
    show "held_ok ?s jid h" if "mget (tracked ?s) jid = Some h" for jid h
    proof (cases "jid = jobID job")
      case True
      with that have "h = \<lparr>held_job = r, running = False\<rparr>" by (simp add: tr_def)
      with True id key q show ?thesis by (simp add: held_ok_def st_def job_def)
    next
      case False
      with that have h: "mget (tracked s) jid = Some h" by (simp add: tr_def)
      have "store ?s (held_job h) = store s (held_job h)" using fresh [OF h] by (simp add: st_def)
      with inv_held [OF inv' h] show ?thesis
        by (auto simp: held_ok_def lane_def q)
    qed
  qed
  then show ?thesis unfolding s' using q(3) by (intro markReadyLocked_inv) auto
qed

lemma enqueue_held_inv:
  assumes inv: "sched_inv s" and held: "mget (tracked s) (jobID (store s r)) = Some held"
    and id: "laneIdentity (store s r) \<noteq> None" "lkey (store s r) = lkey (store s (held_job held))"
    and e: "enqueue_locked r s = Some (b, s')"
  shows "sched_inv s'"
proof -
  note inv' = inv [unfolded sched_inv_def]
  define old where "old = store s (held_job held)"
  define st where "st = (store s)(held_job held := old\<lparr>Data := Data (store s r)\<rparr>)"
  have "s' = s \<or> s' = s\<lparr>store := st\<rparr>"
    using e held by (auto simp: enqueue_locked_def st_def old_def Let_def split: if_splits)
  moreover have "sched_inv (s\<lparr>store := st\<rparr>)" (is "sched_inv ?s")
  proof -
    have jid: "jobID old = jobID (store s r)" using inv_held [OF inv' held] by (simp add: held_ok_def old_def)
    have li: "laneIdentity (old\<lparr>Data := Data (store s r)\<rparr>) = laneIdentity (store s r)"
      "lkey (old\<lparr>Data := Data (store s r)\<rparr>) = lkey (store s r)"
      by (auto intro: laneIdentity_Data lkey_Data)
    have same: "Priority (st x) = Priority (store s x) \<and> seq (st x) = seq (store s x) \<and>
        jobID (st x) = jobID (store s x) \<and> lkey (st x) = lkey (store s x)" for x
      using jid id(2) li(2) by (simp add: st_def old_def)
    have ident: "laneIdentity (st x) = None \<Longrightarrow> laneIdentity (store s x) = None" for x
      using id(1) li(1) by (auto simp: st_def split: if_splits)
    have "sched_inv_but None ?s"
    proof (rule sched_inv_butI)
      show "wf_map (lanes ?s)" "wf_map (tracked ?s)" "distinct (ready ?s)"
        using inv_wf [OF inv'] by simp_all
      show "k \<in> set (ready ?s) \<longleftrightarrow> (\<exists>l. mget (lanes ?s) k = Some l \<and> is_ready l)" for k
        using inv_ready [OF inv', of k] by simp
      show "lane_inv None ?s k l" if "mget (lanes ?s) k = Some l" for k l
        using inv_lane_inv [OF inv', of k l] that same lane_queue_frame [of s k l ?s]
          running_in_store [of "tracked s" st "store s" k] inv_wf [OF inv']
        by (simp add: lane_inv_def)
      show "held_ok ?s jid h" if "mget (tracked ?s) jid = Some h" for jid h
        using inv_held [OF inv', of jid h] that same ident [of "held_job h"]
        by (auto simp: held_ok_def simp del: not_None_eq)
    qed
    then show ?thesis by (simp add: sched_inv_def)
  qed
  ultimately show ?thesis using inv by auto
qed

subsection \<open>tryNext\<close>

text \<open>\<open>next_priority\<close> is the priority of the job a lane would run next.\<close>

definition next_priority :: "job_store \<Rightarrow> (string, consumerLane) gomap \<Rightarrow> string \<Rightarrow> nat" where
  "next_priority st ls k =
     (case mget ls k of None \<Rightarrow> 0 | Some l \<Rightarrow> Priority (st (the (Peek (queue l)))))"

definition best_ok :: "(string \<Rightarrow> nat) \<Rightarrow> string list \<Rightarrow> nat option \<Rightarrow> nat \<Rightarrow> bool" where
  "best_ok hp ks best p =
     (case best of
        None \<Rightarrow> ks = []
      | Some b \<Rightarrow> b < length ks \<and> hp (ks ! b) = p \<and> (\<forall>k\<in>set ks. hp k \<le> p) \<and> (\<forall>i<b. hp (ks ! i) < p))"

lemma best_ok_snoc:
  assumes "best_ok hp ks best p"
  shows "if best = None \<or> hp k > p then best_ok hp (ks @ [k]) (Some (length ks)) (hp k)
    else best_ok hp (ks @ [k]) best p"
proof (cases best)
  case None
  with assms show ?thesis by (simp add: best_ok_def)
next
  case (Some b)
  with assms have b: "b < length ks" "hp (ks ! b) = p" "\<forall>k\<in>set ks. hp k \<le> p" "\<forall>i<b. hp (ks ! i) < p"
    by (simp_all add: best_ok_def)
  then have "\<forall>i<length ks. hp (ks ! i) \<le> p" by simp
  with b Some show ?thesis by (auto simp: best_ok_def nth_append dest: order.strict_trans1)
qed

lemma scan_ready_spec:
  assumes "\<And>k. k \<in> set ks \<Longrightarrow> \<exists>l. mget ls k = Some l \<and> canRun l"
    "best_ok (next_priority st ls) runnable best p"
  shows "\<exists>best' p'. scan_ready st ls ks runnable best p = (ls, runnable @ ks, best') \<and>
           best_ok (next_priority st ls) (runnable @ ks) best' p'"
  using assms
proof (induction ks arbitrary: runnable best p)
  case (Cons k ks)
  from Cons.prems(1) [of k] obtain l where l: "mget ls k = Some l" "canRun l" by auto
  then have hp: "Priority (st (the (Peek (queue l)))) = next_priority st ls k" by (simp add: next_priority_def)
  note step = best_ok_snoc [OF Cons.prems(2), of k]
  show ?case
  proof (cases "best = None \<or> next_priority st ls k > p")
    case True
    with l hp step Cons.IH [of "runnable @ [k]" "Some (length runnable)" "next_priority st ls k"] Cons.prems(1)
    show ?thesis by simp
  next
    case False
    with l hp step Cons.IH [of "runnable @ [k]" best p] Cons.prems(1) show ?thesis by auto
  qed
qed auto

text \<open>The state \<^verbatim>\<open>tryNext\<close> leaves before it marks the served lane ready again.\<close>

definition served ::
  "string \<Rightarrow> nat \<Rightarrow> consumerLane \<Rightarrow> job_ref \<Rightarrow> job_ref list \<Rightarrow> laneScheduler \<Rightarrow> laneScheduler" where
  "served key b l r q s =
     (let label = (lane_channelID l, lane_consumerID l) in
      s\<lparr>ready := take b (ready s) @ drop (b + 1) (ready s),
        tracked := mput (jobID (store s r)) \<lparr>held_job = r, running = True\<rparr> (tracked s),
        lanes := mput key (l\<lparr>is_ready := False, queue := q, inflight := inflight l + 1\<rparr>) (lanes s),
        metrics := (metrics s)\<lparr>QueuedJobCount := QueuedJobCount (metrics s) - 1,
          ConsumerQueuedJobCount := gauge_add label (- 1) (ConsumerQueuedJobCount (metrics s)),
          ConsumerInflightJobCount := gauge_add label 1 (ConsumerInflightJobCount (metrics s))\<rparr>\<rparr>)"

lemma served_sel [simp]:
  "store (served key b l r q s) = store s" "sseq (served key b l r q s) = sseq s"
  "limitFor (served key b l r q s) = limitFor s"
  "ready (served key b l r q s) = take b (ready s) @ drop (Suc b) (ready s)"
  "tracked (served key b l r q s) = mput (jobID (store s r)) \<lparr>held_job = r, running = True\<rparr> (tracked s)"
  "lanes (served key b l r q s) =
     mput key (l\<lparr>is_ready := False, queue := q, inflight := inflight l + 1\<rparr>) (lanes s)"
  by (simp_all add: served_def Let_def)

lemma inv_ready_runs:
  assumes "sched_inv s" "k \<in> set (ready s)"
  shows "\<exists>l. mget (lanes s) k = Some l \<and> canRun l"
  using assms inv_ready [of None s k] inv_lane(1) [of None s k] by (auto simp: sched_inv_def lane_shape_def)

lemma tryNext_cases:
  assumes inv: "sched_inv s"
  obtains (idle) "ready s = []" "tryNext s = (None, s)"
  | (serve) b key l r q p where
      "best_ok (next_priority (store s) (lanes s)) (ready s) (Some b) p" "key = ready s ! b"
      "mget (lanes s) key = Some l" "canRun l"
      "Dequeue (store s) (queue l) (QueuedJobCount (metrics s)) = Some (r, q, QueuedJobCount (metrics s) - 1)"
      "tryNext s = (Some r, markReadyLocked key (served key b l r q s))"
proof -
  obtain best p where scan: "scan_ready (store s) (lanes s) (ready s) [] None 0 = (lanes s, ready s, best)"
    and best: "best_ok (next_priority (store s) (lanes s)) (ready s) best p"
    using scan_ready_spec [of "ready s" "lanes s" "store s" "[]" None 0] inv_ready_runs [OF inv]
    by (auto simp: best_ok_def)
  show thesis
  proof (cases best)
    case None
    with best scan show thesis by (intro idle) (auto simp: best_ok_def tryNext_def)
  next
    case (Some b)
    let ?key = "ready s ! b" and ?qc = "QueuedJobCount (metrics s)"
    have "?key \<in> set (ready s)" using best Some by (simp add: best_ok_def)
    then obtain l where l: "mget (lanes s) ?key = Some l" "canRun l" using inv_ready_runs [OF inv] by blast
    then obtain r q where d: "Dequeue (store s) (queue l) ?qc = Some (r, q, ?qc - 1)"
      using Dequeue_total [of "queue l" "store s" ?qc] by (auto simp: canRun_def)
    have lq: "lane_queue s ?key l" using inv_lane(2) [of None s] inv l by (simp add: sched_inv_def)
    then have "r \<in> set (queue l)" using Dequeue_spec(6) [OF _ d] by (simp add: lane_queue_def)
    then have tr: "mget (tracked s) (jobID (store s r)) = Some \<lparr>held_job = r, running = False\<rparr>"
      using lq by (simp add: lane_queue_def)
    have "tryNext s = (Some r, markReadyLocked ?key (served ?key b l r q s))"
      using scan Some l d tr by (simp add: tryNext_def take_from_def served_def Let_def)
    with Some best l d show thesis by (intro serve) auto
  qed
qed

lemma served_inv:
  assumes inv: "sched_inv s" and b: "b < length (ready s)" "key = ready s ! b"
    and l: "mget (lanes s) key = Some l" "canRun l"
    and d: "Dequeue (store s) (queue l) g = Some (r, q, g')"
  shows "sched_inv_but (Some key) (served key b l r q s)" (is "sched_inv_but _ ?s")
proof -
  note inv' = inv [unfolded sched_inv_def]
  note li = inv_lane_inv [OF inv' l(1)]
  then have lq: "lane_queue s key l" by (simp add: lane_inv_def)
  note q = Dequeue_spec [OF _ d]
  have r: "r \<in> set (queue l)" and rq: "r \<notin> set q" "set q \<subseteq> set (queue l)" "queue_ok (store s) q" "distinct q"
    using lq q by (auto simp: lane_queue_def)
  let ?jid = "jobID (store s r)" and ?h = "\<lparr>held_job = r, running = True\<rparr>"
  have tr: "mget (tracked s) ?jid = Some \<lparr>held_job = r, running = False\<rparr>" and key: "lkey (store s r) = key"
    using lq r by (simp_all add: lane_queue_def)
  have other: "jobID (store s x) \<noteq> ?jid" if "lane_queue s k l'" "x \<in> set (queue l')" "x \<noteq> r" for k l' x
    using that tr by (auto simp: lane_queue_def)
  have runs: "running_in (store s) (tracked ?s) k = running_in (store s) (tracked s) k + (if k = key then 1 else 0)" for k
    using running_in_start [of "tracked s" ?jid "\<lparr>held_job = r, running = False\<rparr>" "store s" k] inv_wf [OF inv'] tr key
    by auto
  have rdy: "set (ready ?s) = set (ready s) - {key}" "distinct (ready ?s)"
    using remove_nth [of "ready s" b] inv_wf [OF inv'] b by simp_all
  show ?thesis
  proof (rule sched_inv_butI)
    show "wf_map (lanes ?s)" "wf_map (tracked ?s)" "distinct (ready ?s)"
      using inv_wf [OF inv'] rdy by simp_all
    show "k \<in> set (ready ?s) \<longleftrightarrow> (\<exists>l. mget (lanes ?s) k = Some l \<and> is_ready l)" for k
      using inv_ready [OF inv', of k] rdy by simp
  next
    fix k l' assume "mget (lanes ?s) k = Some l'"
    then consider "k = key" "l' = l\<lparr>is_ready := False, queue := q, inflight := inflight l + 1\<rparr>"
      | "k \<noteq> key" "mget (lanes s) k = Some l'" by (auto split: if_splits)
    then show "lane_inv (Some key) ?s k l'"
    proof cases
      case 1
      have "lane_queue ?s key l'"
        unfolding lane_queue_def
      proof (intro conjI ballI)
        show "queue_ok (store ?s) (queue l')" "distinct (queue l')" using 1 rq by simp_all
        show "inj_on (\<lambda>r. seq (store ?s r)) (set (queue l'))"
          using 1 rq(2) lq by (auto simp: lane_queue_def intro: inj_on_subset)
        fix x assume "x \<in> set (queue l')"
        then have x: "x \<in> set (queue l)" "x \<noteq> r" using 1 rq by auto
        then show "mget (tracked ?s) (jobID (store ?s x)) = Some \<lparr>held_job = x, running = False\<rparr>"
          "seq (store ?s x) \<le> sseq ?s" "lkey (store ?s x) = key"
          using lq other [OF lq x] by (simp_all add: lane_queue_def)
      qed
      with 1 li l(2) runs [of key] show ?thesis
        by (auto simp: lane_inv_def lane_shape_def canRun_def hasRoom_def)
    next
      case 2
      note l2 = inv_lane_inv [OF inv' 2(2)]
      have "r \<notin> set (queue l')" using l2 2(1) key by (auto simp: lane_inv_def lane_queue_def)
      moreover have lq2: "lane_queue s k l'" using l2 by (simp add: lane_inv_def)
      ultimately have "lane_queue ?s k l'"
        using other [OF lq2] by (intro lane_queue_frame [OF lq2]) (simp, metis mget_mput served_sel(1,5))
      with l2 2 runs [of k] show ?thesis by (auto simp: lane_inv_def lane_shape_def)
    qed
  next
    fix jid h assume h: "mget (tracked ?s) jid = Some h"
    show "held_ok ?s jid h"
    proof (cases "jid = ?jid")
      case True
      with h have "h = ?h" by simp
      with True key inv_held [OF inv' tr] show ?thesis by (auto simp: held_ok_def)
    next
      case False
      with h have "mget (tracked s) jid = Some h" by simp
      from inv_held [OF inv' this] obtain l0
        where h0: "jobID (store s (held_job h)) = jid" "laneIdentity (store s (held_job h)) \<noteq> None"
          "mget (lanes s) (lkey (store s (held_job h))) = Some l0" "running h \<or> held_job h \<in> set (queue l0)"
        unfolding held_ok_def by blast
      have "held_job h \<noteq> r" using h0(1) False by auto
      with h0(3,4) l(1) q(6) lq show ?thesis
        using h0(1,2) by (cases "lkey (store s (held_job h)) = key") (simp_all add: held_ok_def lane_queue_def)
    qed
  qed
qed

lemma tryNext_inv:
  assumes inv: "sched_inv s"
  shows "sched_inv (snd (tryNext s))"
  using inv
proof (cases rule: tryNext_cases)
  case idle
  with inv show ?thesis by simp
next
  case (serve b key l r q p)
  then have "sched_inv_but (Some key) (served key b l r q s)"
    using served_inv [OF inv] by (simp add: best_ok_def)
  then show ?thesis
    unfolding serve(6) by (simp, intro markReadyLocked_inv) auto
qed

subsection \<open>done\<close>

text \<open>The state \<^verbatim>\<open>done\<close> leaves before it drops the lane or marks it ready.\<close>

definition released :: "string \<Rightarrow> consumerLane \<Rightarrow> job_ref \<Rightarrow> laneScheduler \<Rightarrow> laneScheduler" where
  "released key l r s =
     (let label = (lane_channelID l, lane_consumerID l) in
      s\<lparr>tracked := mdel (jobID (store s r)) (tracked s),
        lanes := mput key (l\<lparr>inflight := inflight l - 1\<rparr>) (lanes s),
        metrics := (metrics s)\<lparr>ConsumerInflightJobCount :=
          gauge_add label (- 1) (ConsumerInflightJobCount (metrics s))\<rparr>\<rparr>)"

lemma released_sel [simp]:
  "store (released key l r s) = store s" "sseq (released key l r s) = sseq s"
  "limitFor (released key l r s) = limitFor s" "ready (released key l r s) = ready s"
  "tracked (released key l r s) = mdel (jobID (store s r)) (tracked s)"
  "lanes (released key l r s) = mput key (l\<lparr>inflight := inflight l - 1\<rparr>) (lanes s)"
  by (simp_all add: released_def Let_def)

lemma done_cases:
  assumes inv: "sched_inv s" and h: "mget (tracked s) (jobID (store s r)) = Some \<lparr>held_job = r, running = True\<rparr>"
  obtains l key where "lkey (store s r) = key" "mget (lanes s) key = Some l" "inflight l > 0"
    "done_locked r s =
       Some (if length (queue l) = 0 \<and> inflight l - 1 = 0 \<and> \<not> is_ready l
             then (released key l r s)\<lparr>lanes := mdel key (lanes (released key l r s))\<rparr>
             else markReadyLocked key (released key l r s))"
proof -
  note inv' = inv [unfolded sched_inv_def]
  from inv_held [OF inv' h] obtain ch co key where id: "laneIdentity (store s r) = Some (ch, co, key)"
    by (auto simp: held_ok_def)
  then have key: "lkey (store s r) = key" using laneIdentity_key by blast
  with inv_held [OF inv' h] obtain l where l: "mget (lanes s) key = Some l" by (auto simp: held_ok_def)
  have "inflight l > 0"
    using inv_lane(3) [OF inv' l] running_in_pos [of "tracked s" _ _ "store s", OF _ h] inv_wf [OF inv'] key
    by simp
  with l id key show thesis
    by (intro that [of key l]) (simp_all add: done_locked_def released_def Let_def)
qed

lemma released_inv:
  assumes inv: "sched_inv s" and h: "mget (tracked s) (jobID (store s r)) = Some \<lparr>held_job = r, running = True\<rparr>"
    and key: "lkey (store s r) = key" and l: "mget (lanes s) key = Some l" "inflight l > 0"
  shows "sched_inv_but (Some key) (released key l r s)" (is "sched_inv_but _ ?s")
proof -
  note inv' = inv [unfolded sched_inv_def]
  let ?jid = "jobID (store s r)"
  have runs: "running_in (store s) (mdel ?jid (tracked s)) k =
      running_in (store s) (tracked s) k - (if k = key then 1 else 0)" for k
    using running_in_del [of "tracked s" ?jid _ "store s" k, OF _ h] inv_wf [OF inv'] key by auto
  have frame: "lane_queue ?s k l'" if lq: "lane_queue s k l'" for k l'
  proof (rule lane_queue_frame [OF lq])
    fix x assume "x \<in> set (queue l')"
    with lq have "mget (tracked s) (jobID (store s x)) = Some \<lparr>held_job = x, running = False\<rparr>"
      by (simp add: lane_queue_def)
    with h have "jobID (store s x) \<noteq> ?jid" by auto
    then show "Priority (store ?s x) = Priority (store s x) \<and> seq (store ?s x) = seq (store s x) \<and>
      jobID (store ?s x) = jobID (store s x) \<and> lkey (store ?s x) = lkey (store s x) \<and>
      mget (tracked ?s) (jobID (store s x)) = mget (tracked s) (jobID (store s x))" by simp
  qed simp
  show ?thesis
  proof (rule sched_inv_butI)
    show "wf_map (lanes ?s)" "wf_map (tracked ?s)" "distinct (ready ?s)"
      using inv_wf [OF inv'] by simp_all
    show "k \<in> set (ready ?s) \<longleftrightarrow> (\<exists>l. mget (lanes ?s) k = Some l \<and> is_ready l)" for k
      using inv_ready [OF inv', of k] l(1) by simp
  next
    fix k l' assume l': "mget (lanes ?s) k = Some l'"
    show "lane_inv (Some key) ?s k l'"
    proof (cases "k = key")
      case True
      with l' have e: "l' = l\<lparr>inflight := inflight l - 1\<rparr>" by simp
      note li = inv_lane_inv [OF inv' l(1)]
      have "lane_queue s key l'" using li e by (simp add: lane_inv_def lane_queue_def)
      then have "lane_queue ?s key l'" by (rule frame)
      with True e li runs [of key] show ?thesis
        by (auto simp: lane_inv_def lane_shape_def canRun_def hasRoom_def)
    next
      case False
      with l' have "mget (lanes s) k = Some l'" by simp
      from inv_lane_inv [OF inv' this] False frame [of k l'] runs [of k] show ?thesis
        by (auto simp: lane_inv_def lane_shape_def)
    qed
  next
    fix jid h' assume h': "mget (tracked ?s) jid = Some h'"
    then have "mget (tracked s) jid = Some h'" by (simp split: if_splits)
    from inv_held [OF inv' this] l(1) show "held_ok ?s jid h'"
      by (auto simp: held_ok_def)
  qed
qed

lemma drop_lane_inv:
  assumes inv: "sched_inv_but (Some key) s" and l: "mget (lanes s) key = Some l"
    and e: "queue l = []" "inflight l = 0" "\<not> is_ready l"
  shows "sched_inv (s\<lparr>lanes := mdel key (lanes s)\<rparr>)" (is "sched_inv ?s")
  unfolding sched_inv_def
proof (rule sched_inv_butI)
  show "wf_map (lanes ?s)" "wf_map (tracked ?s)" "distinct (ready ?s)" using inv_wf [OF inv] by simp_all
  show "k \<in> set (ready ?s) \<longleftrightarrow> (\<exists>l. mget (lanes ?s) k = Some l \<and> is_ready l)" for k
    using inv_ready [OF inv, of k] l e by auto
  show "lane_inv None ?s k l'" if "mget (lanes ?s) k = Some l'" for k l'
    using that inv_lane_inv [OF inv, of k l'] by (auto simp: lane_inv_def split: if_splits)
  show "held_ok ?s jid h" if "mget (tracked ?s) jid = Some h" for jid h
  proof -
    have h: "mget (tracked s) jid = Some h" using that by simp
    have "running_in (store s) (tracked s) key = 0" using inv_lane(3) [OF inv l] e by simp
    then have "\<not> (running h \<and> lkey (store s (held_job h)) = key)"
      using running_in_pos [of "tracked s" jid h "store s"] inv_wf [OF inv] h by auto
    with inv_held [OF inv h] l e show ?thesis by (auto simp: held_ok_def)
  qed
qed

lemma done_inv:
  assumes inv: "sched_inv s" and h: "mget (tracked s) (jobID (store s r)) = Some \<lparr>held_job = r, running = True\<rparr>"
  shows "\<exists>s'. done_locked r s = Some s' \<and> sched_inv s'"
  using inv h
proof (cases rule: done_cases)
  case (1 l key)
  note rel = released_inv [OF inv h 1(1,2,3)]
  show ?thesis
  proof (cases "length (queue l) = 0 \<and> inflight l - 1 = 0 \<and> \<not> is_ready l")
    case True
    with 1 drop_lane_inv [OF rel] show ?thesis by simp
  next
    case False
    have "is_ready l \<longrightarrow> queue l \<noteq> []"
      using inv_lane(1) [OF inv [unfolded sched_inv_def] 1(2)] by (auto simp: lane_shape_def canRun_def)
    with False have "sched_inv (markReadyLocked key (released key l r s))"
      by (intro markReadyLocked_inv [OF rel]) auto
    with False 1 show ?thesis by auto
  qed
qed

subsection \<open>discardQueued\<close>

definition waiting_in :: "job_store \<Rightarrow> (string, heldJob) gomap \<Rightarrow> string \<Rightarrow> job_ref list \<Rightarrow> bool" where
  "waiting_in st tr k q \<longleftrightarrow>
     queue_ok st q \<and> distinct q \<and>
     (\<forall>r\<in>set q. mget tr (jobID (st r)) = Some \<lparr>held_job = r, running = False\<rparr> \<and> lkey (st r) = k)"

abbreviation ids_of :: "job_store \<Rightarrow> job_ref list \<Rightarrow> string set" where
  "ids_of st q \<equiv> (\<lambda>r. jobID (st r)) ` set q"

lemma drain_queue_spec:
  assumes "waiting_in st tr k q" "wf_map tr" "drain_queue st label q tr m = (tr', m')"
  shows "wf_map tr' \<and> (\<forall>jid. mget tr' jid = (if jid \<in> ids_of st q then None else mget tr jid)) \<and>
    (\<forall>k. running_in st tr' k = running_in st tr k) \<and>
    QueuedJobCount m' = QueuedJobCount m - int (length q) \<and>
    ConsumerInflightJobCount m' = ConsumerInflightJobCount m \<and>
    (\<forall>lab. ConsumerQueuedJobCount m' lab =
       ConsumerQueuedJobCount m lab - (if lab = label then int (length q) else 0))"
  using assms
proof (induction st label q tr m rule: drain_queue.induct)
  case (1 st label q tr m)
  show ?case
  proof (cases "Dequeue st q (QueuedJobCount m)")
    case None
    then have "q = []" using Dequeue_total [of q st "QueuedJobCount m"] by auto
    with None 1(4) show ?thesis using 1(3) by (subst (asm) drain_queue.simps) auto
  next
    case (Some a)
    obtain j q' g where a: "a = (j, q', g)" by (cases a)
    note d = Some [unfolded a]
    have q: "queue_ok st q" "distinct q" using 1(2) by (simp_all add: waiting_in_def)
    note ds = Dequeue_spec [OF q(1) d]
    have j: "mget tr (jobID (st j)) = Some \<lparr>held_job = j, running = False\<rparr>"
      using 1(2) ds(6) by (simp add: waiting_in_def)
    have ne: "jobID (st x) \<noteq> jobID (st j)" if "x \<in> set q'" for x
    proof -
      have "mget tr (jobID (st x)) = Some \<lparr>held_job = x, running = False\<rparr>"
        using 1(2) that ds(6) by (simp add: waiting_in_def)
      moreover have "x \<noteq> j" using that ds(7) q(2) by auto
      ultimately show ?thesis using j by auto
    qed
    let ?tr = "mdel (jobID (st j)) tr"
    let ?m = "m\<lparr>QueuedJobCount := g, ConsumerQueuedJobCount := gauge_add label (- 1) (ConsumerQueuedJobCount m)\<rparr>"
    have w: "waiting_in st ?tr k q'"
      using 1(2) ds(2,6,7) q(2) ne by (auto simp: waiting_in_def)
    have rec: "drain_queue st label q' ?tr ?m = (tr', m')"
      using 1(4) d by (subst (asm) drain_queue.simps) simp
    note IH = 1(1) [OF d [folded a, unfolded a] refl refl w _ rec]
    have run: "running_in st ?tr k = running_in st tr k" for k
      using running_in_del [OF 1(3) j, of st k] by simp
    have "mget tr' jid = (if jid \<in> ids_of st q then None else mget tr jid)" for jid
      using IH 1(3) ds(6) by auto
    then show ?thesis using IH 1(3) run ds(3,5) by simp
  qed
qed

abbreviation lane_label :: "consumerLane \<Rightarrow> string \<times> string" where
  "lane_label l \<equiv> (lane_channelID l, lane_consumerID l)"

definition discarded :: "(string, consumerLane) gomap \<Rightarrow> (string, consumerLane) gomap" where
  "discarded ls = map (\<lambda>(k, l). (k, l\<lparr>queue := [], is_ready := False\<rparr>)) (filter (\<lambda>(k, l). inflight l \<noteq> 0) ls)"

definition queued_ids :: "job_store \<Rightarrow> (string, consumerLane) gomap \<Rightarrow> string set" where
  "queued_ids st ls = (\<Union>(k, l)\<in>set ls. ids_of st (queue l))"

lemma discard_lanes_spec:
  assumes "\<forall>(k, l)\<in>set ls. waiting_in st tr k (queue l)" "wf_map ls" "wf_map tr"
    "discard_lanes st ls tr m = (ls', tr', m')"
  shows "ls' = discarded ls \<and> wf_map tr' \<and>
    (\<forall>jid. mget tr' jid = (if jid \<in> queued_ids st ls then None else mget tr jid)) \<and>
    (\<forall>k. running_in st tr' k = running_in st tr k) \<and>
    QueuedJobCount m' = QueuedJobCount m - int (msum (\<lambda>_ l. length (queue l)) ls) \<and>
    ConsumerInflightJobCount m' = ConsumerInflightJobCount m \<and>
    (\<forall>lab. ConsumerQueuedJobCount m' lab = ConsumerQueuedJobCount m lab -
       int (msum (\<lambda>_ l. if lane_label l = lab then length (queue l) else 0) ls))"
  using assms
proof (induction ls arbitrary: tr m ls' tr' m')
  case Nil
  then show ?case by (auto simp: discarded_def queued_ids_def)
next
  case (Cons p ls)
  obtain k l where p: "p = (k, l)" by (cases p)
  obtain tr1 m1 where d1: "drain_queue st (lane_label l) (queue l) tr m = (tr1, m1)" by fastforce
  obtain ls2 where d2: "discard_lanes st ls tr1 m1 = (ls2, tr', m')"
    and ls': "ls' = (if inflight l = 0 then ls2 else (k, l\<lparr>queue := [], is_ready := False\<rparr>) # ls2)"
    using Cons.prems(4) d1 by (auto simp: p split: prod.splits)
  have w: "waiting_in st tr k (queue l)" and ws: "\<forall>(k, l)\<in>set ls. waiting_in st tr k (queue l)"
    and wf: "wf_map ls" and k: "k \<notin> fst ` set ls"
    using Cons.prems(1,2) by (auto simp: p wf_map_def)
  note s1 = drain_queue_spec [OF w Cons.prems(3) d1]
  have "waiting_in st tr1 k' (queue l')" if kl: "(k', l') \<in> set ls" for k' l'
  proof -
    have w': "waiting_in st tr k' (queue l')" using ws kl by auto
    have "jobID (st x) \<notin> ids_of st (queue l)" if "x \<in> set (queue l')" for x
    proof
      assume "jobID (st x) \<in> ids_of st (queue l)"
      then obtain y where y: "y \<in> set (queue l)" "jobID (st x) = jobID (st y)" by auto
      then have "x = y" using w w' that by (fastforce simp: waiting_in_def)
      then have "k = k'" using y w w' that by (auto simp: waiting_in_def)
      with k kl show False by force
    qed
    with w' s1 show ?thesis by (auto simp: waiting_in_def)
  qed
  then have "\<forall>(k, l)\<in>set ls. waiting_in st tr1 k (queue l)" by auto
  note IH = Cons.IH [OF this wf _ d2]
  have ids: "queued_ids st (p # ls) = ids_of st (queue l) \<union> queued_ids st ls" by (simp add: p queued_ids_def)
  have "mget tr' jid = (if jid \<in> queued_ids st (p # ls) then None else mget tr jid)" for jid
    using IH s1 by (simp add: ids)
  moreover have "ls' = discarded (p # ls)" using IH s1 ls' by (simp add: p discarded_def)
  ultimately show ?case using IH s1 by (simp add: p)
qed

lemma mget_discarded:
  "wf_map ls \<Longrightarrow> mget (discarded ls) k =
     (case mget ls k of None \<Rightarrow> None
      | Some l \<Rightarrow> if inflight l \<noteq> 0 then Some (l\<lparr>queue := [], is_ready := False\<rparr>) else None)"
  by (induction ls) (auto simp: discarded_def wf_map_def map_of_eq_None_iff rev_image_eqI split: option.splits)

lemma wf_map_discarded: "wf_map ls \<Longrightarrow> wf_map (discarded ls)"
  by (induction ls) (force simp: discarded_def wf_map_def)+

lemma discardQueued_cases:
  assumes inv: "sched_inv s"
  obtains tr m where "discardQueued s = s\<lparr>lanes := discarded (lanes s), tracked := tr, metrics := m, ready := []\<rparr>"
    "wf_map tr" "\<And>jid. mget tr jid = (if jid \<in> queued_ids (store s) (lanes s) then None else mget (tracked s) jid)"
    "\<And>k. running_in (store s) tr k = running_in (store s) (tracked s) k"
    "QueuedJobCount m = QueuedJobCount (metrics s) - int (queuedLen s)"
    "ConsumerInflightJobCount m = ConsumerInflightJobCount (metrics s)"
    "\<And>lab. ConsumerQueuedJobCount m lab = ConsumerQueuedJobCount (metrics s) lab -
       int (msum (\<lambda>_ l. if lane_label l = lab then length (queue l) else 0) (lanes s))"
proof -
  note inv' = inv [unfolded sched_inv_def]
  obtain ls tr m where d: "discard_lanes (store s) (lanes s) (tracked s) (metrics s) = (ls, tr, m)"
    by (metis prod.exhaust)
  have "\<forall>(k, l)\<in>set (lanes s). waiting_in (store s) (tracked s) k (queue l)"
    using inv_lane(2) [OF inv'] inv_wf [OF inv'] mget_in_set [of "lanes s"]
    by (auto simp: lane_queue_def waiting_in_def)
  from discard_lanes_spec [OF this _ _ d] inv_wf [OF inv'] d show thesis
    by (intro that [where tr = tr and m = m]) (simp_all add: discardQueued_def queuedLen_def del: split_paired_All)
qed

lemma discardQueued_inv:
  assumes inv: "sched_inv s"
  shows "sched_inv (discardQueued s)"
  using inv
proof (cases rule: discardQueued_cases)
  case (1 tr m)
  note inv' = inv [unfolded sched_inv_def]
  let ?s = "s\<lparr>lanes := discarded (lanes s), tracked := tr, metrics := m, ready := []\<rparr>"
  have l': "\<exists>l. mget (lanes s) k = Some l \<and> inflight l \<noteq> 0 \<and> l' = l\<lparr>queue := [], is_ready := False\<rparr>"
    if "mget (discarded (lanes s)) k = Some l'" for k l'
    using that inv_wf [OF inv'] by (auto simp: mget_discarded split: option.splits if_splits)
  have "sched_inv_but None ?s"
  proof (rule sched_inv_butI)
    show "wf_map (lanes ?s)" "wf_map (tracked ?s)" "distinct (ready ?s)"
      using inv_wf [OF inv'] 1(2) by (simp_all add: wf_map_discarded)
    show "k \<in> set (ready ?s) \<longleftrightarrow> (\<exists>l. mget (lanes ?s) k = Some l \<and> is_ready l)" for k
      using l' by fastforce
    show "lane_inv None ?s k l'" if "mget (lanes ?s) k = Some l'" for k l'
    proof -
      from l' that obtain l where l: "mget (lanes s) k = Some l" "inflight l \<noteq> 0"
        "l' = l\<lparr>queue := [], is_ready := False\<rparr>" by auto
      with inv_lane_inv [OF inv' l(1)] 1(4) show ?thesis
        by (auto simp: lane_inv_def lane_shape_def lane_queue_def lane_live_def canRun_def heap_ordered_def)
    qed
    show "held_ok ?s jid h" if "mget (tracked ?s) jid = Some h" for jid h
    proof -
      from that have n: "jid \<notin> queued_ids (store s) (lanes s)" and h: "mget (tracked s) jid = Some h"
        using 1(3) by (auto split: if_splits)
      from inv_held [OF inv' h] obtain l where l: "jobID (store s (held_job h)) = jid"
        "laneIdentity (store s (held_job h)) \<noteq> None"
        "mget (lanes s) (lkey (store s (held_job h))) = Some l" "running h \<or> held_job h \<in> set (queue l)"
        unfolding held_ok_def by blast
      have "running h"
        using l n map_of_SomeD [OF l(3)] by (force simp: queued_ids_def)
      moreover from this have "inflight l > 0"
        using inv_lane(3) [OF inv' l(3)] running_in_pos [OF _ h, of "store s"] inv_wf [OF inv'] by simp
      ultimately show ?thesis using l inv_wf [OF inv'] by (simp add: held_ok_def mget_discarded)
    qed
  qed
  then show ?thesis by (simp add: sched_inv_def 1(1))
qed

subsection \<open>Gauges\<close>

definition opt_count :: "(consumerLane \<Rightarrow> nat) \<Rightarrow> consumerLane option \<Rightarrow> int" where
  "opt_count f L = (case L of None \<Rightarrow> 0 | Some l \<Rightarrow> int (f l))"

lemma opt_count_simps [simp]: "opt_count f None = 0" "opt_count f (Some l) = int (f l)"
  by (simp_all add: opt_count_def)

lemma lane_gauge_opt: "lane_gauge f s (ch, co) = opt_count f (mget (lanes s) (ch @ ''/'' @ co))"
  by (simp add: lane_gauge_def opt_count_def)

lemma queuedLen_mput:
  "wf_map (lanes s) \<Longrightarrow>
   int (msum (\<lambda>_ l. length (queue l)) (mput k l (lanes s))) =
   int (queuedLen s) + int (length (queue l)) - opt_count (\<lambda>l. length (queue l)) (mget (lanes s) k)"
  using msum_mput [of "lanes s" k _ "\<lambda>_ l. length (queue l)" l]
    msum_mput_notin [of "lanes s" k "\<lambda>_ l. length (queue l)" l]
  by (cases "mget (lanes s) k") (force simp: queuedLen_def)+

lemma queuedLen_mdel:
  "wf_map (lanes s) \<Longrightarrow>
   int (msum (\<lambda>_ l. length (queue l)) (mdel k (lanes s))) =
   int (queuedLen s) - opt_count (\<lambda>l. length (queue l)) (mget (lanes s) k)"
  using msum_mdel [of "lanes s" k _ "\<lambda>_ l. length (queue l)"]
    msum_mdel_notin [of "lanes s" k "\<lambda>_ l. length (queue l)"]
  by (cases "mget (lanes s) k") (force simp: queuedLen_def)+

lemma gauge_change:
  assumes g: "gauges_ok s" and ch: "CHR ''/'' \<notin> set ch" "key = ch @ ''/'' @ co"
    and L: "\<And>k. mget (lanes s') k = (if k = key then L else mget (lanes s) k)"
    and q: "int (queuedLen s') = int (queuedLen s) + dq"
      "QueuedJobCount (metrics s') = QueuedJobCount (metrics s) + dq"
      "opt_count (\<lambda>l. length (queue l)) L = opt_count (\<lambda>l. length (queue l)) (mget (lanes s) key) + dq"
      "opt_count inflight L = opt_count inflight (mget (lanes s) key) + di"
    and m: "ConsumerQueuedJobCount (metrics s') = gauge_add (ch, co) dq (ConsumerQueuedJobCount (metrics s))"
      "ConsumerInflightJobCount (metrics s') = gauge_add (ch, co) di (ConsumerInflightJobCount (metrics s))"
  shows "gauges_ok s'"
  unfolding gauges_ok_def
proof (intro conjI allI impI)
  show "QueuedJobCount (metrics s') = int (queuedLen s')" using g q by (simp add: gauges_ok_def)
  fix ch' co' assume ch': "CHR ''/'' \<notin> set (ch' :: string)"
  have "ch' @ ''/'' @ co' = key \<longleftrightarrow> (ch', co') = (ch, co)"
    using slash_split [of ch' co' ch co] ch ch' by auto
  then show "ConsumerQueuedJobCount (metrics s') (ch', co') = lane_gauge (\<lambda>l. length (queue l)) s' (ch', co')"
    "ConsumerInflightJobCount (metrics s') (ch', co') = lane_gauge inflight s' (ch', co')"
    using g ch' q m L ch(2) by (auto simp: gauges_ok_def lane_gauge_opt)
qed

lemma gauges_same:
  assumes "gauges_ok s" "metrics s' = metrics s" "queuedLen s' = queuedLen s"
    "\<And>k. opt_count (\<lambda>l. length (queue l)) (mget (lanes s') k) = opt_count (\<lambda>l. length (queue l)) (mget (lanes s) k)"
    "\<And>k. opt_count inflight (mget (lanes s') k) = opt_count inflight (mget (lanes s) k)"
  shows "gauges_ok s'"
  using assms by (simp add: gauges_ok_def lane_gauge_opt)

lemma gauges_markReady:
  assumes "gauges_ok s" "wf_map (lanes s)"
  shows "gauges_ok (markReadyLocked k s)"
proof (cases "\<exists>l. mget (lanes s) k = Some l \<and> \<not> is_ready l \<and> canRun l")
  case False
  then have "markReadyLocked k s = s" by (auto simp: markReadyLocked_def split: option.splits)
  with assms show ?thesis by simp
next
  case True
  then obtain l where l: "mget (lanes s) k = Some l" "\<not> is_ready l" "canRun l" by auto
  then have e: "markReadyLocked k s =
      s\<lparr>lanes := mput k (l\<lparr>is_ready := True\<rparr>) (lanes s), ready := ready s @ [k]\<rparr>"
    by (simp add: markReadyLocked_def)
  show ?thesis unfolding e
  proof (rule gauges_same [OF assms(1)])
    show "queuedLen (s\<lparr>lanes := mput k (l\<lparr>is_ready := True\<rparr>) (lanes s), ready := ready s @ [k]\<rparr>) = queuedLen s"
      using queuedLen_mput [OF assms(2), of k "l\<lparr>is_ready := True\<rparr>"] l by (simp add: queuedLen_def)
  qed (use l in auto)
qed

lemma length_Enqueue: "Enqueue st r q g = (q', g') \<Longrightarrow> length q' = Suc (length q) \<and> g' = g + 1"
  by (auto simp: Enqueue_def heap_push_def)

lemma enqueue_new_gauges:
  assumes inv: "sched_inv s" and g: "gauges_ok s"
    and new: "mget (tracked s) (jobID (store s r)) = None"
    and id: "laneIdentity (store s r) = Some (ch, co, key)" and ch: "CHR ''/'' \<notin> set ch"
    and e: "enqueue_locked r s = Some (b, s')"
  shows "gauges_ok s'"
proof -
  define job where "job = store s r"
  define lane where "lane = (case mget (lanes s) key of Some l \<Rightarrow> l | None \<Rightarrow> new_lane s ch co key)"
  define st where "st = (store s)(r := job\<lparr>seq := sseq s + 1\<rparr>)"
  obtain q g' where qg: "Enqueue st r (queue lane) (QueuedJobCount (metrics s)) = (q, g')" by fastforce
  define m where "m = (metrics s)\<lparr>QueuedJobCount := g',
      ConsumerQueuedJobCount := gauge_add (ch, co) 1 (ConsumerQueuedJobCount (metrics s))\<rparr>"
  define tr where "tr = mput (jobID job) \<lparr>held_job = r, running = False\<rparr> (tracked s)"
  have s': "s' = markReadyLocked key (s\<lparr>tracked := tr, store := st, sseq := sseq s + 1,
      lanes := mput key (lane\<lparr>queue := q\<rparr>) (lanes s), metrics := m\<rparr>)" (is "_ = markReadyLocked key ?s")
    using e new id qg
    by (auto simp: enqueue_locked_def Let_def job_def lane_def st_def tr_def m_def new_lane_def split: option.splits)
  have wf: "wf_map (lanes s)" using inv_wf inv by (simp add: sched_inv_def)
  have key: "key = ch @ ''/'' @ co" using laneIdentity_key [OF id] by simp
  have len: "length q = Suc (length (queue lane))" "g' = QueuedJobCount (metrics s) + 1"
    using length_Enqueue [OF qg] by auto
  have cnt: "opt_count (\<lambda>l. length (queue l)) (mget (lanes s) key) = int (length (queue lane))"
    "opt_count inflight (mget (lanes s) key) = int (inflight lane)"
    by (simp_all add: lane_def new_lane_def split: option.splits)
  have "gauges_ok ?s"
  proof (rule gauge_change [OF g ch key, where L = "Some (lane\<lparr>queue := q\<rparr>)" and dq = 1 and di = 0])
    show "int (queuedLen ?s) = int (queuedLen s) + 1"
      using queuedLen_mput [OF wf, of key "lane\<lparr>queue := q\<rparr>"] cnt len by (simp add: queuedLen_def)
  qed (use cnt len in \<open>auto simp: m_def\<close>)
  then show ?thesis unfolding s' using wf by (intro gauges_markReady) auto
qed

lemma enqueue_held_gauges:
  assumes "gauges_ok s" "mget (tracked s) (jobID (store s r)) = Some held" "enqueue_locked r s = Some (b, s')"
  shows "gauges_ok s'"
  by (rule gauges_same [OF assms(1)])
    (use assms in \<open>auto simp: enqueue_locked_def queuedLen_def Let_def split: if_splits\<close>)

lemma lane_label_inv:
  assumes "sched_inv s" "mget (lanes s) key = Some l"
  shows "CHR ''/'' \<notin> set (lane_channelID l)" "key = lane_channelID l @ ''/'' @ lane_consumerID l"
  using inv_lane(1) [of None s key l] assms by (auto simp: sched_inv_def lane_shape_def)

lemma tryNext_gauges:
  assumes inv: "sched_inv s" and g: "gauges_ok s"
  shows "gauges_ok (snd (tryNext s))"
  using inv
proof (cases rule: tryNext_cases)
  case idle
  with g show ?thesis by simp
next
  case (serve b key l r q p)
  let ?s = "served key b l r q s"
  let ?l = "l\<lparr>is_ready := False, queue := q, inflight := inflight l + 1\<rparr>"
  have wf: "wf_map (lanes s)" using inv_wf inv by (simp add: sched_inv_def)
  have len: "length (queue l) = Suc (length q)" using length_Dequeue serve(5) by blast
  have "gauges_ok ?s"
  proof (rule gauge_change [OF g lane_label_inv [OF inv serve(3)], where L = "Some ?l" and dq = "- 1" and di = 1])
    show "int (queuedLen ?s) = int (queuedLen s) + - 1"
      using queuedLen_mput [OF wf, of key ?l] serve(3) len by (simp add: queuedLen_def)
  qed (use serve(3) len in \<open>auto simp: served_def Let_def\<close>)
  with wf show ?thesis unfolding serve(6) by (simp add: gauges_markReady)
qed

lemma done_gauges:
  assumes inv: "sched_inv s" and g: "gauges_ok s"
    and h: "mget (tracked s) (jobID (store s r)) = Some \<lparr>held_job = r, running = True\<rparr>"
    and d: "done_locked r s = Some s'"
  shows "gauges_ok s'"
  using inv h
proof (cases rule: done_cases)
  case (1 l key)
  let ?s = "released key l r s" and ?l = "l\<lparr>inflight := inflight l - 1\<rparr>"
  have wf: "wf_map (lanes s)" using inv_wf inv by (simp add: sched_inv_def)
  have g1: "gauges_ok ?s"
  proof (rule gauge_change [OF g lane_label_inv [OF inv 1(2)], where L = "Some ?l" and dq = 0 and di = "- 1"])
    show "int (queuedLen ?s) = int (queuedLen s) + 0"
      using queuedLen_mput [OF wf, of key ?l] 1(2) by (simp add: queuedLen_def)
  qed (use 1 in \<open>auto simp: released_def Let_def\<close>)
  show ?thesis
  proof (cases "length (queue l) = 0 \<and> inflight l - 1 = 0 \<and> \<not> is_ready l")
    case True
    then have s': "s' = ?s\<lparr>lanes := mdel key (lanes ?s)\<rparr>" using 1 d by simp
    show ?thesis unfolding s'
      by (rule gauges_same [OF g1])
        (use True queuedLen_mdel [of ?s key] wf in \<open>auto simp: queuedLen_def\<close>)
  next
    case False
    then have s': "s' = markReadyLocked key ?s" using 1 d by auto
    show ?thesis unfolding s' using g1 wf by (simp add: gauges_markReady)
  qed
qed

lemma msum_at:
  "wf_map m \<Longrightarrow> msum (\<lambda>k v. if k = key then f v else 0) m = (case mget m key of None \<Rightarrow> 0 | Some v \<Rightarrow> f v)"
proof (induction m)
  case (Cons p m)
  obtain a b where p: "p = (a, b)" by (cases p)
  have "mget m a = None" "wf_map m" using Cons.prems by (auto simp: p wf_map_def map_of_eq_None_iff)
  with Cons.IH show ?case by (auto simp: p split: option.splits)
qed simp

lemma discardQueued_gauges:
  assumes inv: "sched_inv s" and g: "gauges_ok s"
  shows "gauges_ok (discardQueued s)"
  using inv
proof (cases rule: discardQueued_cases)
  case (1 tr m)
  have wf: "wf_map (lanes s)" using inv_wf inv by (simp add: sched_inv_def)
  have q0: "msum (\<lambda>_ l. length (queue l)) (discarded (lanes s)) = 0"
    by (auto simp: discarded_def msum_def)
  have o: "opt_count (\<lambda>l. length (queue l)) (mget (discarded (lanes s)) k) = 0"
    "opt_count inflight (mget (discarded (lanes s)) k) = opt_count inflight (mget (lanes s) k)" for k
    using wf by (auto simp: mget_discarded split: option.splits)
  have lab: "int (msum (\<lambda>_ l. if lane_label l = (ch, co) then length (queue l) else 0) (lanes s)) =
      opt_count (\<lambda>l. length (queue l)) (mget (lanes s) (ch @ ''/'' @ co))" if ch: "CHR ''/'' \<notin> set ch" for ch co
  proof -
    have "lane_label l = (ch, co) \<longleftrightarrow> k = ch @ ''/'' @ co" if "(k, l) \<in> set (lanes s)" for k l
    proof -
      have "mget (lanes s) k = Some l" using that wf mget_in_set by fast
      note l = lane_label_inv [OF inv this]
      show ?thesis
      proof
        assume "k = ch @ ''/'' @ co"
        then have "lane_channelID l @ ''/'' @ lane_consumerID l = ch @ ''/'' @ co" using l(2) by argo
        from slash_split [OF this l(1) ch] show "lane_label l = (ch, co)" by simp
      qed (use l(2) in simp)
    qed
    then have "int (msum (\<lambda>_ l. if lane_label l = (ch, co) then length (queue l) else 0) (lanes s)) =
        int (msum (\<lambda>k l. if k = ch @ ''/'' @ co then length (queue l) else 0) (lanes s))"
      by (intro arg_cong [where f = int] msum_cong) simp
    also have "\<dots> = opt_count (\<lambda>l. length (queue l)) (mget (lanes s) (ch @ ''/'' @ co))"
      using msum_at [OF wf, of "ch @ ''/'' @ co" "\<lambda>l. length (queue l)"] by (simp add: opt_count_def split: option.splits)
    finally show ?thesis .
  qed
  show ?thesis
    unfolding gauges_ok_def 1(1)
    using g 1(5,6,7) q0 o lab by (simp add: gauges_ok_def lane_gauge_opt queuedLen_def)
qed

subsection \<open>Reachable schedulers\<close>

text \<open>
  A step of a scheduler in use.  The dispatcher enqueues a fresh \<^verbatim>\<open>NewJob\<close> (its address is not
  held by the scheduler) whose channel id has no slash, so that the lane key determines channel and
  consumer; a job offered again keeps its lane, because a delivery job never changes its consumer.
  A worker reports a job done that it was handed, and the wake-up channel is filled and emptied.
\<close>

inductive sched_step :: "laneScheduler \<Rightarrow> laneScheduler \<Rightarrow> bool" where
  step_enqueue:
    "(\<And>jid h. mget (tracked s) jid = Some h \<Longrightarrow> held_job h \<noteq> r) \<Longrightarrow>
     laneIdentity (NewJob dj) = Some (ch, co, key) \<Longrightarrow> CHR ''/'' \<notin> set ch \<Longrightarrow>
     (\<And>h. mget (tracked s) (ID dj) = Some h \<Longrightarrow> lkey (store s (held_job h)) = key) \<Longrightarrow>
     enqueue_locked r (s\<lparr>store := (store s)(r := NewJob dj)\<rparr>) = Some (b, s') \<Longrightarrow> sched_step s s'"
| step_next: "tryNext s = (x, s') \<Longrightarrow> sched_step s s'"
| step_done:
    "mget (tracked s) jid = Some \<lparr>held_job = r, running = True\<rparr> \<Longrightarrow> done_locked r s = Some s' \<Longrightarrow>
     sched_step s s'"
| step_signal: "sched_step s (signal s)"
| step_wake: "sched_step s (s\<lparr>wake := False\<rparr>)"
| step_discard: "sched_step s (discardQueued s)"

inductive reach :: "(string \<Rightarrow> string \<Rightarrow> nat) \<Rightarrow> laneScheduler \<Rightarrow> bool" for lim where
  reach_init:
    "m = \<lparr>QueuedJobCount = 0, ConsumerQueuedJobCount = (\<lambda>_. 0), ConsumerInflightJobCount = (\<lambda>_. 0)\<rparr> \<Longrightarrow>
     reach lim (newLaneScheduler lim m st)"
| reach_step: "reach lim s \<Longrightarrow> sched_step s s' \<Longrightarrow> reach lim s'"

lemma init_inv: "sched_inv (newLaneScheduler lim m st)"
  by (simp add: newLaneScheduler_def sched_inv_def sched_inv_but_def)

lemma alloc_inv:
  assumes inv: "sched_inv s" and fresh: "\<And>jid h. mget (tracked s) jid = Some h \<Longrightarrow> held_job h \<noteq> r"
  shows "sched_inv (s\<lparr>store := (store s)(r := j)\<rparr>)" (is "sched_inv ?s")
  unfolding sched_inv_def
proof (rule sched_inv_butI)
  note inv' = inv [unfolded sched_inv_def]
  show "wf_map (lanes ?s)" "wf_map (tracked ?s)" "distinct (ready ?s)" using inv_wf [OF inv'] by simp_all
  show "k \<in> set (ready ?s) \<longleftrightarrow> (\<exists>l. mget (lanes ?s) k = Some l \<and> is_ready l)" for k
    using inv_ready [OF inv', of k] by simp
  show "lane_inv None ?s k l" if "mget (lanes ?s) k = Some l" for k l
  proof -
    have "mget (lanes s) k = Some l" using that by simp
    note l = inv_lane_inv [OF inv' this]
    then have lq: "lane_queue s k l" by (simp add: lane_inv_def)
    have "x \<noteq> r" if "x \<in> set (queue l)" for x
      using fresh [of "jobID (store s x)" "\<lparr>held_job = x, running = False\<rparr>"] lq that by (simp add: lane_queue_def)
    then have "lane_queue ?s k l" by (intro lane_queue_frame [OF lq]) auto
    with l running_in_store [of "tracked s" "store ?s" "store s" k] inv_wf [OF inv'] fresh show ?thesis
      by (simp add: lane_inv_def)
  qed
  show "held_ok ?s jid h" if "mget (tracked ?s) jid = Some h" for jid h
    using that inv_held [OF inv', of jid h] fresh [of jid h] by (simp add: held_ok_def)
qed

lemma gauges_frame [simp]:
  "gauges_ok (s\<lparr>store := st\<rparr>) = gauges_ok s" "gauges_ok (s\<lparr>wake := w\<rparr>) = gauges_ok s"
  by (simp_all add: gauges_ok_def lane_gauge_def queuedLen_def)

lemma inv_wake: "sched_inv s \<Longrightarrow> sched_inv (s\<lparr>wake := w\<rparr>)"
  by (simp add: sched_inv_def sched_inv_but_def held_ok_def)

lemma step_inv:
  assumes "sched_step s s'" "sched_inv s" "gauges_ok s"
  shows "sched_inv s' \<and> gauges_ok s'"
  using assms
proof (induction rule: sched_step.induct)
  case (step_enqueue s r dj ch co key b s')
  let ?s = "s\<lparr>store := (store s)(r := NewJob dj)\<rparr>"
  have inv: "sched_inv ?s" "gauges_ok ?s" using alloc_inv step_enqueue by auto
  have r: "store ?s r = NewJob dj" "jobID (NewJob dj) = ID dj" by (simp_all add: NewJob_def)
  have id: "laneIdentity (store ?s r) = Some (ch, co, key)" using r step_enqueue(2) by simp
  show ?case
  proof (cases "mget (tracked s) (ID dj)")
    case None
    with inv r id step_enqueue show ?thesis
      using enqueue_new_inv [OF inv(1) _ _ id] enqueue_new_gauges [OF inv _ id] by simp
  next
    case (Some h)
    then have h: "mget (tracked ?s) (jobID (store ?s r)) = Some h" using r by simp
    have "lkey (store ?s r) = lkey (store ?s (held_job h))"
      using laneIdentity_key [OF id] step_enqueue(1,4) Some by simp
    with inv h id step_enqueue(5) show ?thesis
      using enqueue_held_inv [OF inv(1) h] enqueue_held_gauges [OF inv(2) h] by simp
  qed
next
  case (step_next s x s')
  then show ?case using tryNext_inv [of s] tryNext_gauges [of s] by simp
next
  case (step_done s jid r s')
  then have "jid = jobID (store s r)" using inv_held [of None s jid] by (auto simp: sched_inv_def held_ok_def)
  with step_done show ?case using done_inv [of s r] done_gauges [of s r s'] by simp
next
  case (step_signal s)
  then show ?case by (simp add: signal_def inv_wake)
next
  case (step_wake s)
  then show ?case by (simp add: inv_wake)
next
  case (step_discard s)
  then show ?case by (simp add: discardQueued_inv discardQueued_gauges)
qed

lemma reach_inv: "reach lim s \<Longrightarrow> sched_inv s \<and> gauges_ok s"
proof (induction rule: reach.induct)
  case (reach_init m st)
  then show ?case using init_inv by (simp add: gauges_ok_def newLaneScheduler_def queuedLen_def lane_gauge_def)
next
  case (reach_step s s')
  then show ?case using step_inv by blast
qed

end
