(* ===== verification/Lane_Properties.thy ===== *)
theory Lane_Properties
  imports Lane_Invariant
begin

section \<open>What the lane scheduler promises\<close>

text \<open>
  The properties of every reachable scheduler (the relation \<open>reach\<close> of theory
  \<open>Lane_Invariant\<close>): the concurrency limit, the choice of the next job, work conservation, fairness
  between lanes of equal priority, the gauges, the release of lanes, and that no wake-up of the
  assigning loop is lost.
\<close>

subsection \<open>Helpers\<close>

lemma limitFor_mark [simp]: "limitFor (markReadyLocked k s) = limitFor s"
  by (simp add: markReadyLocked_def split: option.splits)

lemma store_mark [simp]: "store (markReadyLocked k s) = store s"
  by (simp add: markReadyLocked_def split: option.splits)

lemma tracked_mark [simp]: "tracked (markReadyLocked k s) = tracked s"
  by (simp add: markReadyLocked_def split: option.splits)

lemma limitFor_step: "sched_step s s' \<Longrightarrow> sched_inv s \<Longrightarrow> limitFor s' = limitFor s"
proof (induction rule: sched_step.induct)
  case (step_enqueue s r dj ch co key b s')
  then show ?case
    by (auto simp: enqueue_locked_def Let_def split: option.splits if_splits prod.splits)
next
  case (step_next s x s')
  from step_next(2) show ?case
    by (cases rule: tryNext_cases) (use step_next(1) in auto)
next
  case (step_done s jid r s')
  then have "jid = jobID (store s r)" using inv_held [of None s jid] by (auto simp: sched_inv_def held_ok_def)
  with step_done(1,3) have "sched_inv s" "mget (tracked s) (jobID (store s r)) = Some \<lparr>held_job = r, running = True\<rparr>"
    by simp_all
  then show ?case by (cases rule: done_cases) (use step_done(2) in \<open>auto split: if_splits\<close>)
qed (simp_all add: signal_def discardQueued_def split: prod.splits)

lemma reach_limitFor: "reach lim s \<Longrightarrow> limitFor s = lim"
proof (induction rule: reach.induct)
  case (reach_init m st)
  then show ?case by (simp add: newLaneScheduler_def)
next
  case (reach_step s s')
  then show ?case using limitFor_step reach_inv by metis
qed

lemma enqueue_locked_total:
  "laneIdentity (store s r) \<noteq> None \<Longrightarrow> \<exists>b s'. enqueue_locked r s = Some (b, s')"
  by (auto simp: enqueue_locked_def Let_def split: option.splits prod.splits)

lemma inv_waiting:
  assumes "sched_inv s" "mget (lanes s) k = Some l" "x \<in> set (queue l)"
  shows "mget (tracked s) (jobID (store s x)) = Some \<lparr>held_job = x, running = False\<rparr>" "lkey (store s x) = k"
  using inv_lane(2) [of None s k l] assms by (auto simp: sched_inv_def lane_queue_def)

subsection \<open>A sample scheduler for the witnesses\<close>

definition sample_channel :: Channel where
  "sample_channel = \<lparr>ID = ''c0'', CreatedAt = 1, UpdatedAt = 1, Name = ''ch'', Token = ''t'', ChannelID = ''ch''\<rparr>"

definition sample_consumer :: "string \<Rightarrow> Consumer" where
  "sample_consumer c =
     \<lparr>ID = c, CreatedAt = 1, UpdatedAt = 1, Name = c, Token = ''t'', ConsumerID = c,
      CallbackURL = ''http://h/c'', ConsumingFrom = Some sample_channel, CType = PushConsumer\<rparr>"

definition sample_dj :: "string \<Rightarrow> string \<Rightarrow> nat \<Rightarrow> DeliveryJob" where
  "sample_dj i c p =
     \<lparr>ID = i, CreatedAt = 1, UpdatedAt = 1, dj_Message = None, Listener = Some (sample_consumer c),
      dj_Status = JobQueued, StatusChangedAt = 1, DispatchReceivedAt = 1, EarliestNextAttemptAt = 1,
      RetryAttemptCount = 0, dj_Priority = p, IncrementalTimeout = 0\<rparr>"

definition no_metrics :: MetricsContainer where
  "no_metrics = \<lparr>QueuedJobCount = 0, ConsumerQueuedJobCount = (\<lambda>_. 0), ConsumerInflightJobCount = (\<lambda>_. 0)\<rparr>"

definition sample_enqueue :: "job_ref \<Rightarrow> DeliveryJob \<Rightarrow> laneScheduler \<Rightarrow> laneScheduler" where
  "sample_enqueue r dj s = snd (the (enqueue_locked r (s\<lparr>store := (store s)(r := NewJob dj)\<rparr>)))"

definition sample_sched :: laneScheduler where
  "sample_sched =
     sample_enqueue 2 (sample_dj ''j2'' ''b'' 5) (sample_enqueue 1 (sample_dj ''j1'' ''a'' 5)
       (sample_enqueue 0 (sample_dj ''j0'' ''a'' 1)
         (newLaneScheduler (\<lambda>_ _. 1) no_metrics (\<lambda>_. NewJob (sample_dj '''' '''' 0)))))"

lemma tracked_sample_enqueue:
  "mget (tracked s) (ID dj) = None \<Longrightarrow> laneIdentity (NewJob dj) = Some i \<Longrightarrow>
   tracked (sample_enqueue r dj s) = mput (ID dj) \<lparr>held_job = r, running = False\<rparr> (tracked s)"
  by (cases i) (simp add: sample_enqueue_def enqueue_locked_def Let_def NewJob_def laneIdentity_Data
      [of "\<lparr>Data = dj, Priority = dj_Priority dj, seq = 0\<rparr>"] split_beta)

lemma sample_identity: "laneIdentity (NewJob (sample_dj i c p)) = Some (''ch'', c, ''ch/'' @ c)"
  by (simp add: laneIdentity_def NewJob_def sample_dj_def sample_consumer_def sample_channel_def)

lemma sample_enqueue_reach:
  assumes "reach lim s" "\<And>jid h. mget (tracked s) jid = Some h \<Longrightarrow> held_job h \<noteq> r" "mget (tracked s) i = None"
  shows "reach lim (sample_enqueue r (sample_dj i c p) s)"
proof -
  let ?s = "s\<lparr>store := (store s)(r := NewJob (sample_dj i c p))\<rparr>"
  obtain b s' where e: "enqueue_locked r ?s = Some (b, s')"
    using enqueue_locked_total [of ?s r] by (auto simp: sample_identity)
  have id: "ID (sample_dj i c p) = i" by (simp add: sample_dj_def)
  have "sched_step s s'"
    by (rule step_enqueue [OF assms(2) sample_identity _ _ e]) (use assms(3) id in auto)
  with e assms(1) show ?thesis by (auto simp: sample_enqueue_def intro: reach_step)
qed

lemma sample_reach: "reach (\<lambda>_ _. 1) sample_sched"
  unfolding sample_sched_def
  by (intro sample_enqueue_reach reach_init)
    (auto simp: no_metrics_def tracked_sample_enqueue sample_identity newLaneScheduler_def sample_dj_def
      [THEN arg_cong [where f = ID]] split: if_splits)

subsection \<open>The concurrency limit\<close>

text \<open>
  C2: In every reachable state of the scheduler the number of deliveries handed out for one consumer
  never exceeds the limit configured for that consumer (a limit of 0 means unlimited).
\<close>

theorem limit_respected:
  assumes "reach lim s" "CHR ''/'' \<notin> set ch" "lim ch co \<noteq> 0"
  shows "running_in (store s) (tracked s) (ch @ ''/'' @ co) \<le> lim ch co"
proof -
  have inv: "sched_inv s" using reach_inv assms(1) by blast
  note inv' = inv [unfolded sched_inv_def]
  show ?thesis
  proof (cases "mget (lanes s) (ch @ ''/'' @ co)")
    case None
    then have "running_in (store s) (tracked s) (ch @ ''/'' @ co) = 0"
      using inv_wf [OF inv'] inv_held [OF inv'] by (intro running_in_zero) (fastforce simp: held_ok_def)+
    then show ?thesis by simp
  next
    case (Some l)
    from lane_label_inv [OF inv Some] slash_split [of ch co "lane_channelID l" "lane_consumerID l"] assms(2)
    have "lane_channelID l = ch" "lane_consumerID l = co" by metis+
    with inv_lane(1,3) [OF inv' Some] reach_limitFor [OF assms(1)] assms(3) show ?thesis
      by (auto simp: lane_shape_def)
  qed
qed

theorem limit_respected_witness:
  "running_in (store (snd (tryNext sample_sched))) (tracked (snd (tryNext sample_sched))) ''ch/a'' = 1 \<and>
   running_in (store (snd (tryNext sample_sched))) (tracked (snd (tryNext sample_sched))) (''ch'' @ ''/'' @ ''a'')
     \<le> (\<lambda>_ _. 1) ''ch'' ''a''"
proof -
  have "reach (\<lambda>_ _. 1) (snd (tryNext sample_sched))"
    using sample_reach by (rule reach_step) (rule step_next, rule prod.collapse [symmetric])
  then have "running_in (store (snd (tryNext sample_sched))) (tracked (snd (tryNext sample_sched))) (''ch'' @ ''/'' @ ''a'')
     \<le> (\<lambda>_ _. 1) ''ch'' ''a''" by (rule limit_respected) simp_all
  moreover have "running_in (store (snd (tryNext sample_sched))) (tracked (snd (tryNext sample_sched))) ''ch/a'' = 1"
    by code_simp
  ultimately show ?thesis by (intro conjI)
qed

subsection \<open>The choice of the next job\<close>

lemma served_job:
  assumes inv: "sched_inv s" and t: "tryNext s = (Some r, s')"
  shows "\<exists>b key l q p. best_ok (next_priority (store s) (lanes s)) (ready s) (Some b) p \<and> key = ready s ! b \<and>
    mget (lanes s) key = Some l \<and> canRun l \<and> Peek (queue l) = Some r \<and> r \<in> set (queue l) \<and>
    (\<forall>x\<in>set (queue l). \<not> jobs_Less (store s) x r) \<and> next_priority (store s) (lanes s) key = Priority (store s r) \<and>
    set q \<subseteq> set (queue l) \<and> s' = markReadyLocked key (served key b l r q s)"
  using inv
proof (cases rule: tryNext_cases)
  case idle
  with t show ?thesis by simp
next
  case (serve b key l r' q p)
  with t have r: "r' = r" "s' = markReadyLocked key (served key b l r q s)" by auto
  have qo: "queue_ok (store s) (queue l)"
    using inv_lane(2) [of None s key l] inv serve(3) by (simp add: sched_inv_def lane_queue_def)
  note d = Dequeue_spec [OF qo serve(5) [unfolded r]]
  have np: "next_priority (store s) (lanes s) key = Priority (store s r)"
    using serve(3) d(4) by (simp add: next_priority_def)
  show ?thesis
    by (intro exI conjI) (use serve(1-4) r d(4,6,8) np in auto)
qed

text \<open>
  C3: The job handed out next has the highest priority among all jobs waiting in lanes that have
  room, and among the jobs of its own lane it is the first: none of the others has a higher
  priority, and those of equal priority entered the dispatcher later.
\<close>

theorem next_job_has_highest_priority:
  assumes "reach lim s" "tryNext s = (Some r, s')" "mget (lanes s) k = Some l" "hasRoom l" "x \<in> set (queue l)"
  shows "Priority (store s x) \<le> Priority (store s r) \<and>
    (lkey (store s x) = lkey (store s r) \<and> x \<noteq> r \<longrightarrow> Less (store s r) (store s x))"
proof -
  have inv: "sched_inv s" using reach_inv assms(1) by blast
  note inv' = inv [unfolded sched_inv_def]
  from served_job [OF inv assms(2)] obtain b l0 p where
    b: "best_ok (next_priority (store s) (lanes s)) (ready s) (Some b) p"
    and l0: "mget (lanes s) (ready s ! b) = Some l0" "r \<in> set (queue l0)"
      "\<forall>x\<in>set (queue l0). \<not> jobs_Less (store s) x r"
      "next_priority (store s) (lanes s) (ready s ! b) = Priority (store s r)" by blast
  have cr: "canRun l" using assms(4,5) by (auto simp: canRun_def)
  then have "k \<in> set (ready s)"
    using inv_lane(4) [OF inv' assms(3)] inv_ready [OF inv'] assms(3) by (auto simp: lane_live_def)
  with b l0(4) have le: "next_priority (store s) (lanes s) k \<le> Priority (store s r)"
    by (auto simp: best_ok_def)
  have qo: "queue_ok (store s) (queue l)" "inj_on (\<lambda>r. seq (store s r)) (set (queue l))"
    using inv_lane(2) [OF inv' assms(3)] by (simp_all add: lane_queue_def)
  have ne: "queue l \<noteq> []" using cr by (auto simp: canRun_def)
  then have "\<not> jobs_Less (store s) x (queue l ! 0)"
    using jq.heap.peek_least [OF qo(1)] assms(5) by simp
  then have "Priority (store s x) \<le> next_priority (store s) (lanes s) k"
    using assms(3) ne by (auto simp: next_priority_def Peek_def jobs_Less_def Less_def split: if_splits)
  with le have pr: "Priority (store s x) \<le> Priority (store s r)" by simp
  have "Less (store s r) (store s x)" if same: "lkey (store s x) = lkey (store s r)" "x \<noteq> r"
  proof -
    have "k = ready s ! b" using inv_waiting(2) [OF inv assms(3,5)] inv_waiting(2) [OF inv l0(1,2)] same by simp
    then have "l = l0" using assms(3) l0(1) by simp
    then have "\<not> Less (store s x) (store s r)" "seq (store s x) \<noteq> seq (store s r)"
      using l0(2,3) assms(5) qo(2) same(2) by (auto simp: jobs_Less_def inj_on_def)
    then show ?thesis by (auto simp: Less_def split: if_splits)
  qed
  with pr show ?thesis by simp
qed

theorem next_job_has_highest_priority_witness:
  "fst (tryNext sample_sched) = Some 1 \<and>
   Priority (store sample_sched 2) \<le> Priority (store sample_sched 1) \<and>
   Less (store sample_sched 1) (store sample_sched 0)"
proof -
  have f: "fst (tryNext sample_sched) = Some 1" by code_simp
  then have t: "tryNext sample_sched = (Some 1, snd (tryNext sample_sched))" by (metis prod.collapse)
  have a: "mget (lanes sample_sched) ''ch/a'' = Some (the (mget (lanes sample_sched) ''ch/a''))"
    "hasRoom (the (mget (lanes sample_sched) ''ch/a''))" "0 \<in> set (queue (the (mget (lanes sample_sched) ''ch/a'')))"
    "mget (lanes sample_sched) ''ch/b'' = Some (the (mget (lanes sample_sched) ''ch/b''))"
    "hasRoom (the (mget (lanes sample_sched) ''ch/b''))" "2 \<in> set (queue (the (mget (lanes sample_sched) ''ch/b'')))"
    "lkey (store sample_sched 0) = lkey (store sample_sched 1)"
    by code_simp+
  show ?thesis
    using next_job_has_highest_priority [OF sample_reach t a(1-3)]
      next_job_has_highest_priority [OF sample_reach t a(4-6)] f a(7) by simp
qed

text \<open>
  C4: The scheduler is work conserving: it hands out no job exactly when no lane has both a waiting
  job and room for another delivery, and then it does not change its state.
\<close>

theorem idle_iff_no_lane_can_run:
  assumes "reach lim s"
  shows "(fst (tryNext s) = None \<longleftrightarrow> (\<forall>k l. mget (lanes s) k = Some l \<longrightarrow> \<not> canRun l)) \<and>
         (fst (tryNext s) = None \<longrightarrow> snd (tryNext s) = s)"
proof -
  have inv: "sched_inv s" using reach_inv assms by blast
  note inv' = inv [unfolded sched_inv_def]
  have rdy: "k \<in> set (ready s) \<longleftrightarrow> (\<exists>l. mget (lanes s) k = Some l \<and> canRun l)" for k
    using inv_ready [OF inv', of k] inv_lane(1,4) [OF inv', of k] by (auto simp: lane_live_def lane_shape_def)
  show ?thesis
    using inv
  proof (cases rule: tryNext_cases)
    case idle
    with rdy show ?thesis by auto
  next
    case (serve b key l r q p)
    then show ?thesis by auto
  qed
qed

theorem idle_iff_no_lane_can_run_witness:
  "reach (\<lambda>_ _. 1) sample_sched \<and> fst (tryNext sample_sched) \<noteq> None \<and>
   (\<exists>k l. mget (lanes sample_sched) k = Some l \<and> canRun l)"
proof -
  have "fst (tryNext sample_sched) \<noteq> None" by code_simp
  with idle_iff_no_lane_can_run [OF sample_reach] show ?thesis using sample_reach by blast
qed

subsection \<open>Every job is held once\<close>

text \<open>
  C5: The scheduler holds each job at most once: two waiting entries with the same job id are the
  same entry of the same lane, and a job that is handed out is waiting in no lane.
\<close>

theorem job_held_once:
  assumes "reach lim s" "mget (lanes s) k = Some l" "x \<in> set (queue l)"
  shows "(\<forall>k' l' y. mget (lanes s) k' = Some l' \<and> y \<in> set (queue l') \<and> jobID (store s y) = jobID (store s x) \<longrightarrow>
           k' = k \<and> y = x) \<and>
         (\<forall>h. mget (tracked s) (jobID (store s x)) = Some h \<longrightarrow> \<not> running h) \<and> distinct (queue l)"
proof -
  have inv: "sched_inv s" using reach_inv assms(1) by blast
  note x = inv_waiting [OF inv assms(2,3)]
  have "distinct (queue l)"
    using inv_lane(2) [of None s k l] inv assms(2) by (simp add: sched_inv_def lane_queue_def)
  moreover have "k' = k \<and> y = x"
    if "mget (lanes s) k' = Some l'" "y \<in> set (queue l')" "jobID (store s y) = jobID (store s x)" for k' l' y
  proof -
    have "Some \<lparr>held_job = y, running = False\<rparr> = Some \<lparr>held_job = x, running = False\<rparr>"
      using inv_waiting(1) [OF inv that(1,2)] x(1) that(3) by argo
    then have "y = x" by simp
    moreover from this have "k' = k" using inv_waiting(2) [OF inv that(1,2)] x(2) by metis
    ultimately show ?thesis by simp
  qed
  moreover have "\<not> running h" if "mget (tracked s) (jobID (store s x)) = Some h" for h
    using x(1) that by simp
  ultimately show ?thesis by blast
qed

theorem job_held_once_witness:
  "1 \<in> set (queue (the (mget (lanes sample_sched) ''ch/a''))) \<and> distinct (queue (the (mget (lanes sample_sched) ''ch/a'')))"
proof -
  have a: "mget (lanes sample_sched) ''ch/a'' = Some (the (mget (lanes sample_sched) ''ch/a''))"
    "1 \<in> set (queue (the (mget (lanes sample_sched) ''ch/a'')))" by code_simp+
  from job_held_once [OF sample_reach a] a(2) show ?thesis by blast
qed

text \<open>
  Offering a job the scheduler already holds is refused; nothing is queued a second time, and a copy
  that is refreshed keeps its place in its lane.
\<close>

lemma enqueue_duplicate:
  assumes "mget (tracked s) (jobID (store s r)) = Some held"
  shows "\<exists>s'. enqueue r s = Some (False, s') \<and> lanes s' = lanes s \<and> tracked s' = tracked s \<and> ready s' = ready s"
proof -
  have "\<exists>s'. enqueue_locked r s = Some (False, s') \<and> lanes s' = lanes s \<and> tracked s' = tracked s \<and> ready s' = ready s"
    by (cases "\<not> running held \<and> RetryAttemptCount (Data (store s r)) > RetryAttemptCount (Data (store s (held_job held)))")
      (use assms in \<open>simp_all add: enqueue_locked_def Let_def\<close>)
  then show ?thesis by (force simp: enqueue_def)
qed

subsection \<open>Gauges and lanes follow the jobs\<close>

text \<open>
  C6: In every reachable state the queue gauge equals the number of waiting jobs, and the gauges of
  each consumer equal the length of its lane's queue and the number of slots it uses; both are zero
  for a consumer without a lane.
\<close>

theorem gauges_exact:
  assumes "reach lim s" "CHR ''/'' \<notin> set ch"
  shows "QueuedJobCount (metrics s) = int (queuedLen s) \<and>
    ConsumerQueuedJobCount (metrics s) (ch, co) = lane_gauge (\<lambda>l. length (queue l)) s (ch, co) \<and>
    ConsumerInflightJobCount (metrics s) (ch, co) = int (running_in (store s) (tracked s) (ch @ ''/'' @ co))"
proof -
  have g: "gauges_ok s" and inv: "sched_inv s" using reach_inv assms(1) by blast+
  note inv' = inv [unfolded sched_inv_def]
  have "lane_gauge inflight s (ch, co) = int (running_in (store s) (tracked s) (ch @ ''/'' @ co))"
  proof (cases "mget (lanes s) (ch @ ''/'' @ co)")
    case None
    then have "running_in (store s) (tracked s) (ch @ ''/'' @ co) = 0"
      using inv_wf [OF inv'] inv_held [OF inv'] by (intro running_in_zero) (fastforce simp: held_ok_def)+
    with None show ?thesis by (simp add: lane_gauge_opt)
  next
    case (Some l)
    with inv_lane(3) [OF inv' Some] show ?thesis by (simp add: lane_gauge_opt)
  qed
  with g assms(2) show ?thesis by (simp add: gauges_ok_def)
qed

theorem gauges_exact_witness:
  "QueuedJobCount (metrics sample_sched) = 3 \<and> ConsumerInflightJobCount (metrics sample_sched) (''ch'', ''a'') = 0"
proof -
  have "queuedLen sample_sched = 3" "running_in (store sample_sched) (tracked sample_sched) (''ch'' @ ''/'' @ ''a'') = 0"
    by code_simp+
  with gauges_exact [OF sample_reach, of "''ch''" "''a''"] show ?thesis by simp
qed

text \<open>
  C7: Lanes do not outlive their work: every lane in the map has a job waiting or running, so a
  scheduler that holds no job has no lane left and an empty ready list.
\<close>

theorem lanes_released:
  assumes "reach lim s"
  shows "(\<forall>k l. mget (lanes s) k = Some l \<longrightarrow> queue l \<noteq> [] \<or> inflight l > 0) \<and>
         (tracked s = [] \<longrightarrow> lanes s = [] \<and> ready s = [])"
proof -
  have inv: "sched_inv s" using reach_inv assms by blast
  note inv' = inv [unfolded sched_inv_def]
  have live: "queue l \<noteq> [] \<or> inflight l > 0" if "mget (lanes s) k = Some l" for k l
    using inv_lane(4) [OF inv' that] by (simp add: lane_live_def)
  have "lanes s = [] \<and> ready s = []" if t: "tracked s = []"
  proof -
    have "mget (lanes s) k = None" for k
    proof (rule ccontr)
      assume "mget (lanes s) k \<noteq> None"
      then obtain l where l: "mget (lanes s) k = Some l" by auto
      then have "queue l = []" using inv_waiting(1) [OF inv l] t by (cases "queue l") auto
      moreover have "inflight l = 0" using inv_lane(3) [OF inv' l] t by (simp add: running_in_def)
      ultimately show False using live [OF l] by simp
    qed
    then have "lanes s = []" by (metis mkeys_mget ex_in_conv image_is_empty set_empty)
    moreover from this have "ready s = []" using inv_ready [OF inv'] by (cases "ready s") auto
    ultimately show ?thesis by simp
  qed
  with live show ?thesis by blast
qed

theorem lanes_released_witness:
  "mget (lanes sample_sched) ''ch/a'' \<noteq> None \<and>
   length (queue (the (mget (lanes sample_sched) ''ch/a''))) + inflight (the (mget (lanes sample_sched) ''ch/a'')) > 0"
proof -
  have "mget (lanes sample_sched) ''ch/a'' \<noteq> None" by code_simp
  with lanes_released [OF sample_reach] show ?thesis by auto
qed

subsection \<open>Round robin\<close>

text \<open>\<open>nth_served n s\<close> is the job the call number \<open>n\<close> (from 0) of \<^verbatim>\<open>tryNext\<close> returns.\<close>

primrec nth_served :: "nat \<Rightarrow> laneScheduler \<Rightarrow> job_ref option" where
  "nth_served 0 s = fst (tryNext s)"
| "nth_served (Suc n) s = nth_served n (snd (tryNext s))"

lemma ready_after_serve:
  "\<exists>zs. ready (markReadyLocked key (served key b l r q s)) = take b (ready s) @ drop (Suc b) (ready s) @ zs"
  by (auto simp: markReadyLocked_def split: option.splits)

lemma next_priority_after:
  assumes inv: "sched_inv s" and l: "mget (lanes s) key = Some l" and sub: "set q \<subseteq> set (queue l)"
    and least: "\<forall>x\<in>set (queue l). \<not> jobs_Less (store s) x r"
    and np: "next_priority (store s) (lanes s) key = Priority (store s r)"
  shows "k \<noteq> key \<Longrightarrow> next_priority (store s) (lanes (markReadyLocked key (served key b l r q s))) k =
      next_priority (store s) (lanes s) k"
    and "queue (the (mget (lanes (markReadyLocked key (served key b l r q s))) key)) \<noteq> [] \<Longrightarrow>
      next_priority (store s) (lanes (markReadyLocked key (served key b l r q s))) key \<le>
      next_priority (store s) (lanes s) key"
proof -
  let ?s = "markReadyLocked key (served key b l r q s)"
  have q: "queue (the (mget (lanes ?s) key)) = q" "mget (lanes ?s) key \<noteq> None"
    by (auto simp: markReadyLocked_def)
  have o: "mget (lanes ?s) k = mget (lanes s) k" if "k \<noteq> key" for k
    using that by (auto simp: markReadyLocked_def)
  show "k \<noteq> key \<Longrightarrow> next_priority (store s) (lanes ?s) k = next_priority (store s) (lanes s) k"
    using o by (simp add: next_priority_def)
  assume ne: "queue (the (mget (lanes ?s) key)) \<noteq> []"
  then have "q ! 0 \<in> set (queue l)" using sub q by auto
  then have "\<not> jobs_Less (store s) (q ! 0) r" using least by blast
  then have "Priority (store s (q ! 0)) \<le> Priority (store s r)" by (auto simp: jobs_Less_def Less_def split: if_splits)
  then show "next_priority (store s) (lanes ?s) key \<le> next_priority (store s) (lanes s) key"
    using q ne np by (auto simp: next_priority_def Peek_def split: option.splits)
qed

lemma round_robin_aux:
  assumes "sched_inv s" "i < length (ready s)"
    "\<forall>k\<in>set (ready s). next_priority (store s) (lanes s) k \<le> next_priority (store s) (lanes s) (ready s ! i)"
  shows "\<exists>n\<le>i. \<exists>r. nth_served n s = Some r \<and> lkey (store s r) = ready s ! i"
  using assms
proof (induction i arbitrary: s rule: less_induct)
  case (less i)
  note inv = less.prems(1)
  obtain r s' where t: "tryNext s = (Some r, s')"
    using inv by (cases rule: tryNext_cases) (use less.prems(2) in auto)
  from served_job [OF inv t] obtain b l q p where
    b: "best_ok (next_priority (store s) (lanes s)) (ready s) (Some b) p"
    and l: "mget (lanes s) (ready s ! b) = Some l" "r \<in> set (queue l)"
      "\<forall>x\<in>set (queue l). \<not> jobs_Less (store s) x r" "set q \<subseteq> set (queue l)"
      "next_priority (store s) (lanes s) (ready s ! b) = Priority (store s r)"
    and s': "s' = markReadyLocked (ready s ! b) (served (ready s ! b) b l r q s)" by blast
  let ?np = "next_priority (store s) (lanes s)" and ?K = "ready s ! i"
  have bl: "b < length (ready s)" "?np (ready s ! b) = p" "\<forall>j<b. ?np (ready s ! j) < p"
    using b by (simp_all add: best_ok_def)
  have "p \<le> ?np ?K" using less.prems(3) bl by auto
  then have "b \<le> i" using bl(3) by (metis leI linorder_not_less)
  show ?case
  proof (cases "b = i")
    case True
    then have "lkey (store s r) = ?K" using inv_waiting(2) [OF inv l(1,2)] by simp
    with t show ?thesis by (intro exI [of _ 0]) simp
  next
    case False
    with \<open>b \<le> i\<close> have bi: "b < i" by simp
    have dist: "distinct (ready s)" using inv_wf inv by (simp add: sched_inv_def)
    then have ne: "?K \<noteq> ready s ! b" using bi less.prems(2) bl(1) by (simp add: nth_eq_iff_index_eq)
    have inv2: "sched_inv s'" using tryNext_inv [OF inv] t by simp
    have st: "store s' = store s" unfolding s' by simp
    obtain zs where rdy: "ready s' = take b (ready s) @ drop (Suc b) (ready s) @ zs"
      using ready_after_serve s' by blast
    have pos: "i - 1 < length (ready s')" "ready s' ! (i - 1) = ?K"
      using bi less.prems(2) bl(1) by (auto simp: rdy nth_append)
    have mx: "next_priority (store s') (lanes s') k \<le> next_priority (store s') (lanes s') ?K"
      if k: "k \<in> set (ready s')" for k
    proof (cases "k = ready s ! b")
      case True
      obtain l' where l': "mget (lanes s') k = Some l'" "canRun l'" using inv_ready_runs [OF inv2 k] by blast
      then have "queue (the (mget (lanes s') (ready s ! b))) \<noteq> []" using True by (simp add: canRun_def)
      from next_priority_after(2) [OF inv l(1,4,3,5) this [unfolded s']]
      have "next_priority (store s) (lanes s') k \<le> ?np (ready s ! b)" using True s' by simp
      also have "\<dots> \<le> ?np ?K" using bl(2) \<open>p \<le> ?np ?K\<close> by simp
      also have "\<dots> = next_priority (store s) (lanes s') ?K"
        using next_priority_after(1) [OF inv l(1,4,3,5) ne] s' by simp
      finally show ?thesis by (simp add: st)
    next
      case False
      then have "k \<in> set (ready s)"
      proof -
        obtain l' where l': "mget (lanes s') k = Some l'" "is_ready l'"
          using k inv_ready [of None s' k] inv2 by (auto simp: sched_inv_def)
        have "mget (lanes s) k = Some l'" using l'(1) False by (auto simp: s' markReadyLocked_def split: if_splits)
        with l'(2) inv show ?thesis using inv_ready [of None s k] by (auto simp: sched_inv_def)
      qed
      then have "?np k \<le> ?np ?K" using less.prems(3) by blast
      then show ?thesis
        using next_priority_after(1) [OF inv l(1,4,3,5), of k b] next_priority_after(1) [OF inv l(1,4,3,5) ne, of b] False
        by (simp add: st s' [symmetric])
    qed
    have "i - 1 < i" using bi by simp
    from less.IH [OF this inv2 pos(1)] mx pos(2) st obtain n r' where
      n: "n \<le> i - 1" "nth_served n s' = Some r'" "lkey (store s r') = ?K" by auto
    then have "Suc n \<le> i" "nth_served (Suc n) s = Some r'" using bi t by simp_all
    with n(3) show ?thesis by blast
  qed
qed

text \<open>
  C8: Lanes whose next jobs share the highest priority are served in round-robin order: a lane at
  position \<open>i\<close> of the ready list, none of whose competitors has a next job of higher priority, is
  served by one of the next \<open>i + 1\<close> calls, however many jobs the lanes ahead of it hold.
\<close>

theorem round_robin:
  assumes "reach lim s" "i < length (ready s)"
    "\<forall>k\<in>set (ready s). next_priority (store s) (lanes s) k \<le> next_priority (store s) (lanes s) (ready s ! i)"
  shows "\<exists>n\<le>i. \<exists>r. nth_served n s = Some r \<and> lkey (store s r) = ready s ! i"
  using round_robin_aux reach_inv assms by blast

theorem round_robin_witness:
  "\<exists>n\<le>1. \<exists>r. nth_served n sample_sched = Some r \<and> lkey (store sample_sched r) = ''ch/b''"
proof -
  have "1 < length (ready sample_sched)"
    "\<forall>k\<in>set (ready sample_sched). next_priority (store sample_sched) (lanes sample_sched) k
       \<le> next_priority (store sample_sched) (lanes sample_sched) (ready sample_sched ! 1)"
    "ready sample_sched ! 1 = ''ch/b''" by code_simp+
  from round_robin [OF sample_reach this(1,2)] this(3) show ?thesis by simp
qed

subsection \<open>No wake-up is lost\<close>

text \<open>
  The loop of \<^verbatim>\<open>next\<close> beside the goroutines that enqueue jobs and report them done.
  \<open>Trying\<close> is the loop before its call of \<^verbatim>\<open>tryNext\<close>, \<open>Waiting\<close> is the loop in its
  \<^verbatim>\<open>select\<close> on the wake channel (a channel of capacity 1), \<open>Returned\<close> is the loop between two
  calls.  \<open>pending\<close> counts the goroutines that have unlocked the scheduler and not yet sent their
  signal.
\<close>

datatype next_pc = Trying | Waiting | Returned "job_ref option"

record assigner =
  sched :: laneScheduler
  pending :: nat
  pc :: next_pc

inductive next_step :: "assigner \<Rightarrow> assigner \<Rightarrow> bool" where
  wk_enqueue:
    "(\<And>jid h. mget (tracked (sched a)) jid = Some h \<Longrightarrow> held_job h \<noteq> r) \<Longrightarrow>
     laneIdentity (NewJob dj) = Some (ch, co, key) \<Longrightarrow> CHR ''/'' \<notin> set ch \<Longrightarrow>
     (\<And>h. mget (tracked (sched a)) (ID dj) = Some h \<Longrightarrow> lkey (store (sched a) (held_job h)) = key) \<Longrightarrow>
     enqueue_locked r ((sched a)\<lparr>store := (store (sched a))(r := NewJob dj)\<rparr>) = Some (b, s') \<Longrightarrow>
     next_step a (a\<lparr>sched := s', pending := pending a + (if b then 1 else 0)\<rparr>)"
| wk_done:
    "mget (tracked (sched a)) jid = Some \<lparr>held_job = r, running = True\<rparr> \<Longrightarrow>
     done_locked r (sched a) = Some s' \<Longrightarrow> next_step a (a\<lparr>sched := s', pending := pending a + 1\<rparr>)"
| wk_signal:
    "pending a > 0 \<Longrightarrow> next_step a (a\<lparr>sched := signal (sched a), pending := pending a - 1\<rparr>)"
| wk_call: "pc a = Returned x \<Longrightarrow> next_step a (a\<lparr>pc := Trying\<rparr>)"
| wk_found:
    "pc a = Trying \<Longrightarrow> tryNext (sched a) = (Some r, s') \<Longrightarrow>
     next_step a (a\<lparr>sched := s', pc := Returned (Some r)\<rparr>)"
| wk_idle:
    "pc a = Trying \<Longrightarrow> tryNext (sched a) = (None, s') \<Longrightarrow> next_step a (a\<lparr>sched := s', pc := Waiting\<rparr>)"
| wk_wake:
    "pc a = Waiting \<Longrightarrow> wake (sched a) \<Longrightarrow>
     next_step a (a\<lparr>sched := (sched a)\<lparr>wake := False\<rparr>, pc := Trying\<rparr>)"

inductive assign_reach :: "(string \<Rightarrow> string \<Rightarrow> nat) \<Rightarrow> assigner \<Rightarrow> bool" for lim where
  assign_init: "assign_reach lim \<lparr>sched = newLaneScheduler lim no_metrics st, pending = 0, pc = Trying\<rparr>"
| assign_step: "assign_reach lim a \<Longrightarrow> next_step a a' \<Longrightarrow> assign_reach lim a'"

lemma next_step_sched: "next_step a a' \<Longrightarrow> sched a' = sched a \<or> sched_step (sched a) (sched a')"
proof (induction rule: next_step.induct)
  case (wk_enqueue a r dj ch co key b s')
  then have "sched_step (sched a) s'" by (rule step_enqueue)
  then show ?case by simp
qed (auto intro: step_next step_done step_signal step_wake)

lemma assign_reach_sched: "assign_reach lim a \<Longrightarrow> reach lim (sched a)"
proof (induction rule: assign_reach.induct)
  case (assign_init st)
  then show ?case by (simp add: reach_init no_metrics_def)
next
  case (assign_step a a')
  then show ?case using next_step_sched reach_step by metis
qed

lemma refused_ready:
  "enqueue_locked r (s\<lparr>store := (store s)(r := j)\<rparr>) = Some (False, s') \<Longrightarrow> ready s' = ready s"
  by (auto simp: enqueue_locked_def Let_def split: option.splits if_splits prod.splits)

lemma wake_inv:
  "assign_reach lim a \<Longrightarrow> pc a = Waiting \<Longrightarrow> ready (sched a) = [] \<or> wake (sched a) \<or> pending a > 0"
proof (induction rule: assign_reach.induct)
  case (assign_step a a')
  have inv: "sched_inv (sched a)" using reach_inv assign_reach_sched assign_step(1) by blast
  from assign_step(2) show ?case
  proof cases
    case (wk_enqueue r dj ch co key b s')
    with assign_step show ?thesis
      using refused_ready [of r "sched a" "NewJob dj" s'] by (cases b)
        (auto simp: enqueue_locked_def Let_def split: option.splits if_splits prod.splits)
  next
    case (wk_idle s')
    from inv have "ready (sched a) = []" "s' = sched a"
      by (cases rule: tryNext_cases; use wk_idle in simp)+
    with wk_idle show ?thesis by simp
  qed (use assign_step in \<open>auto simp: signal_def\<close>)
qed simp

text \<open>
  C9: No wake-up is lost.  Whenever the assigning loop is blocked in \<^verbatim>\<open>next\<close> although some
  consumer has a waiting job and room, the wake channel is full or a goroutine is about to fill it,
  so the loop will run again.
\<close>

theorem no_lost_wakeup:
  assumes "assign_reach lim a" "pc a = Waiting" "mget (lanes (sched a)) k = Some l" "canRun l"
  shows "wake (sched a) \<or> pending a > 0"
proof -
  have inv: "sched_inv (sched a)" using reach_inv assign_reach_sched assms(1) by blast
  note inv' = inv [unfolded sched_inv_def]
  have "k \<in> set (ready (sched a))"
    using inv_ready [OF inv', of k] inv_lane(4) [OF inv' assms(3)] assms(3,4) by (simp add: lane_live_def)
  with wake_inv [OF assms(1,2)] show ?thesis by auto
qed

definition sample_waiting :: assigner where
  "sample_waiting =
     \<lparr>sched = sample_enqueue 0 (sample_dj ''j0'' ''a'' 1)
        (newLaneScheduler (\<lambda>_ _. 1) no_metrics (\<lambda>_. NewJob (sample_dj '''' '''' 0))), pending = 1, pc = Waiting\<rparr>"

lemma sample_waiting_reach: "assign_reach (\<lambda>_ _. 1) sample_waiting"
proof -
  let ?s = "newLaneScheduler (\<lambda>_ _. 1) no_metrics (\<lambda>_. NewJob (sample_dj '''' '''' 0))"
  let ?a = "\<lparr>sched = ?s, pending = 0, pc = Waiting\<rparr>"
  have "tryNext ?s = (None, ?s)" by (simp add: tryNext_def newLaneScheduler_def)
  then have "next_step \<lparr>sched = ?s, pending = 0, pc = Trying\<rparr> ?a"
    using wk_idle [of "\<lparr>sched = ?s, pending = 0, pc = Trying\<rparr>" ?s] by simp
  then have "assign_reach (\<lambda>_ _. 1) ?a" using assign_init assign_step by blast
  moreover have "next_step ?a sample_waiting"
  proof -
    let ?e = "enqueue_locked 0 (?s\<lparr>store := (store ?s)(0 := NewJob (sample_dj ''j0'' ''a'' 1))\<rparr>)"
    have e: "?e = Some (True, sched sample_waiting)"
      unfolding sample_waiting_def sample_enqueue_def
      by (simp add: newLaneScheduler_def enqueue_locked_def Let_def sample_identity split_beta)
    have "next_step ?a (?a\<lparr>sched := sched sample_waiting, pending := pending ?a + (if True then 1 else 0)\<rparr>)"
      by (rule wk_enqueue [where r = 0 and dj = "sample_dj ''j0'' ''a'' 1" and ch = "''ch''" and co = "''a''"
            and key = "''ch/a''"]) (use e in \<open>auto simp: newLaneScheduler_def sample_identity\<close>)
    then show ?thesis by (simp add: sample_waiting_def)
  qed
  ultimately show ?thesis by (rule assign_step)
qed

theorem no_lost_wakeup_witness: "wake (sched sample_waiting) \<or> pending sample_waiting > 0"
proof -
  have a: "mget (lanes (sched sample_waiting)) ''ch/a'' = Some (the (mget (lanes (sched sample_waiting)) ''ch/a''))"
    "canRun (the (mget (lanes (sched sample_waiting)) ''ch/a''))" by code_simp+
  show ?thesis by (rule no_lost_wakeup [OF sample_waiting_reach _ a]) (simp add: sample_waiting_def)
qed

subsection \<open>Stopping\<close>

text \<open>
  C10: Stopping drops exactly the waiting jobs: afterwards no job waits and the queue gauges are
  zero, the jobs still running stay tracked, and their lanes keep the slots they use until the
  workers report them done.
\<close>

theorem discard_keeps_running_jobs:
  assumes "reach lim s" "CHR ''/'' \<notin> set ch"
  shows "queuedLen (discardQueued s) = 0 \<and> ready (discardQueued s) = [] \<and>
    QueuedJobCount (metrics (discardQueued s)) = 0 \<and>
    ConsumerQueuedJobCount (metrics (discardQueued s)) (ch, co) = 0 \<and>
    (\<forall>jid h. mget (tracked (discardQueued s)) jid = Some h \<longleftrightarrow> mget (tracked s) jid = Some h \<and> running h) \<and>
    (\<forall>k. running_in (store s) (tracked (discardQueued s)) k = running_in (store s) (tracked s) k)"
proof -
  have inv: "sched_inv s" using reach_inv assms(1) by blast
  note inv' = inv [unfolded sched_inv_def]
  have r: "reach lim (discardQueued s)" using assms(1) step_discard by (rule reach_step)
  have q0: "queuedLen (discardQueued s) = 0"
    using inv by (cases rule: discardQueued_cases) (auto simp: queuedLen_def discarded_def msum_def)
  have g: "gauges_ok (discardQueued s)" using reach_inv r by blast
  have l0: "lane_gauge (\<lambda>l. length (queue l)) (discardQueued s) (ch, co) = 0"
    using inv by (cases rule: discardQueued_cases)
      (use inv_wf [OF inv'] in \<open>auto simp: lane_gauge_opt mget_discarded split: option.splits\<close>)
  have w: "jid \<in> queued_ids (store s) (lanes s) \<longleftrightarrow> \<not> running h" if h: "mget (tracked s) jid = Some h" for jid h
  proof
    assume "jid \<in> queued_ids (store s) (lanes s)"
    then obtain k l x where "(k, l) \<in> set (lanes s)" "x \<in> set (queue l)" "jid = jobID (store s x)"
      by (auto simp: queued_ids_def)
    with inv_waiting(1) [OF inv, of k l x] inv_wf [OF inv'] h show "\<not> running h" by (auto simp: mget_in_set)
  next
    assume "\<not> running h"
    with inv_held [OF inv' h] show "jid \<in> queued_ids (store s) (lanes s)"
      by (auto simp: held_ok_def queued_ids_def dest!: map_of_SomeD)
  qed
  show ?thesis
    using inv
  proof (cases rule: discardQueued_cases)
    case (1 tr m)
    have "mget tr jid = Some h \<longleftrightarrow> mget (tracked s) jid = Some h \<and> running h" for jid h
      using 1(3) [of jid] w [of jid h] by auto
    with 1 q0 g l0 assms(2) show ?thesis by (simp add: gauges_ok_def)
  qed
qed

theorem discard_keeps_running_jobs_witness:
  "queuedLen sample_sched = 3 \<and> queuedLen (discardQueued sample_sched) = 0"
proof -
  have "queuedLen sample_sched = 3" by code_simp
  with discard_keeps_running_jobs [OF sample_reach, of "''ch''"] show ?thesis by simp
qed

end
