(* ===== verification/Rdbms.thy ===== *)
theory Rdbms
  imports Data_Model
begin

section \<open>Transactions, statements and pages: storage/rdbms.go\<close>

text \<open>
  The database is a parameter type \<open>'d\<close>.  A call of a repository gets a \<open>dbenv\<close>: the dialect, the
  reading of the clock, and the faults the driver reports during that call (on \<^verbatim>\<open>Begin\<close>, on
  the n-th statement, on \<^verbatim>\<open>Commit\<close>).  Nothing is assumed of these faults, so a theorem that
  quantifies over the environment holds whatever the network and the database server do.  A failed
  \<^verbatim>\<open>Commit\<close> may or may not have been applied by the server (\<open>commit_applied\<close>).  Isolation is
  that of serialised transactions: a transaction is one step of the model.

  SQL statements are functions on lists of rows: \<open>sql_update\<close> counts changed rows on MySQL and
  matched rows on SQLite, \<open>sql_like\<close> is the \<^verbatim>\<open>LIKE\<close> operator with its wildcards, and
  \<open>select_page\<close> is the query built by \<^verbatim>\<open>getPaginationQueryFragment...\<close>.  String comparison is
  case sensitive.  A DATETIME column of MySQL keeps whole seconds (\<open>dt\<close>).
\<close>

subsection \<open>The environment of a call\<close>

datatype dialect = MySQLDialect | SQLite3Dialect

datatype fault = Fail error | Panic

record dbenv =
  env_dialect :: dialect
  now :: time
  begin_err :: "error option"
  exec_fault :: "nat \<Rightarrow> fault option"
  commit_err :: "error option"
  commit_applied :: bool

definition calm :: "dialect \<Rightarrow> time \<Rightarrow> dbenv" where
  "calm d t = \<lparr>env_dialect = d, now = t, begin_err = None, exec_fault = (\<lambda>_. None),
               commit_err = None, commit_applied = True\<rparr>"

definition quiet :: "dbenv \<Rightarrow> bool" where
  "quiet env \<longleftrightarrow> begin_err env = None \<and> exec_fault env = (\<lambda>_. None) \<and> commit_err env = None"

lemma quiet_calm [simp]: "quiet (calm d t)" "now (calm d t) = t" "env_dialect (calm d t) = d"
  by (simp_all add: quiet_def calm_def)

definition dt :: "dbenv \<Rightarrow> time \<Rightarrow> time" where
  "dt env t = (case env_dialect env of
                 MySQLDialect \<Rightarrow> ((t + 500 * millisecond) div second) * second
               | SQLite3Dialect \<Rightarrow> t)"

lemma dt_idem [simp]: "dt env (dt env t) = dt env t"
proof (cases "env_dialect env")
  case MySQLDialect
  have "((q * 1000000000 + 500000000) div 1000000000) * 1000000000 = q * 1000000000" for q :: int
    by simp
  with MySQLDialect show ?thesis by (simp add: dt_def)
qed (simp add: dt_def)

lemma dt_mono: "s \<le> t \<Longrightarrow> dt env s \<le> dt env t"
  by (cases "env_dialect env") (simp_all add: dt_def zdiv_mono1)

lemma dt_close: "t - 500 * millisecond \<le> dt env t" "dt env t \<le> t + 500 * millisecond"
proof -
  have m: "0 \<le> (t + 500000000) mod 1000000000" "(t + 500000000) mod 1000000000 < 1000000000"
    by simp_all
  have "((t + 500000000) div 1000000000) * 1000000000 = t + 500000000 - (t + 500000000) mod 1000000000"
    by (simp add: minus_mod_eq_div_mult)
  with m have "t - 500000000 \<le> ((t + 500000000) div 1000000000) * 1000000000"
    "((t + 500000000) div 1000000000) * 1000000000 \<le> t + 500000000" by linarith+
  then show "t - 500 * millisecond \<le> dt env t" "dt env t \<le> t + 500 * millisecond"
    by (cases "env_dialect env"; simp add: dt_def)+
qed

subsection \<open>Transactions\<close>

datatype 'd tx_outcome = TxOk 'd | TxErr error | TxPanic

text \<open>
  \<open>txOps\<close> is the closure passed to \<^verbatim>\<open>transactionalOperations\<close>; besides the outcome it gives the final
  value of the variable it captures (\<^verbatim>\<open>rowsAffected\<close>, \<^verbatim>\<open>moved\<close>, \<^verbatim>\<open>rows\<close>), which a rollback does not
  reset.  A panic is recovered: the transaction is rolled back and the named result \<^verbatim>\<open>err\<close> is still
  nil.
\<close>

definition transactionalOperations ::
  "dbenv \<Rightarrow> ('d \<Rightarrow> 'd tx_outcome \<times> 'x) \<Rightarrow> 'x \<Rightarrow> 'd \<Rightarrow> ('x \<times> error option) \<times> 'd" where
  "transactionalOperations env txOps x0 d =
     (case begin_err env of
        Some e \<Rightarrow> ((x0, Some e), d)
      | None \<Rightarrow>
          (case txOps d of
             (TxOk d', x) \<Rightarrow>
               (case commit_err env of
                  None \<Rightarrow> ((x, None), d')
                | Some e \<Rightarrow> ((x, Some e), if commit_applied env then d' else d))
           | (TxErr e, x) \<Rightarrow> ((x, Some e), d)
           | (TxPanic, x) \<Rightarrow> ((x, None), d)))"

text \<open>
  A statement returns a driver error, or the number of rows it affected and the new database; the
  \<open>n\<close>-th statement of a call fails when the environment says so.
\<close>

type_synonym 'd stmt = "'d \<Rightarrow> error + (nat \<times> 'd)"

definition tx_Exec :: "dbenv \<Rightarrow> nat \<Rightarrow> 'd stmt \<Rightarrow> 'd \<Rightarrow> (nat \<times> 'd) tx_outcome" where
  "tx_Exec env n st d =
     (case exec_fault env n of
        Some Panic \<Rightarrow> TxPanic
      | Some (Fail e) \<Rightarrow> TxErr e
      | None \<Rightarrow> (case st d of Inl e \<Rightarrow> TxErr e | Inr r \<Rightarrow> TxOk r))"

definition inTransactionExec :: "dbenv \<Rightarrow> nat \<Rightarrow> 'd stmt \<Rightarrow> nat \<Rightarrow> 'd \<Rightarrow> 'd tx_outcome" where
  "inTransactionExec env n st expectedRowEffected d =
     (case tx_Exec env n st d of
        TxPanic \<Rightarrow> TxPanic
      | TxErr e \<Rightarrow> TxErr e
      | TxOk (rowsAffected, d') \<Rightarrow>
          if expectedRowEffected > 0 \<and> rowsAffected \<noteq> expectedRowEffected then TxErr ErrNoRowsUpdated
          else TxOk d')"

fun run_ops :: "('d \<Rightarrow> 'd tx_outcome) list \<Rightarrow> 'd \<Rightarrow> 'd tx_outcome" where
  "run_ops [] d = TxOk d"
| "run_ops (op # ops) d =
     (case op d of TxOk d' \<Rightarrow> run_ops ops d' | TxErr e \<Rightarrow> TxErr e | TxPanic \<Rightarrow> TxPanic)"

definition transactionalWrites ::
  "dbenv \<Rightarrow> ('d \<Rightarrow> 'd tx_outcome) list \<Rightarrow> 'd \<Rightarrow> error option \<times> 'd" where
  "transactionalWrites env ops d =
     (case transactionalOperations env (\<lambda>d. (run_ops ops d, ())) () d of ((_, err), d') \<Rightarrow> (err, d'))"

definition getTxWrapperForSingleWriteQuery :: "dbenv \<Rightarrow> 'd stmt \<Rightarrow> 'd \<Rightarrow> 'd tx_outcome" where
  "getTxWrapperForSingleWriteQuery env st = inTransactionExec env 0 st 1"

definition transactionalSingleRowWriteExec :: "dbenv \<Rightarrow> 'd stmt \<Rightarrow> 'd \<Rightarrow> error option \<times> 'd" where
  "transactionalSingleRowWriteExec env st d =
     transactionalWrites env [getTxWrapperForSingleWriteQuery env st] d"

text \<open>
  A single-statement transaction whose closure keeps the number of affected rows, the shape of
  \<^verbatim>\<open>Resume\<close>, \<^verbatim>\<open>RequeueDeadJobsForConsumer\<close> and the dead-job deletes.
\<close>

definition counting_exec :: "dbenv \<Rightarrow> 'd stmt \<Rightarrow> 'd \<Rightarrow> 'd tx_outcome \<times> nat" where
  "counting_exec env st d =
     (case tx_Exec env 0 st d of
        TxPanic \<Rightarrow> (TxPanic, 0) | TxErr e \<Rightarrow> (TxErr e, 0) | TxOk (n, d') \<Rightarrow> (TxOk d', n))"

text \<open>Reads outside a transaction: the \<open>n\<close>-th query of a call returns rows or a fault.\<close>

definition queryRows :: "dbenv \<Rightarrow> nat \<Rightarrow> 'r list \<Rightarrow> 'r list result" where
  "queryRows env n rows =
     (case exec_fault env n of None \<Rightarrow> Inr rows | Some (Fail e) \<Rightarrow> Inl e
      | Some Panic \<Rightarrow> Inl (IOError ''driver panic''))"

definition querySingleRow :: "dbenv \<Rightarrow> nat \<Rightarrow> 'r list \<Rightarrow> 'r result" where
  "querySingleRow env n rows =
     (case queryRows env n rows of
        Inl e \<Rightarrow> Inl e
      | Inr [] \<Rightarrow> Inl ErrNoRows
      | Inr (r # _) \<Rightarrow> Inr r)"

subsection \<open>dberror_normalizer.go\<close>

definition lookup_error :: "nat \<Rightarrow> (nat, error) gomap \<Rightarrow> error \<Rightarrow> error" where
  "lookup_error number mappedError defaultErr =
     (case mget mappedError number of Some e \<Rightarrow> e | None \<Rightarrow> defaultErr)"

definition normalizeDBError :: "error option \<Rightarrow> (nat, error) gomap \<Rightarrow> error option" where
  "normalizeDBError err mappedError =
     (case err of
        Some (DBError n) \<Rightarrow> Some (lookup_error n mappedError (DBError n))
      | _ \<Rightarrow> err)"

subsection \<open>Statements on a table\<close>

definition sql_update ::
  "dialect \<Rightarrow> ('r \<Rightarrow> bool) \<Rightarrow> ('r \<Rightarrow> 'r) \<Rightarrow> 'r list \<Rightarrow> nat \<times> 'r list" where
  "sql_update d P f rows =
     (length (filter (\<lambda>r. P r \<and> (d = MySQLDialect \<longrightarrow> f r \<noteq> r)) rows),
      map (\<lambda>r. if P r then f r else r) rows)"

definition sql_delete :: "('r \<Rightarrow> bool) \<Rightarrow> 'r list \<Rightarrow> nat \<times> 'r list" where
  "sql_delete P rows = (length (filter P rows), filter (\<lambda>r. \<not> P r) rows)"

text \<open>\<open>clash\<close> says that two rows violate a unique key; \<open>ok\<close> is the foreign key check.\<close>

fun sql_insert ::
  "('r \<Rightarrow> 'r \<Rightarrow> bool) \<Rightarrow> ('r \<Rightarrow> bool) \<Rightarrow> 'r list \<Rightarrow> 'r list \<Rightarrow> error + (nat \<times> 'r list)" where
  "sql_insert clash ok [] rows = Inr (0, rows)"
| "sql_insert clash ok (r # rs) rows =
     (if list_ex (clash r) rows then Inl (DBError 1062)
      else if \<not> ok r then Inl (DBError 1452)
      else (case sql_insert clash ok rs (rows @ [r]) of
              Inl e \<Rightarrow> Inl e
            | Inr (n, rows') \<Rightarrow> Inr (Suc n, rows')))"

text \<open>\<^verbatim>\<open>text LIKE pattern\<close>: percent matches any sequence, underscore any character, and on MySQL a
  backslash escapes the next character of the pattern.\<close>

fun sql_like :: "dialect \<Rightarrow> string \<Rightarrow> string \<Rightarrow> bool" where
  "sql_like d [] s = (s = [])"
| "sql_like d (p # ps) [] = (p = CHR ''%'' \<and> sql_like d ps [])"
| "sql_like d (p # ps) (c # s) =
     (if p = CHR ''%'' then sql_like d ps (c # s) \<or> sql_like d (p # ps) s
      else if p = CHR ''_'' then sql_like d ps s
      else if p = CHR 0x5C \<and> d = MySQLDialect then
        (case ps of [] \<Rightarrow> c = p \<and> s = [] | q # qs \<Rightarrow> c = q \<and> sql_like d qs s)
      else p = c \<and> sql_like d ps s)"

definition plain :: "string \<Rightarrow> bool" where
  "plain p \<longleftrightarrow> list_all (\<lambda>c. c \<noteq> CHR ''%'' \<and> c \<noteq> CHR ''_'' \<and> c \<noteq> CHR 0x5C) p"

lemma sql_like_plain [simp]: "plain p \<Longrightarrow> sql_like d p s \<longleftrightarrow> s = p"
proof (induction p arbitrary: s)
  case (Cons a p)
  then have "plain p" "a \<noteq> CHR ''%''" "a \<noteq> CHR ''_''" "a \<noteq> CHR 0x5C" by (simp_all add: plain_def)
  with Cons.IH show ?case by (cases s) auto
qed simp

subsection \<open>What a transaction can do\<close>

definition no_panic :: "dbenv \<Rightarrow> bool" where
  "no_panic env \<longleftrightarrow> (\<forall>n. exec_fault env n \<noteq> Some Panic)"

lemma quiet_no_panic [simp]: "quiet env \<Longrightarrow> no_panic env"
  by (simp add: quiet_def no_panic_def)

lemma transactionalOperations_atomic:
  "snd (transactionalOperations env ops x d) = d \<or>
   (\<exists>y. ops d = (TxOk (snd (transactionalOperations env ops x d)), y))"
  by (cases "ops d") (auto simp: transactionalOperations_def split: option.splits tx_outcome.splits)

lemma transactionalOperations_ok:
  "transactionalOperations env ops x d = ((y, None), d') \<Longrightarrow>
   ops d = (TxOk d', y) \<or> ops d = (TxPanic, y) \<and> d' = d"
  by (cases "ops d") (auto simp: transactionalOperations_def split: option.splits tx_outcome.splits)

lemma transactionalOperations_err:
  "transactionalOperations env ops x d = ((y, Some e), d') \<Longrightarrow>
   d' = d \<or> ops d = (TxOk d', y) \<and> commit_err env = Some e \<and> commit_applied env"
  by (cases "ops d")
    (auto simp: transactionalOperations_def split: option.splits tx_outcome.splits if_splits)

lemma transactionalOperations_quiet:
  "quiet env \<Longrightarrow> transactionalOperations env ops x d =
     (case ops d of (TxOk d', y) \<Rightarrow> ((y, None), d') | (TxErr e, y) \<Rightarrow> ((y, Some e), d)
      | (TxPanic, y) \<Rightarrow> ((y, None), d))"
  by (cases "ops d") (simp add: transactionalOperations_def quiet_def split: tx_outcome.splits)

lemma transactionalWrites_atomic:
  "snd (transactionalWrites env ops d) = d \<or>
   run_ops ops d = TxOk (snd (transactionalWrites env ops d))"
  using transactionalOperations_atomic [of env "\<lambda>d. (run_ops ops d, ())" "()" d]
  by (auto simp: transactionalWrites_def split: prod.splits)

lemma transactionalWrites_effect:
  "snd (transactionalWrites env ops d) = d \<or>
   (\<exists>d'. run_ops ops d = TxOk d' \<and> snd (transactionalWrites env ops d) = d')"
  using transactionalWrites_atomic [of env ops d] by blast

lemma transactionalWrites_ok:
  "transactionalWrites env ops d = (None, d') \<Longrightarrow>
   run_ops ops d = TxOk d' \<or> run_ops ops d = TxPanic \<and> d' = d"
  using transactionalOperations_ok [of env "\<lambda>d. (run_ops ops d, ())" "()" d "()" d']
  by (auto simp: transactionalWrites_def split: prod.splits)

lemma transactionalWrites_quiet:
  "quiet env \<Longrightarrow> transactionalWrites env ops d =
     (case run_ops ops d of TxOk d' \<Rightarrow> (None, d') | TxErr e \<Rightarrow> (Some e, d) | TxPanic \<Rightarrow> (None, d))"
  by (simp add: transactionalWrites_def transactionalOperations_quiet split: tx_outcome.splits)

lemma inTransactionExec_ok:
  "inTransactionExec env n st k d = TxOk d' \<Longrightarrow>
   \<exists>rows. st d = Inr (rows, d') \<and> (k > 0 \<longrightarrow> rows = k) \<and> exec_fault env n = None"
  by (auto simp: inTransactionExec_def tx_Exec_def
      split: option.splits fault.splits sum.splits tx_outcome.splits prod.splits if_splits)

lemma inTransactionExec_no_panic: "no_panic env \<Longrightarrow> inTransactionExec env n st k d \<noteq> TxPanic"
  by (auto simp: inTransactionExec_def tx_Exec_def no_panic_def
      split: option.splits fault.splits sum.splits tx_outcome.splits prod.splits if_splits)

lemma inTransactionExec_quiet:
  "quiet env \<Longrightarrow> inTransactionExec env n st k d =
     (case st d of Inl e \<Rightarrow> TxErr e
      | Inr (rows, d') \<Rightarrow> if k > 0 \<and> rows \<noteq> k then TxErr ErrNoRowsUpdated else TxOk d')"
  by (simp add: inTransactionExec_def tx_Exec_def quiet_def split: sum.splits)

lemma run_ops_single [simp]: "run_ops [op] d = op d"
  by (cases "op d") simp_all

lemma single_write_atomic:
  "snd (transactionalSingleRowWriteExec env st d) = d \<or>
   st d = Inr (1, snd (transactionalSingleRowWriteExec env st d))"
proof -
  have "inTransactionExec env 0 st 1 d = TxOk d' \<Longrightarrow> st d = Inr (1, d')" for d'
    using inTransactionExec_ok [of env 0 st 1 d d'] by auto
  then show ?thesis
    using transactionalWrites_atomic [of env "[inTransactionExec env 0 st 1]" d]
    by (auto simp: transactionalSingleRowWriteExec_def getTxWrapperForSingleWriteQuery_def
        simp del: run_ops.simps(2))
qed

lemma single_write_effect:
  "snd (transactionalSingleRowWriteExec env st d) = d \<or>
   (\<exists>d'. st d = Inr (1, d') \<and> snd (transactionalSingleRowWriteExec env st d) = d')"
  using single_write_atomic [of env st d] by blast

text \<open>A property that the statements keep is kept by the transaction, whatever faults occur.\<close>

lemma transactionalOperations_inv:
  "P d \<Longrightarrow> (\<And>d' y. ops d = (TxOk d', y) \<Longrightarrow> P d') \<Longrightarrow> P (snd (transactionalOperations env ops x d))"
  using transactionalOperations_atomic [of env ops x d] by metis

lemma transactionalWrites_inv:
  "P d \<Longrightarrow> (\<And>d'. run_ops ops d = TxOk d' \<Longrightarrow> P d') \<Longrightarrow> P (snd (transactionalWrites env ops d))"
  using transactionalWrites_effect [of env ops d] by metis

lemma single_write_inv:
  "P d \<Longrightarrow> (\<And>d'. st d = Inr (1, d') \<Longrightarrow> P d') \<Longrightarrow> P (snd (transactionalSingleRowWriteExec env st d))"
  using single_write_effect [of env st d] by metis

lemma single_write_ok:
  assumes "no_panic env" "transactionalSingleRowWriteExec env st d = (None, d')"
  shows "st d = Inr (1, d')"
proof -
  have w: "transactionalWrites env [inTransactionExec env 0 st 1] d = (None, d')"
    using assms(2)
    by (simp add: transactionalSingleRowWriteExec_def getTxWrapperForSingleWriteQuery_def)
  have "inTransactionExec env 0 st 1 d = TxOk d'"
    using transactionalWrites_ok [OF w] inTransactionExec_no_panic [OF assms(1), of 0 st 1 d]
    by (auto simp del: run_ops.simps(2))
  then show ?thesis using inTransactionExec_ok [of env 0 st 1 d d'] by auto
qed

lemma single_write_quiet:
  "quiet env \<Longrightarrow> transactionalSingleRowWriteExec env st d =
     (case st d of Inl e \<Rightarrow> (Some e, d)
      | Inr (rows, d') \<Rightarrow> if rows \<noteq> 1 then (Some ErrNoRowsUpdated, d) else (None, d'))"
  by (simp add: transactionalSingleRowWriteExec_def getTxWrapperForSingleWriteQuery_def
      transactionalWrites_quiet inTransactionExec_quiet split: sum.splits)

lemma counting_exec_ok:
  "counting_exec env st d = (TxOk d', n) \<Longrightarrow> st d = Inr (n, d')"
  by (auto simp: counting_exec_def tx_Exec_def
      split: option.splits fault.splits sum.splits tx_outcome.splits prod.splits)

lemma counting_exec_quiet:
  "quiet env \<Longrightarrow> counting_exec env st d = (case st d of Inl e \<Rightarrow> (TxErr e, 0) | Inr (n, d') \<Rightarrow> (TxOk d', n))"
  by (simp add: counting_exec_def tx_Exec_def quiet_def split: sum.splits)

lemma queryRows_quiet [simp]: "quiet env \<Longrightarrow> queryRows env n rows = Inr rows"
  by (simp add: queryRows_def quiet_def)

lemma queryRows_ok: "queryRows env n rows = Inr rs \<Longrightarrow> rs = rows"
  by (auto simp: queryRows_def split: option.splits fault.splits)

lemma querySingleRow_ok: "querySingleRow env n rows = Inr r \<Longrightarrow> \<exists>rs. rows = r # rs"
  by (auto simp: querySingleRow_def queryRows_def split: option.splits fault.splits list.splits)

lemma querySingleRow_quiet:
  "quiet env \<Longrightarrow> querySingleRow env n rows = (case rows of [] \<Rightarrow> Inl ErrNoRows | r # _ \<Rightarrow> Inr r)"
  by (simp add: querySingleRow_def split: list.splits)

subsection \<open>What a statement does to a table\<close>

lemma set_sql_update: "set (snd (sql_update d P f rows)) = (\<lambda>r. if P r then f r else r) ` set rows"
  by (simp add: sql_update_def)

lemma sql_update_map:
  "(\<And>r. P r \<Longrightarrow> g (f r) = g r) \<Longrightarrow> map g (snd (sql_update d P f rows)) = map g rows"
  by (simp add: sql_update_def)

lemma sql_update_length [simp]: "length (snd (sql_update d P f rows)) = length rows"
  by (simp add: sql_update_def)

lemma sql_update_count_pos:
  "0 < fst (sql_update d P f rows) \<Longrightarrow> \<exists>r \<in> set rows. P r"
  by (auto simp: sql_update_def filter_empty_conv)

lemma filter_key_unique:
  "distinct (map f rows) \<Longrightarrow> r \<in> set rows \<Longrightarrow> filter (\<lambda>s. f s = f r) rows = [r]"
proof (induction rows)
  case (Cons a rows)
  have "filter (\<lambda>s. f s = f r) rows = []" if "f r \<notin> f ` set rows"
    using that by (metis (mono_tags, lifting) filter_False imageI)
  with Cons show ?case by (cases "a = r") (auto simp: image_iff)
qed simp

text \<open>An update of the one row with a given key.\<close>

lemma sql_update_key_count:
  assumes "distinct (map key rows)" "r \<in> set rows" "f r \<noteq> r"
  shows "fst (sql_update d (\<lambda>s. key s = key r) f rows) = 1"
proof -
  have "filter (\<lambda>s. key s = key r \<and> Q s) rows = filter Q (filter (\<lambda>s. key s = key r) rows)" for Q
    by (simp add: conj_commute)
  then show ?thesis using filter_key_unique [OF assms(1,2)] assms(3) by (simp add: sql_update_def)
qed

lemma sql_update_key_filter:
  assumes "\<And>s. key (f s) = key s"
  shows "filter (\<lambda>s. key s = k') (snd (sql_update d (\<lambda>s. key s = k) f rows)) =
    (if k' = k then map f (filter (\<lambda>s. key s = k) rows) else filter (\<lambda>s. key s = k') rows)"
  by (induction rows) (auto simp: sql_update_def assms)

lemma distinct_map_sql_delete:
  "distinct (map g rows) \<Longrightarrow> distinct (map g (snd (sql_delete P rows)))"
  by (simp add: sql_delete_def distinct_map inj_on_def)

lemma set_sql_delete: "set (snd (sql_delete P rows)) = {r \<in> set rows. \<not> P r}"
  by (auto simp: sql_delete_def)

lemma sql_insert_ok:
  "sql_insert clash ok rs rows = Inr (n, rows') \<Longrightarrow>
   rows' = rows @ rs \<and> n = length rs \<and> list_all ok rs"
  by (induction clash ok rs rows arbitrary: n rows' rule: sql_insert.induct)
    (auto split: if_splits sum.splits)

lemma sql_insert_no_clash:
  "sql_insert clash ok rs rows = Inr (n, rows') \<Longrightarrow> r \<in> set rs \<Longrightarrow> s \<in> set rows \<Longrightarrow> \<not> clash r s"
  by (induction clash ok rs rows arbitrary: n rows' rule: sql_insert.induct)
    (fastforce simp: list_ex_iff split: if_splits sum.splits)+

lemma sql_insert_distinct:
  assumes "sql_insert clash ok rs rows = Inr (n, rows')" "\<And>r s. f r = f s \<Longrightarrow> clash r s"
    "distinct (map f rows)"
  shows "distinct (map f rows')"
  using assms
proof (induction clash ok rs rows arbitrary: n rows' rule: sql_insert.induct)
  case (2 clash ok r rs rows)
  then have "f r \<notin> f ` set rows" by (fastforce simp: list_ex_iff split: if_splits)
  with 2 show ?case by (fastforce split: if_splits sum.splits)
qed simp

lemma sql_insert_runs:
  assumes "\<forall>r \<in> set rs. ok r" "\<forall>r \<in> set rs. \<forall>s \<in> set rows. \<not> clash r s"
    "\<forall>i < length rs. \<forall>j < i. \<not> clash (rs ! i) (rs ! j)"
  shows "sql_insert clash ok rs rows = Inr (length rs, rows @ rs)"
  using assms
proof (induction clash ok rs rows rule: sql_insert.induct)
  case (2 clash ok r rs rows)
  have n: "\<not> list_ex (clash r) rows" "ok r" using 2(2,3) by (auto simp: list_ex_iff)
  have c: "\<not> clash (rs ! i) r" if "i < length rs" for i
    using 2(4) [rule_format, of "Suc i" 0] that by simp
  have a: "\<forall>x \<in> set rs. \<forall>s \<in> set (rows @ [r]). \<not> clash x s"
    using 2(3) c by (auto simp: in_set_conv_nth)
  have b: "\<not> clash (rs ! i) (rs ! j)" if "i < length rs" "j < i" for i j
    using 2(4) [rule_format, of "Suc i" "Suc j"] that by simp
  have "sql_insert clash ok rs (rows @ [r]) = Inr (length rs, (rows @ [r]) @ rs)"
    using 2(1) [OF _ _ _ a] 2(2) n b by simp
  with n show ?case by simp
qed simp

subsection \<open>Pages\<close>

text \<open>
  \<open>in_page\<close> is the condition \<^verbatim>\<open>getPaginationQueryFragment...\<close> appends for the cursors of a page,
  \<open>order_rows\<close> its \<^verbatim>\<open>ORDER BY createdAt desc, id desc\<close> and \<open>select_page\<close> the rows the whole query
  returns; the id and creation time of a row are given by \<open>idf\<close> and \<open>cf\<close>.
\<close>

definition in_page :: "('r \<Rightarrow> xid) \<Rightarrow> ('r \<Rightarrow> time) \<Rightarrow> Pagination \<Rightarrow> 'r \<Rightarrow> bool" where
  "in_page idf cf page r \<longleftrightarrow>
     (case Next page of None \<Rightarrow> True | Some c \<Rightarrow> idf r < cur_ID c \<and> cf r \<le> cur_Timestamp c) \<and>
     (case Previous page of None \<Rightarrow> True | Some c \<Rightarrow> idf r > cur_ID c \<and> cf r \<ge> cur_Timestamp c)"

definition order_rows :: "('r \<Rightarrow> xid) \<Rightarrow> ('r \<Rightarrow> time) \<Rightarrow> 'r list \<Rightarrow> 'r list" where
  "order_rows idf cf rows = rev (sort_key (\<lambda>r. (cf r, idf r)) rows)"

definition select_page ::
  "('r \<Rightarrow> xid) \<Rightarrow> ('r \<Rightarrow> time) \<Rightarrow> nat \<Rightarrow> Pagination \<Rightarrow> 'r list \<Rightarrow> 'r list" where
  "select_page idf cf limit page rows = take limit (order_rows idf cf (filter (in_page idf cf page) rows))"

definition bad_page :: "Pagination option \<Rightarrow> bool" where
  "bad_page page \<longleftrightarrow>
     (case page of None \<Rightarrow> True | Some p \<Rightarrow> Next p \<noteq> None \<and> Previous p \<noteq> None)"

definition page_cursor :: "('r \<Rightarrow> xid) \<Rightarrow> ('r \<Rightarrow> time) \<Rightarrow> 'r \<Rightarrow> Cursor" where
  "page_cursor idf cf r = \<lparr>cur_ID = idf r, cur_Timestamp = cf r\<rparr>"

definition page_links :: "('r \<Rightarrow> xid) \<Rightarrow> ('r \<Rightarrow> time) \<Rightarrow> 'r list \<Rightarrow> Pagination" where
  "page_links idf cf rows =
     (if rows = [] then no_page
      else \<lparr>Next = Some (page_cursor idf cf (last rows)), Previous = Some (page_cursor idf cf (hd rows))\<rparr>)"

definition next_page :: "Cursor option \<Rightarrow> Pagination" where
  "next_page c = \<lparr>Next = c, Previous = None\<rparr>"

text \<open>
  The loop \<^verbatim>\<open>for more { ... page.Next = pagination.Next }\<close> of the repositories: page \<open>i\<close> selects the
  rows with \<open>P i\<close> (the predicate reads the clock on every page) and \<open>post i\<close> turns them into objects
  or fails, which ends the loop; so does an empty page.
\<close>

function scan_pages ::
  "('r \<Rightarrow> xid) \<Rightarrow> ('r \<Rightarrow> time) \<Rightarrow> nat \<Rightarrow> (nat \<Rightarrow> 'r \<Rightarrow> bool) \<Rightarrow> (nat \<Rightarrow> 'r list \<Rightarrow> 'j list result) \<Rightarrow>
   'r list \<Rightarrow> nat \<Rightarrow> Cursor option \<Rightarrow> 'j list" where
  "scan_pages idf cf limit P post rows i c =
     (let pg = select_page idf cf limit (next_page c) (filter (P i) rows)
      in case post i pg of
           Inl e \<Rightarrow> []
         | Inr js \<Rightarrow>
             if pg = [] then js
             else js @ scan_pages idf cf limit P post rows (Suc i) (Some (page_cursor idf cf (last pg))))"
  by pat_completeness auto

lemma order_rows_set [simp]: "set (order_rows idf cf rows) = set rows"
  by (simp add: order_rows_def)

lemma order_rows_length [simp]: "length (order_rows idf cf rows) = length rows"
  by (simp add: order_rows_def)

lemma order_rows_distinct [simp]: "distinct (order_rows idf cf rows) = distinct rows"
  by (simp add: order_rows_def)

lemma order_rows_Nil [simp]: "order_rows idf cf rows = [] \<longleftrightarrow> rows = []"
  by (metis length_0_conv order_rows_length)

lemma select_page_subset: "set (select_page idf cf limit page rows) \<subseteq> {r \<in> set rows. in_page idf cf page r}"
  using set_take_subset [of limit "order_rows idf cf (filter (in_page idf cf page) rows)"]
  by (auto simp: select_page_def)

lemma select_page_length: "length (select_page idf cf limit page rows) \<le> limit"
  by (simp add: select_page_def)

lemma in_page_trans:
  assumes "in_page idf cf (next_page c) l"
    "in_page idf cf (next_page (Some (page_cursor idf cf l))) r"
  shows "in_page idf cf (next_page c) r"
  using assms by (auto simp: in_page_def next_page_def page_cursor_def split: option.splits)

lemma in_page_self: "\<not> in_page idf cf (next_page (Some (page_cursor idf cf l))) l"
  by (simp add: in_page_def next_page_def page_cursor_def)

text \<open>Behind the cursor of a page there are fewer rows than behind the cursor it was read with.\<close>

lemma page_shrinks:
  assumes "select_page idf cf limit (next_page c) (filter P rows) = pg" "pg \<noteq> []"
  shows "length (filter (in_page idf cf (next_page (Some (page_cursor idf cf (last pg))))) rows)
         < length (filter (in_page idf cf (next_page c)) rows)"
proof -
  let ?l = "last pg"
  have "?l \<in> set pg" using assms(2) by simp
  then have l: "?l \<in> set rows" "in_page idf cf (next_page c) ?l"
    using select_page_subset [of idf cf limit "next_page c" "filter P rows"] assms(1) by auto
  have "filter (in_page idf cf (next_page (Some (page_cursor idf cf ?l)))) rows =
        filter (in_page idf cf (next_page (Some (page_cursor idf cf ?l))))
          (filter (in_page idf cf (next_page c)) rows)"
    using in_page_trans [OF l(2)] by (auto intro: filter_cong)
  also have "length \<dots> < length (filter (in_page idf cf (next_page c)) rows)"
    by (rule length_filter_less [where x = ?l]) (use l in \<open>auto simp: in_page_self\<close>)
  finally show ?thesis .
qed

termination scan_pages
proof (relation "measure (\<lambda>(idf, cf, limit, P, post, rows, i, c).
         length (filter (in_page idf cf (next_page c)) rows))", goal_cases)
  case (2 idf cf limit P post rows i c pg js)
  then show ?case using page_shrinks [of idf cf limit c "P i" rows pg] by simp
qed simp

declare scan_pages.simps [simp del]

subsection \<open>What a page loop collects\<close>

text \<open>
  The cursor condition \<^verbatim>\<open>id < ? AND createdAt <= ?\<close> is a keyset condition only when ids and creation
  times grow together; \<open>comonotone\<close> states that.
\<close>

definition comonotone :: "('r \<Rightarrow> xid) \<Rightarrow> ('r \<Rightarrow> time) \<Rightarrow> 'r list \<Rightarrow> bool" where
  "comonotone idf cf rows \<longleftrightarrow> (\<forall>r \<in> set rows. \<forall>s \<in> set rows. idf r < idf s \<longrightarrow> cf r \<le> cf s)"

lemma order_rows_sorted:
  "sorted_wrt (\<lambda>a b. (cf b, idf b) \<le> (cf a, idf a)) (order_rows idf cf rows)"
  using sorted_sort_key [of "\<lambda>r. (cf r, idf r)" rows]
  by (simp add: order_rows_def sorted_wrt_rev sorted_wrt_map del: less_eq_prod_simp)

lemma order_rows_filter:
  "order_rows idf cf (filter Q rows) = filter Q (order_rows idf cf rows)"
  by (metis filter_sort order_rows_def rev_filter)

lemma order_rows_ids_decrease:
  assumes "distinct (map idf rows)" "comonotone idf cf rows"
  shows "sorted_wrt (\<lambda>a b. idf b < idf a) (order_rows idf cf rows)"
proof -
  let ?L = "order_rows idf cf rows"
  have d: "distinct (map idf ?L)"
    using assms(1) by (simp add: distinct_map order_rows_def)
  have "idf (?L ! j) < idf (?L ! i)" if "i < j" "j < length ?L" for i j
  proof -
    have le: "(cf (?L ! j), idf (?L ! j)) \<le> (cf (?L ! i), idf (?L ! i))"
      using order_rows_sorted [of cf idf rows] that by (simp add: sorted_wrt_iff_nth_less)
    have i: "i < length ?L" using that by simp
    have ne: "idf (?L ! i) \<noteq> idf (?L ! j)"
      using nth_eq_iff_index_eq [OF d, of i j] that i by simp
    have mem: "?L ! i \<in> set rows" "?L ! j \<in> set rows"
      using nth_mem [OF i] nth_mem [OF that(2)] by (simp_all only: order_rows_set)
    show ?thesis
    proof (rule ccontr)
      assume "\<not> idf (?L ! j) < idf (?L ! i)"
      with ne have lt: "idf (?L ! i) < idf (?L ! j)" by auto
      with mem assms(2) have "cf (?L ! i) \<le> cf (?L ! j)" by (auto simp: comonotone_def)
      with le lt show False by auto
    qed
  qed
  then show ?thesis by (simp add: sorted_wrt_iff_nth_less)
qed

lemma filter_below_last:
  fixes f :: "'r \<Rightarrow> xid"
  assumes "sorted_wrt (\<lambda>a b. f b < f a) L" "take k L \<noteq> []"
  shows "filter (\<lambda>r. f r < f (last (take k L))) L = drop k L"
proof -
  have s: "sorted_wrt (\<lambda>a b. f b < f a) (take k L @ drop k L)" using assms(1) by simp
  obtain ys y where t: "take k L = ys @ [y]" using assms(2) by (metis rev_exhaust)
  have "\<forall>r \<in> set ys. f y < f r" "\<forall>r \<in> set (drop k L). f r < f y"
    using s by (auto simp: t sorted_wrt_append simp del: append_take_drop_id)
  then have "filter (\<lambda>r. f r < f y) (take k L @ drop k L) = drop k L"
    by (auto simp: t filter_empty_conv simp del: append_take_drop_id intro!: filter_True)
  then have "filter (\<lambda>r. f r < f (last (take k L))) (take k L @ drop k L) = drop k L"
    by (simp add: t del: append_take_drop_id)
  then show ?thesis unfolding append_take_drop_id .
qed

lemma scan_pages_complete:
  assumes "distinct (map idf rows)" "comonotone idf cf rows" "limit > 0"
  shows "scan_pages idf cf limit (\<lambda>_. Q) (\<lambda>_ pg. Inr (map g pg)) rows i c =
         map g (order_rows idf cf (filter (\<lambda>r. Q r \<and> in_page idf cf (next_page c) r) rows))"
proof (induction "length (filter (in_page idf cf (next_page c)) rows)" arbitrary: i c rule: less_induct)
  case less
  let ?R = "filter (\<lambda>r. Q r \<and> in_page idf cf (next_page c) r) rows"
  let ?L = "order_rows idf cf ?R"
  have pg: "select_page idf cf limit (next_page c) (filter Q rows) = take limit ?L"
    by (simp add: select_page_def conj_commute)
  have "distinct (map idf ?R)" "comonotone idf cf ?R"
    using assms(1,2) by (simp_all add: distinct_map inj_on_def comonotone_def)
  then have dec: "sorted_wrt (\<lambda>a b. idf b < idf a) ?L" by (rule order_rows_ids_decrease)
  show ?case
  proof (cases "?L = []")
    case True
    then show ?thesis by (subst scan_pages.simps) (simp add: pg)
  next
    case False
    then have ne: "take limit ?L \<noteq> []" using assms(3) by simp
    let ?l = "last (take limit ?L)"
    have l: "?l \<in> set rows" "Q ?l" "in_page idf cf (next_page c) ?l"
      using last_in_set [OF ne] set_take_subset [of limit ?L] by auto
    have "in_page idf cf (next_page (Some (page_cursor idf cf ?l))) r \<longleftrightarrow> idf r < idf ?l"
      if "r \<in> set rows" for r
      using assms(2) that l(1)
      by (auto simp: comonotone_def in_page_def next_page_def page_cursor_def)
    then have "Q r \<and> in_page idf cf (next_page (Some (page_cursor idf cf ?l))) r \<longleftrightarrow>
        (Q r \<and> in_page idf cf (next_page c) r) \<and> idf r < idf ?l" if "r \<in> set rows" for r
      using in_page_trans [OF l(3)] that by blast
    then have "filter (\<lambda>r. Q r \<and> in_page idf cf (next_page (Some (page_cursor idf cf ?l))) r) rows
          = filter (\<lambda>r. idf r < idf ?l) ?R"
      unfolding filter_filter by (intro filter_cong refl)
    then have rest: "order_rows idf cf
          (filter (\<lambda>r. Q r \<and> in_page idf cf (next_page (Some (page_cursor idf cf ?l))) r) rows)
        = drop limit ?L"
      using filter_below_last [OF dec ne] by (simp add: order_rows_filter [symmetric])
    have "scan_pages idf cf limit (\<lambda>_. Q) (\<lambda>_ pg. Inr (map g pg)) rows (Suc i)
        (Some (page_cursor idf cf ?l)) = map g (drop limit ?L)"
      using less [OF page_shrinks [OF pg ne], of "Suc i"] rest by simp
    then have "scan_pages idf cf limit (\<lambda>_. Q) (\<lambda>_ pg. Inr (map g pg)) rows i c =
        map g (take limit ?L) @ map g (drop limit ?L)"
      using ne by (subst scan_pages.simps) (simp add: pg Let_def)
    then show ?thesis unfolding map_append [symmetric] append_take_drop_id .
  qed
qed

text \<open>Whatever the ids, a row is collected at most once and only if it matched.\<close>

lemma select_page_behind:
  assumes "pg = select_page idf cf limit page rows" "r \<in> set pg"
  shows "\<not> in_page idf cf (next_page (Some (page_cursor idf cf (last pg)))) r"
proof -
  have "sorted_wrt (\<lambda>a b. (cf b, idf b) \<le> (cf a, idf a)) pg"
    unfolding assms(1) select_page_def by (intro sorted_wrt_take order_rows_sorted)
  moreover obtain ys y where "pg = ys @ [y]" using assms(2) by (metis empty_iff empty_set rev_exhaust)
  ultimately show ?thesis
    using assms(2) by (auto simp: in_page_def next_page_def page_cursor_def sorted_wrt_append)
qed

lemma scan_pages_sound:
  assumes "\<And>i pg js. post i pg = Inr js \<Longrightarrow> map h js = map idf pg" "distinct (map idf rows)"
  shows "distinct (map h (scan_pages idf cf limit P post rows i c)) \<and>
         h ` set (scan_pages idf cf limit P post rows i c) \<subseteq>
           idf ` {r \<in> set rows. (\<exists>k. P k r) \<and> in_page idf cf (next_page c) r}"
  using assms
proof (induction idf cf limit P post rows i c rule: scan_pages.induct)
  case (1 idf cf limit P post rows i c)
  define pg where "pg = select_page idf cf limit (next_page c) (filter (P i) rows)"
  have sub: "set pg \<subseteq> {r \<in> set rows. P i r \<and> in_page idf cf (next_page c) r}"
    using select_page_subset [of idf cf limit "next_page c" "filter (P i) rows"] pg_def by auto
  show ?case
  proof (cases "post i pg")
    case (Inl e)
    then show ?thesis by (subst (1 2) scan_pages.simps) (simp add: pg_def [symmetric])
  next
    case (Inr js)
    have js: "map h js = map idf pg" using 1(2) Inr .
    have hjs: "h ` set js = idf ` set pg" using js by (metis list.set_map)
    have inj: "inj_on idf (set rows)" using 1(3) by (simp add: distinct_map)
    have "distinct pg" using 1(3) by (simp add: pg_def select_page_def distinct_map)
    then have dpg: "distinct (map idf pg)"
      using sub inj by (auto simp: distinct_map intro: inj_on_subset)
    show ?thesis
    proof (cases "pg = []")
      case True
      with js Inr show ?thesis by (subst (1 2) scan_pages.simps) (simp add: pg_def [symmetric])
    next
      case False
      let ?c = "Some (page_cursor idf cf (last pg))"
      let ?rest = "scan_pages idf cf limit P post rows (Suc i) ?c"
      have ih: "distinct (map h ?rest)"
        "h ` set ?rest \<subseteq> idf ` {r \<in> set rows. (\<exists>k. P k r) \<and> in_page idf cf (next_page ?c) r}"
        using 1(1) [OF pg_def Inr False] 1(2,3) by blast+
      have l: "in_page idf cf (next_page c) (last pg)" using last_in_set [OF False] sub by auto
      have "idf ` set pg \<inter> idf ` {r \<in> set rows. (\<exists>k. P k r) \<and> in_page idf cf (next_page ?c) r} = {}"
        using select_page_behind [OF pg_def] sub inj by (fastforce dest: inj_onD)
      with ih js have disj: "set (map h js) \<inter> set (map h ?rest) = {}" by auto
      have eq: "scan_pages idf cf limit P post rows i c = js @ ?rest"
        using False Inr by (subst scan_pages.simps) (simp add: pg_def [symmetric])
      have "h ` set js \<subseteq> idf ` {r \<in> set rows. (\<exists>k. P k r) \<and> in_page idf cf (next_page c) r}"
        unfolding hjs using sub by blast
      moreover have "h ` set ?rest \<subseteq> idf ` {r \<in> set rows. (\<exists>k. P k r) \<and> in_page idf cf (next_page c) r}"
        by (rule subset_trans [OF ih(2)], rule image_mono) (use in_page_trans [OF l] in blast)
      ultimately show ?thesis using eq ih(1) js dpg disj by (simp add: image_Un)
    qed
  qed
qed

end
