(* ===== verification/Schema.thy ===== *)
theory Schema
  imports Rdbms
begin

section \<open>The tables: migration/sqls\<close>

text \<open>
  One record per table created by the migrations, with its columns, and the statements the
  repositories issue against it together with the unique and foreign keys the migrations declare: an
  insert that violates a unique key fails with error 1062 and one that violates a foreign key with
  1452, a delete of a referenced row fails with 1451 (\<^verbatim>\<open>ON DELETE RESTRICT\<close>) and deleting a consumer
  deletes its pause and its dead-letter summary (\<^verbatim>\<open>ON DELETE CASCADE\<close>).  The tables \<^verbatim>\<open>producer\<close>,
  \<^verbatim>\<open>channel\<close>, \<^verbatim>\<open>lock\<close> and \<^verbatim>\<open>dlq_summary\<close> have exactly the fields of the objects stored in them.
\<close>

datatype AppStatus = NotInitialized | Initializing | Initialized

record App =
  app_DataHash :: string
  app_status :: AppStatus

record consumer_row =
  c_id :: xid
  c_consumerId :: string
  c_channelId :: string
  c_name :: string
  c_token :: string
  c_callbackUrl :: string
  c_type :: ConsumerType
  c_createdAt :: time
  c_updatedAt :: time

record message_row =
  m_id :: xid
  m_messageId :: string
  m_producerId :: string
  m_channelId :: string
  m_payload :: string
  m_contentType :: string
  m_priority :: nat
  m_status :: MsgStatus
  m_receivedAt :: time
  m_outboxedAt :: time
  m_headers :: HeadersMap
  m_createdAt :: time
  m_updatedAt :: time

record job_row =
  j_id :: xid
  j_messageId :: xid
  j_consumerId :: xid
  j_status :: JobStatus
  j_dispatchReceivedAt :: time
  j_retryAttemptCount :: nat
  j_statusChangedAt :: time
  j_earliestNextAttemptAt :: time
  j_createdAt :: time
  j_updatedAt :: time
  j_priority :: nat
  j_incrementalTimeout :: nat

record parked_row =
  p_seq :: nat
  p_id :: xid
  p_messageId :: xid
  p_consumerId :: xid
  p_dispatchReceivedAt :: time
  p_retryAttemptCount :: nat
  p_earliestNextAttemptAt :: time
  p_priority :: nat
  p_incrementalTimeout :: nat
  p_createdAt :: time
  p_parkedAt :: time

record pause_row =
  ps_scope :: string
  ps_consumerId :: "string option"
  ps_reason :: string
  ps_pausedAt :: time

record scheduled_row =
  s_id :: xid
  s_messageId :: string
  s_producerId :: string
  s_channelId :: string
  s_payload :: string
  s_contentType :: string
  s_priority :: nat
  s_status :: ScheduledMsgStatus
  s_dispatchSchedule :: time
  s_dispatchedAt :: "time option"
  s_headers :: HeadersMap
  s_createdAt :: time
  s_updatedAt :: time

record db =
  t_app :: "App list"
  t_producer :: "Producer list"
  t_channel :: "Channel list"
  t_consumer :: "consumer_row list"
  t_message :: "message_row list"
  t_job :: "job_row list"
  t_parking :: "parked_row list"
  t_parking_seq :: nat
  t_pause :: "pause_row list"
  t_lock :: "Lock list"
  t_scheduled :: "scheduled_row list"
  t_dlq :: "DLQSummary list"

definition empty_db :: db where
  "empty_db = \<lparr>t_app = [], t_producer = [], t_channel = [], t_consumer = [], t_message = [], t_job = [],
     t_parking = [], t_parking_seq = 1, t_pause = [], t_lock = [], t_scheduled = [], t_dlq = []\<rparr>"

subsection \<open>Keys\<close>

definition producer_clash :: "Producer \<Rightarrow> Producer \<Rightarrow> bool" where
  "producer_clash r s \<longleftrightarrow> ID r = ID s \<or> ProducerID r = ProducerID s"

definition channel_clash :: "Channel \<Rightarrow> Channel \<Rightarrow> bool" where
  "channel_clash r s \<longleftrightarrow> ID r = ID s \<or> ChannelID r = ChannelID s"

definition consumer_clash :: "consumer_row \<Rightarrow> consumer_row \<Rightarrow> bool" where
  "consumer_clash r s \<longleftrightarrow> c_id r = c_id s \<or> c_consumerId r = c_consumerId s \<and> c_channelId r = c_channelId s"

definition message_clash :: "message_row \<Rightarrow> message_row \<Rightarrow> bool" where
  "message_clash r s \<longleftrightarrow> m_id r = m_id s \<or> m_messageId r = m_messageId s \<and> m_channelId r = m_channelId s"

definition job_clash :: "job_row \<Rightarrow> job_row \<Rightarrow> bool" where
  "job_clash r s \<longleftrightarrow> j_id r = j_id s \<or> j_messageId r = j_messageId s \<and> j_consumerId r = j_consumerId s"

definition parked_clash :: "parked_row \<Rightarrow> parked_row \<Rightarrow> bool" where
  "parked_clash r s \<longleftrightarrow> p_seq r = p_seq s \<or> p_id r = p_id s \<or>
     p_messageId r = p_messageId s \<and> p_consumerId r = p_consumerId s"

definition scheduled_clash :: "scheduled_row \<Rightarrow> scheduled_row \<Rightarrow> bool" where
  "scheduled_clash r s \<longleftrightarrow> s_id r = s_id s \<or> s_messageId r = s_messageId s \<and> s_channelId r = s_channelId s"

definition has_message :: "db \<Rightarrow> xid \<Rightarrow> bool" where
  "has_message d i \<longleftrightarrow> list_ex (\<lambda>m. m_id m = i) (t_message d)"

definition has_consumer :: "db \<Rightarrow> xid \<Rightarrow> bool" where
  "has_consumer d i \<longleftrightarrow> list_ex (\<lambda>c. c_id c = i) (t_consumer d)"

definition has_channel :: "db \<Rightarrow> string \<Rightarrow> bool" where
  "has_channel d i \<longleftrightarrow> list_ex (\<lambda>c. ChannelID c = i) (t_channel d)"

definition has_producer :: "db \<Rightarrow> string \<Rightarrow> bool" where
  "has_producer d i \<longleftrightarrow> list_ex (\<lambda>p. ProducerID p = i) (t_producer d)"

subsection \<open>Statements\<close>

definition into_table :: "('r list \<Rightarrow> db) \<Rightarrow> error + (nat \<times> 'r list) \<Rightarrow> error + (nat \<times> db)" where
  "into_table put res = (case res of Inl e \<Rightarrow> Inl e | Inr (n, rows) \<Rightarrow> Inr (n, put rows))"

definition insert_producer :: "Producer \<Rightarrow> db stmt" where
  "insert_producer r d =
     into_table (\<lambda>rows. d\<lparr>t_producer := rows\<rparr>) (sql_insert producer_clash (\<lambda>_. True) [r] (t_producer d))"

definition insert_channel :: "Channel \<Rightarrow> db stmt" where
  "insert_channel r d =
     into_table (\<lambda>rows. d\<lparr>t_channel := rows\<rparr>) (sql_insert channel_clash (\<lambda>_. True) [r] (t_channel d))"

definition insert_consumer :: "consumer_row \<Rightarrow> db stmt" where
  "insert_consumer r d =
     into_table (\<lambda>rows. d\<lparr>t_consumer := rows\<rparr>)
       (sql_insert consumer_clash (\<lambda>r. has_channel d (c_channelId r)) [r] (t_consumer d))"

definition insert_message :: "message_row \<Rightarrow> db stmt" where
  "insert_message r d =
     into_table (\<lambda>rows. d\<lparr>t_message := rows\<rparr>)
       (sql_insert message_clash (\<lambda>r. has_channel d (m_channelId r) \<and> has_producer d (m_producerId r)) [r]
          (t_message d))"

definition insert_jobs :: "job_row list \<Rightarrow> db stmt" where
  "insert_jobs rs d =
     into_table (\<lambda>rows. d\<lparr>t_job := rows\<rparr>)
       (sql_insert job_clash (\<lambda>r. has_message d (j_messageId r) \<and> has_consumer d (j_consumerId r)) rs (t_job d))"

text \<open>The database numbers parked rows in the order they are inserted (\<^verbatim>\<open>AUTO_INCREMENT\<close>).\<close>

definition number_parked :: "nat \<Rightarrow> parked_row list \<Rightarrow> parked_row list" where
  "number_parked seq rs = map (\<lambda>(r, n). r\<lparr>p_seq := n\<rparr>) (zip rs [seq..<seq + length rs])"

definition insert_parked :: "parked_row list \<Rightarrow> db stmt" where
  "insert_parked rs d =
     into_table (\<lambda>rows. d\<lparr>t_parking := rows, t_parking_seq := t_parking_seq d + length rs\<rparr>)
       (sql_insert parked_clash (\<lambda>r. has_message d (p_messageId r) \<and> has_consumer d (p_consumerId r))
          (number_parked (t_parking_seq d) rs) (t_parking d))"

definition insert_pause :: "pause_row \<Rightarrow> db stmt" where
  "insert_pause r d =
     into_table (\<lambda>rows. d\<lparr>t_pause := rows\<rparr>)
       (sql_insert (\<lambda>r s. ps_scope r = ps_scope s)
          (\<lambda>r. case ps_consumerId r of None \<Rightarrow> True | Some i \<Rightarrow> has_consumer d i) [r] (t_pause d))"

definition insert_lock :: "Lock \<Rightarrow> db stmt" where
  "insert_lock r d =
     into_table (\<lambda>rows. d\<lparr>t_lock := rows\<rparr>)
       (sql_insert (\<lambda>r s. LockID r = LockID s) (\<lambda>_. True) [r] (t_lock d))"

definition insert_scheduled :: "scheduled_row \<Rightarrow> db stmt" where
  "insert_scheduled r d =
     into_table (\<lambda>rows. d\<lparr>t_scheduled := rows\<rparr>)
       (sql_insert scheduled_clash (\<lambda>r. has_channel d (s_channelId r) \<and> has_producer d (s_producerId r)) [r]
          (t_scheduled d))"

definition insert_dlq :: "DLQSummary list \<Rightarrow> db stmt" where
  "insert_dlq rs d =
     into_table (\<lambda>rows. d\<lparr>t_dlq := rows\<rparr>)
       (sql_insert (\<lambda>r s. dlq_ConsumerID r = dlq_ConsumerID s) (\<lambda>r. has_consumer d (dlq_ConsumerID r)) rs (t_dlq d))"

definition update_job :: "dialect \<Rightarrow> (job_row \<Rightarrow> bool) \<Rightarrow> (job_row \<Rightarrow> job_row) \<Rightarrow> db stmt" where
  "update_job di P f d = (let (n, rows) = sql_update di P f (t_job d) in Inr (n, d\<lparr>t_job := rows\<rparr>))"

definition delete_job :: "(job_row \<Rightarrow> bool) \<Rightarrow> db stmt" where
  "delete_job P d = (let (n, rows) = sql_delete P (t_job d) in Inr (n, d\<lparr>t_job := rows\<rparr>))"

definition delete_parked :: "(parked_row \<Rightarrow> bool) \<Rightarrow> db stmt" where
  "delete_parked P d = (let (n, rows) = sql_delete P (t_parking d) in Inr (n, d\<lparr>t_parking := rows\<rparr>))"

definition update_message :: "dialect \<Rightarrow> (message_row \<Rightarrow> bool) \<Rightarrow> (message_row \<Rightarrow> message_row) \<Rightarrow> db stmt" where
  "update_message di P f d =
     (let (n, rows) = sql_update di P f (t_message d) in Inr (n, d\<lparr>t_message := rows\<rparr>))"

definition delete_message :: "(message_row \<Rightarrow> bool) \<Rightarrow> db stmt" where
  "delete_message P d =
     (if list_ex (\<lambda>m. P m \<and> (list_ex (\<lambda>j. j_messageId j = m_id m) (t_job d) \<or>
                             list_ex (\<lambda>p. p_messageId p = m_id m) (t_parking d))) (t_message d)
      then Inl (DBError 1451)
      else (let (n, rows) = sql_delete P (t_message d) in Inr (n, d\<lparr>t_message := rows\<rparr>)))"

definition update_lock :: "dialect \<Rightarrow> (Lock \<Rightarrow> bool) \<Rightarrow> (Lock \<Rightarrow> Lock) \<Rightarrow> db stmt" where
  "update_lock di P f d = (let (n, rows) = sql_update di P f (t_lock d) in Inr (n, d\<lparr>t_lock := rows\<rparr>))"

definition delete_lock :: "(Lock \<Rightarrow> bool) \<Rightarrow> db stmt" where
  "delete_lock P d = (let (n, rows) = sql_delete P (t_lock d) in Inr (n, d\<lparr>t_lock := rows\<rparr>))"

definition delete_pause :: "(pause_row \<Rightarrow> bool) \<Rightarrow> db stmt" where
  "delete_pause P d = (let (n, rows) = sql_delete P (t_pause d) in Inr (n, d\<lparr>t_pause := rows\<rparr>))"

definition update_producer :: "dialect \<Rightarrow> (Producer \<Rightarrow> bool) \<Rightarrow> (Producer \<Rightarrow> Producer) \<Rightarrow> db stmt" where
  "update_producer di P f d =
     (let (n, rows) = sql_update di P f (t_producer d) in Inr (n, d\<lparr>t_producer := rows\<rparr>))"

definition update_channel :: "dialect \<Rightarrow> (Channel \<Rightarrow> bool) \<Rightarrow> (Channel \<Rightarrow> Channel) \<Rightarrow> db stmt" where
  "update_channel di P f d =
     (let (n, rows) = sql_update di P f (t_channel d) in Inr (n, d\<lparr>t_channel := rows\<rparr>))"

definition update_consumer :: "dialect \<Rightarrow> (consumer_row \<Rightarrow> bool) \<Rightarrow> (consumer_row \<Rightarrow> consumer_row) \<Rightarrow> db stmt" where
  "update_consumer di P f d =
     (let (n, rows) = sql_update di P f (t_consumer d) in Inr (n, d\<lparr>t_consumer := rows\<rparr>))"

definition delete_consumer :: "(consumer_row \<Rightarrow> bool) \<Rightarrow> db stmt" where
  "delete_consumer P d =
     (if list_ex (\<lambda>c. P c \<and> (list_ex (\<lambda>j. j_consumerId j = c_id c) (t_job d) \<or>
                             list_ex (\<lambda>p. p_consumerId p = c_id c) (t_parking d))) (t_consumer d)
      then Inl (DBError 1451)
      else (let (n, rows) = sql_delete P (t_consumer d);
                gone = map c_id (filter P (t_consumer d))
            in Inr (n, d\<lparr>t_consumer := rows,
                         t_pause := filter (\<lambda>p. case ps_consumerId p of None \<Rightarrow> True
                                                | Some i \<Rightarrow> i \<notin> set gone) (t_pause d),
                         t_dlq := filter (\<lambda>s. dlq_ConsumerID s \<notin> set gone) (t_dlq d)\<rparr>)))"

definition update_scheduled ::
  "dialect \<Rightarrow> (scheduled_row \<Rightarrow> bool) \<Rightarrow> (scheduled_row \<Rightarrow> scheduled_row) \<Rightarrow> db stmt" where
  "update_scheduled di P f d =
     (let (n, rows) = sql_update di P f (t_scheduled d) in Inr (n, d\<lparr>t_scheduled := rows\<rparr>))"

definition update_dlq :: "dialect \<Rightarrow> (DLQSummary \<Rightarrow> bool) \<Rightarrow> (DLQSummary \<Rightarrow> DLQSummary) \<Rightarrow> db stmt" where
  "update_dlq di P f d = (let (n, rows) = sql_update di P f (t_dlq d) in Inr (n, d\<lparr>t_dlq := rows\<rparr>))"

definition update_app :: "dialect \<Rightarrow> (App \<Rightarrow> bool) \<Rightarrow> (App \<Rightarrow> App) \<Rightarrow> db stmt" where
  "update_app di P f d = (let (n, rows) = sql_update di P f (t_app d) in Inr (n, d\<lparr>t_app := rows\<rparr>))"

definition insert_app :: "App \<Rightarrow> db stmt" where
  "insert_app r d =
     into_table (\<lambda>rows. d\<lparr>t_app := rows\<rparr>) (sql_insert (\<lambda>_ _. True) (\<lambda>_. True) [r] (t_app d))"

lemmas stmt_defs =
  into_table_def insert_producer_def insert_channel_def insert_consumer_def insert_message_def
  insert_jobs_def insert_parked_def insert_pause_def insert_lock_def insert_scheduled_def insert_dlq_def
  update_job_def delete_job_def delete_parked_def update_message_def delete_message_def update_lock_def
  delete_lock_def delete_pause_def update_producer_def update_channel_def update_consumer_def
  delete_consumer_def update_scheduled_def update_dlq_def update_app_def insert_app_def

subsection \<open>Shapes of statement results\<close>

lemma into_table_ok:
  "into_table put res = Inr (n, d') \<Longrightarrow> \<exists>rows. res = Inr (n, rows) \<and> d' = put rows"
  by (auto simp: into_table_def split: sum.splits)

lemma update_job_ok:
  "update_job di P f d = Inr (n, d') \<Longrightarrow>
   d' = d\<lparr>t_job := snd (sql_update di P f (t_job d))\<rparr> \<and> n = fst (sql_update di P f (t_job d))"
  by (auto simp: update_job_def split: prod.splits)

lemma delete_job_ok:
  "delete_job P d = Inr (n, d') \<Longrightarrow>
   d' = d\<lparr>t_job := filter (\<lambda>r. \<not> P r) (t_job d)\<rparr> \<and> n = length (filter P (t_job d))"
  by (auto simp: delete_job_def sql_delete_def)

lemma delete_parked_ok:
  "delete_parked P d = Inr (n, d') \<Longrightarrow>
   d' = d\<lparr>t_parking := filter (\<lambda>r. \<not> P r) (t_parking d)\<rparr> \<and> n = length (filter P (t_parking d))"
  by (auto simp: delete_parked_def sql_delete_def)

lemma insert_jobs_ok:
  "insert_jobs rs d = Inr (n, d') \<Longrightarrow> d' = d\<lparr>t_job := t_job d @ rs\<rparr> \<and> n = length rs \<and>
   (\<forall>r \<in> set rs. has_message d (j_messageId r) \<and> has_consumer d (j_consumerId r)) \<and>
   (\<forall>r \<in> set rs. \<forall>s \<in> set (t_job d). \<not> job_clash r s)"
  unfolding insert_jobs_def
  by (drule into_table_ok) (auto dest: sql_insert_ok sql_insert_no_clash simp: list_all_iff)

lemma length_number_parked [simp]: "length (number_parked seq rs) = length rs"
  by (simp add: number_parked_def)

lemma insert_parked_ok:
  "insert_parked rs d = Inr (n, d') \<Longrightarrow>
   d' = d\<lparr>t_parking := t_parking d @ number_parked (t_parking_seq d) rs,
          t_parking_seq := t_parking_seq d + length rs\<rparr> \<and> n = length rs \<and>
   (\<forall>r \<in> set rs. has_message d (p_messageId r) \<and> has_consumer d (p_consumerId r)) \<and>
   (\<forall>r \<in> set (number_parked (t_parking_seq d) rs). \<forall>s \<in> set (t_parking d). \<not> parked_clash r s)"
proof (unfold insert_parked_def, drule into_table_ok, elim exE conjE)
  fix rows
  assume i: "sql_insert parked_clash (\<lambda>r. has_message d (p_messageId r) \<and> has_consumer d (p_consumerId r))
      (number_parked (t_parking_seq d) rs) (t_parking d) = Inr (n, rows)"
    and d': "d' = d\<lparr>t_parking := rows, t_parking_seq := t_parking_seq d + length rs\<rparr>"
  have "\<exists>r' \<in> set (number_parked (t_parking_seq d) rs).
          p_messageId r' = p_messageId r \<and> p_consumerId r' = p_consumerId r" if mem: "r \<in> set rs" for r
  proof -
    obtain k where k: "k < length rs" "r = rs ! k" using mem by (metis in_set_conv_nth)
    then have "(r, t_parking_seq d + k) \<in> set (zip rs [t_parking_seq d..<t_parking_seq d + length rs])"
      by (auto simp: in_set_zip intro!: exI [of _ k])
    then have "r\<lparr>p_seq := t_parking_seq d + k\<rparr> \<in> set (number_parked (t_parking_seq d) rs)"
      by (force simp: number_parked_def)
    then show ?thesis by (rule bexI [rotated]) simp
  qed
  then have fk: "\<forall>r \<in> set rs. has_message d (p_messageId r) \<and> has_consumer d (p_consumerId r)"
    using sql_insert_ok [OF i] by (metis list_all_iff)
  have "rows = t_parking d @ number_parked (t_parking_seq d) rs" "n = length rs"
    using sql_insert_ok [OF i] by simp_all
  with d' fk sql_insert_no_clash [OF i] show ?thesis by blast
qed

end
