(* ===== verification/Stakeholder_Repo.thy ===== *)
theory Stakeholder_Repo
  imports Schema
begin

section \<open>Channels, producers and consumers: storage/channelrepo.go, producerrepo.go, consumerrepo.go\<close>

text \<open>
  The three repositories store an object by its public id: \<^verbatim>\<open>Store\<close> inserts it or updates name, token
  (and for consumers callback and type) of the stored one.  A method returns the object and an error,
  where the object may be the empty one the code returns beside the error.  The channel repository a
  consumer repository depends on is its parameter \<open>chGet\<close>.
\<close>

definition zero_channel :: Channel where
  "zero_channel = \<lparr>ID = nil_xid, CreatedAt = 0, UpdatedAt = 0, Name = '''', Token = '''', ChannelID = ''''\<rparr>"

definition zero_producer :: Producer where
  "zero_producer = \<lparr>ID = nil_xid, CreatedAt = 0, UpdatedAt = 0, Name = '''', Token = '''', ProducerID = ''''\<rparr>"

definition zero_consumer :: Consumer where
  "zero_consumer = \<lparr>ID = nil_xid, CreatedAt = 0, UpdatedAt = 0, Name = '''', Token = '''', ConsumerID = '''',
                    CallbackURL = '''', ConsumingFrom = None, CType = PullConsumer\<rparr>"

subsection \<open>ChannelDBRepository\<close>

definition channel_Get :: "dbenv \<Rightarrow> string \<Rightarrow> db \<Rightarrow> Channel \<times> error option" where
  "channel_Get env channelID d =
     (case querySingleRow env 0 (filter (\<lambda>r. sql_like (env_dialect env) channelID (ChannelID r)) (t_channel d)) of
        Inr r \<Rightarrow> (r, None)
      | Inl e \<Rightarrow> (zero_channel, Some e))"

definition updateChannel ::
  "dbenv \<Rightarrow> Channel \<Rightarrow> string \<Rightarrow> string \<Rightarrow> db \<Rightarrow> (Channel \<times> error option) \<times> db" where
  "updateChannel env channel name token d =
     (let channel' = channel\<lparr>Name := name, Token := token, UpdatedAt := now env\<rparr>
      in case transactionalSingleRowWriteExec env
                (update_channel (env_dialect env) (\<lambda>r. ChannelID r = ChannelID channel)
                   (\<lambda>r. r\<lparr>Name := name, Token := token, UpdatedAt := dt env (now env)\<rparr>)) d of
           (err, d') \<Rightarrow> ((if begin_err env = None then channel' else channel, err), d'))"

definition insertChannel ::
  "dbenv \<Rightarrow> xid \<Rightarrow> Channel \<Rightarrow> db \<Rightarrow> (Channel \<times> error option) \<times> db" where
  "insertChannel env newid channel0 d =
     (let channel = snd (channel_QuickFix newid (now env) channel0)
      in if \<not> channel_IsInValidState channel then ((channel, Some ErrInvalidStateToSave), d)
         else (case transactionalSingleRowWriteExec env
                      (insert_channel (channel\<lparr>CreatedAt := dt env (CreatedAt channel),
                                               UpdatedAt := dt env (UpdatedAt channel)\<rparr>)) d of
                 (err, d') \<Rightarrow> ((channel, err), d')))"

definition channel_Store ::
  "dbenv \<Rightarrow> dbenv \<Rightarrow> xid \<Rightarrow> Channel \<Rightarrow> db \<Rightarrow> (Channel \<times> error option) \<times> db" where
  "channel_Store env env' newid channel d =
     (case channel_Get env (ChannelID channel) d of
        (_, Some _) \<Rightarrow> insertChannel env' newid channel d
      | (inChannel, None) \<Rightarrow>
          if Name channel \<noteq> Name inChannel \<or> Token channel \<noteq> Token inChannel then
            (if \<not> channel_IsInValidState channel then ((zero_channel, Some ErrInvalidStateToSave), d)
             else updateChannel env' inChannel (Name channel) (Token channel) d)
          else ((inChannel, None), d))"

definition channel_GetList ::
  "dbenv \<Rightarrow> Pagination option \<Rightarrow> db \<Rightarrow> (Channel list \<times> Pagination) \<times> error option" where
  "channel_GetList env page d =
     (if bad_page page then (([], no_page), Some ErrPaginationDeadlock)
      else (case queryRows env 0 (select_page ID CreatedAt 25 (the page) (t_channel d)) of
              Inl e \<Rightarrow> (([], no_page), Some e)
            | Inr channels \<Rightarrow> ((channels, page_links ID CreatedAt channels), None)))"

subsection \<open>ProducerDBRepository\<close>

definition producer_Get :: "dbenv \<Rightarrow> string \<Rightarrow> db \<Rightarrow> Producer \<times> error option" where
  "producer_Get env producerID d =
     (case querySingleRow env 0 (filter (\<lambda>r. sql_like (env_dialect env) producerID (ProducerID r)) (t_producer d)) of
        Inr r \<Rightarrow> (r, None)
      | Inl e \<Rightarrow> (zero_producer, Some e))"

definition updateProducer ::
  "dbenv \<Rightarrow> Producer \<Rightarrow> string \<Rightarrow> string \<Rightarrow> db \<Rightarrow> (Producer \<times> error option) \<times> db" where
  "updateProducer env producer name token d =
     (let producer' = producer\<lparr>Name := name, Token := token, UpdatedAt := now env\<rparr>
      in case transactionalSingleRowWriteExec env
                (update_producer (env_dialect env) (\<lambda>r. ProducerID r = ProducerID producer)
                   (\<lambda>r. r\<lparr>Name := name, Token := token, UpdatedAt := dt env (now env)\<rparr>)) d of
           (err, d') \<Rightarrow> ((if begin_err env = None then producer' else producer, err), d'))"

definition insertProducer ::
  "dbenv \<Rightarrow> xid \<Rightarrow> Producer \<Rightarrow> db \<Rightarrow> (Producer \<times> error option) \<times> db" where
  "insertProducer env newid producer0 d =
     (let producer = snd (producer_QuickFix newid (now env) producer0)
      in if \<not> producer_IsInValidState producer then ((producer, Some ErrInvalidStateToSave), d)
         else (case transactionalSingleRowWriteExec env
                      (insert_producer (producer\<lparr>CreatedAt := dt env (CreatedAt producer),
                                                 UpdatedAt := dt env (UpdatedAt producer)\<rparr>)) d of
                 (err, d') \<Rightarrow> ((producer, err), d')))"

definition producer_Store ::
  "dbenv \<Rightarrow> dbenv \<Rightarrow> xid \<Rightarrow> Producer \<Rightarrow> db \<Rightarrow> (Producer \<times> error option) \<times> db" where
  "producer_Store env env' newid producer d =
     (case producer_Get env (ProducerID producer) d of
        (_, Some _) \<Rightarrow> insertProducer env' newid producer d
      | (inProducer, None) \<Rightarrow>
          if Name producer \<noteq> Name inProducer \<or> Token producer \<noteq> Token inProducer then
            (if \<not> producer_IsInValidState producer then ((zero_producer, Some ErrInvalidStateToSave), d)
             else updateProducer env' inProducer (Name producer) (Token producer) d)
          else ((inProducer, None), d))"

definition producer_GetList ::
  "dbenv \<Rightarrow> Pagination option \<Rightarrow> db \<Rightarrow> (Producer list \<times> Pagination) \<times> error option" where
  "producer_GetList env page d =
     (if bad_page page then (([], no_page), Some ErrPaginationDeadlock)
      else (case queryRows env 0 (select_page ID CreatedAt 25 (the page) (t_producer d)) of
              Inl e \<Rightarrow> (([], no_page), Some e)
            | Inr producers \<Rightarrow> ((producers, page_links ID CreatedAt producers), None)))"

subsection \<open>ConsumerDBRepository\<close>

definition row_consumer :: "Channel option \<Rightarrow> consumer_row \<Rightarrow> Consumer" where
  "row_consumer channel r =
     \<lparr>ID = c_id r, CreatedAt = c_createdAt r, UpdatedAt = c_updatedAt r, Name = c_name r, Token = c_token r,
      ConsumerID = c_consumerId r, CallbackURL = c_callbackUrl r, ConsumingFrom = channel, CType = c_type r\<rparr>"

definition consumer_row_of :: "dbenv \<Rightarrow> Consumer \<Rightarrow> consumer_row" where
  "consumer_row_of env c =
     \<lparr>c_id = ID c, c_consumerId = ConsumerID c, c_channelId = consumer_GetChannelIDSafely c, c_name = Name c,
      c_token = Token c, c_callbackUrl = CallbackURL c, c_type = CType c,
      c_createdAt = dt env (CreatedAt c), c_updatedAt = dt env (UpdatedAt c)\<rparr>"

definition getSingleConsumer ::
  "dbenv \<Rightarrow> (string \<Rightarrow> Channel \<times> error option) \<Rightarrow> (consumer_row \<Rightarrow> bool) \<Rightarrow> bool \<Rightarrow> db \<Rightarrow> Consumer \<times> error option" where
  "getSingleConsumer env chGet P loadChannel d =
     (case querySingleRow env 0 (filter P (t_consumer d)) of
        Inl e \<Rightarrow> (zero_consumer\<lparr>ConsumingFrom := Some zero_channel\<rparr>, Some e)
      | Inr r \<Rightarrow>
          (if loadChannel then
             (case chGet (c_channelId r) of
                (channel, err) \<Rightarrow> (row_consumer (Some channel) r, err))
           else (row_consumer (Some (zero_channel\<lparr>ChannelID := c_channelId r\<rparr>)) r, None)))"

definition consumer_Get ::
  "dbenv \<Rightarrow> (string \<Rightarrow> Channel \<times> error option) \<Rightarrow> string \<Rightarrow> string \<Rightarrow> db \<Rightarrow> Consumer option \<times> error option" where
  "consumer_Get env chGet channelID consumerID d =
     (case chGet channelID of
        (_, Some e) \<Rightarrow> (None, Some e)
      | (channel, None) \<Rightarrow>
          (case getSingleConsumer env chGet
                  (\<lambda>r. sql_like (env_dialect env) channelID (c_channelId r) \<and>
                       sql_like (env_dialect env) consumerID (c_consumerId r)) False d of
             (consumer, None) \<Rightarrow> (Some (consumer\<lparr>ConsumingFrom := Some channel\<rparr>), None)
           | (consumer, Some e) \<Rightarrow> (Some consumer, Some e)))"

definition consumer_GetByID ::
  "dbenv \<Rightarrow> (string \<Rightarrow> Channel \<times> error option) \<Rightarrow> xid \<Rightarrow> db \<Rightarrow> Consumer \<times> error option" where
  "consumer_GetByID env chGet i d =
     getSingleConsumer env chGet (\<lambda>r. sql_like (env_dialect env) i (c_id r)) True d"

definition updateConsumer ::
  "dbenv \<Rightarrow> Consumer \<Rightarrow> string \<Rightarrow> string \<Rightarrow> string \<Rightarrow> ConsumerType \<Rightarrow> db \<Rightarrow> (Consumer \<times> error option) \<times> db" where
  "updateConsumer env consumer name token callbackURL ctype d =
     (let consumer' = consumer\<lparr>Name := name, Token := token, CallbackURL := callbackURL,
                               UpdatedAt := now env, CType := ctype\<rparr>
      in case transactionalSingleRowWriteExec env
                (update_consumer (env_dialect env)
                   (\<lambda>r. c_consumerId r = ConsumerID consumer \<and>
                        c_channelId r = consumer_GetChannelIDSafely consumer)
                   (\<lambda>r. r\<lparr>c_name := name, c_token := token, c_callbackUrl := callbackURL, c_type := ctype,
                          c_updatedAt := dt env (now env)\<rparr>)) d of
           (err, d') \<Rightarrow> ((if begin_err env = None then consumer' else consumer, err), d'))"

definition insertConsumer ::
  "dbenv \<Rightarrow> xid \<Rightarrow> Consumer \<Rightarrow> db \<Rightarrow> (Consumer \<times> error option) \<times> db" where
  "insertConsumer env newid consumer0 d =
     (let consumer = snd (consumer_QuickFix newid (now env) consumer0)
      in if consumer_IsInValidState consumer then
           (case transactionalSingleRowWriteExec env (insert_consumer (consumer_row_of env consumer)) d of
              (err, d') \<Rightarrow> ((consumer, err), d'))
         else ((consumer, Some ErrInvalidStateToSave), d))"

definition consumer_Store ::
  "dbenv \<Rightarrow> dbenv \<Rightarrow> (string \<Rightarrow> Channel \<times> error option) \<Rightarrow> xid \<Rightarrow> Consumer \<Rightarrow> db \<Rightarrow> (Consumer \<times> error option) \<times> db" where
  "consumer_Store env env' chGet newid consumer d =
     (case chGet (consumer_GetChannelIDSafely consumer) of
        (_, Some e) \<Rightarrow> ((zero_consumer, Some e), d)
      | (inChannel, None) \<Rightarrow>
          (case consumer_Get env chGet (ChannelID inChannel) (ConsumerID consumer) d of
             (Some inConsumer, None) \<Rightarrow>
               if Name consumer \<noteq> Name inConsumer \<or> Token consumer \<noteq> Token inConsumer
                  \<or> CallbackURL consumer \<noteq> CallbackURL inConsumer \<or> CType consumer \<noteq> CType inConsumer then
                 (if consumer_IsInValidState consumer then
                    updateConsumer env' inConsumer (Name consumer) (Token consumer) (CallbackURL consumer)
                      (CType consumer) d
                  else ((inConsumer, Some ErrInvalidStateToSave), d))
               else ((inConsumer, None), d)
           | _ \<Rightarrow> insertConsumer env' newid consumer d))"

definition consumer_Delete :: "dbenv \<Rightarrow> Consumer \<Rightarrow> db \<Rightarrow> error option \<times> db" where
  "consumer_Delete env consumer d =
     transactionalSingleRowWriteExec env
       (delete_consumer (\<lambda>r. c_channelId r = consumer_GetChannelIDSafely consumer \<and>
                             c_consumerId r = ConsumerID consumer)) d"

definition consumer_GetList ::
  "dbenv \<Rightarrow> (string \<Rightarrow> Channel \<times> error option) \<Rightarrow> string \<Rightarrow> Pagination option \<Rightarrow> db \<Rightarrow>
   (Consumer list \<times> Pagination) \<times> error option" where
  "consumer_GetList env chGet channelID page d =
     (if bad_page page then (([], no_page), Some ErrPaginationDeadlock)
      else
        (case chGet channelID of
           (_, Some e) \<Rightarrow> (([], no_page), Some e)
         | (channel, None) \<Rightarrow>
             (case queryRows env 0 (select_page c_id c_createdAt 25 (the page)
                     (filter (\<lambda>r. sql_like (env_dialect env) channelID (c_channelId r)) (t_consumer d))) of
                Inl e \<Rightarrow> (([], no_page), Some e)
              | Inr rows \<Rightarrow> ((map (row_consumer (Some channel)) rows, page_links c_id c_createdAt rows), None))))"

end
