(* ===== verification/Memcache.thy ===== *)
theory Memcache
  imports Stakeholder_Repo
begin

section \<open>Cached repositories: storage/memcache.go and the Cached*Repository decorators\<close>

text \<open>
  \<^verbatim>\<open>MemoryCache\<close> keeps values with an expiration time; a ttl of 0 means no expiry, and the clean-up
  goroutine (\<open>cache_cleanup\<close>, one tick) drops what has expired.  The decorators consult it before the
  repository they delegate to, fill it on a miss and drop the entry on a store.  The locale
  \<open>stakeholder_repo\<close> is the contract of a repository keyed by a public id; the plain and the cached
  channel and producer repositories implement it.
\<close>

subsection \<open>MemoryCache\<close>

record 'v CacheItem =
  Value :: 'v
  Expiration :: time

record ('k, 'v) MemoryCache =
  cache :: "('k, 'v CacheItem) gomap"
  ttl :: duration

definition NewMemoryCache :: "duration \<Rightarrow> ('k, 'v) MemoryCache" where
  "NewMemoryCache t = \<lparr>cache = [], ttl = t\<rparr>"

definition cache_Get :: "time \<Rightarrow> 'k \<Rightarrow> ('k, 'v) MemoryCache \<Rightarrow> 'v option" where
  "cache_Get t key c =
     (case mget (cache c) key of
        None \<Rightarrow> None
      | Some item \<Rightarrow> if ttl c = 0 \<or> t < Expiration item then Some (Value item) else None)"

definition cache_Set :: "time \<Rightarrow> 'k \<Rightarrow> 'v \<Rightarrow> ('k, 'v) MemoryCache \<Rightarrow> ('k, 'v) MemoryCache" where
  "cache_Set t key v c =
     (let expiration = (if ttl c = 0 then 0 else t + ttl c)
      in c\<lparr>cache := mput key \<lparr>Value = v, Expiration = expiration\<rparr> (cache c)\<rparr>)"

definition cache_Delete :: "'k \<Rightarrow> ('k, 'v) MemoryCache \<Rightarrow> ('k, 'v) MemoryCache" where
  "cache_Delete key c = c\<lparr>cache := mdel key (cache c)\<rparr>"

definition cache_cleanup :: "time \<Rightarrow> ('k, 'v) MemoryCache \<Rightarrow> ('k, 'v) MemoryCache" where
  "cache_cleanup t c = c\<lparr>cache := filter (\<lambda>(key, item). \<not> t > Expiration item) (cache c)\<rparr>"

lemma cache_Get_Set:
  "cache_Get t' key (cache_Set t key v c) =
     (if ttl c = 0 \<or> t' < t + ttl c then Some v else None)"
  by (simp add: cache_Get_def cache_Set_def Let_def split: option.splits)

lemma cache_Get_Set_other: "key' \<noteq> key \<Longrightarrow> cache_Get t' key' (cache_Set t key v c) = cache_Get t' key' c"
  by (simp add: cache_Get_def cache_Set_def Let_def split: option.splits)

lemma cache_Get_Delete:
  "cache_Get t key' (cache_Delete key c) = (if key' = key then None else cache_Get t key' c)"
  by (simp add: cache_Get_def cache_Delete_def split: option.splits)

text \<open>The clean-up never removes what a lookup at that time or later could still return.\<close>

lemma cleanup_invisible:
  assumes "wf_map (cache c)" "ttl c > 0" "t \<le> t'"
  shows "cache_Get t' key (cache_cleanup t c) = cache_Get t' key c"
proof -
  have f: "mget (filter (\<lambda>(k, item). \<not> t > Expiration item) m) key =
        (case mget m key of None \<Rightarrow> None | Some item \<Rightarrow> if t > Expiration item then None else Some item)"
    if "wf_map m" for m :: "('a, 'b CacheItem) gomap"
    using that
  proof (induction m)
    case (Cons p m)
    obtain k item where p: "p = (k, item)" by (cases p)
    have "mget m k = None" using Cons.prems by (auto simp: p wf_map_def map_of_eq_None_iff)
    then show ?case using Cons by (auto simp: p wf_map_def split: option.splits)
  qed simp
  show ?thesis
    using assms by (auto simp: cache_Get_def cache_cleanup_def f split: option.splits)
qed

subsection \<open>The decorators\<close>

definition cached_channel_Get ::
  "dbenv \<Rightarrow> string \<Rightarrow> (string, Channel) MemoryCache \<times> db \<Rightarrow>
   (Channel \<times> error option) \<times> (string, Channel) MemoryCache \<times> db" where
  "cached_channel_Get env channelID s =
     (case cache_Get (now env) channelID (fst s) of
        Some item \<Rightarrow> ((item, None), s)
      | None \<Rightarrow>
          (case channel_Get env channelID (snd s) of
             (channel, Some e) \<Rightarrow> ((channel, Some e), s)
           | (channel, None) \<Rightarrow> ((channel, None), (cache_Set (now env) channelID channel (fst s), snd s))))"

definition cached_channel_Store ::
  "dbenv \<Rightarrow> dbenv \<Rightarrow> xid \<Rightarrow> Channel \<Rightarrow> (string, Channel) MemoryCache \<times> db \<Rightarrow>
   (Channel \<times> error option) \<times> (string, Channel) MemoryCache \<times> db" where
  "cached_channel_Store env env' newid channel s =
     (case channel_Store env env' newid channel (snd s) of
        ((channel', err), d') \<Rightarrow>
          ((channel', err),
           (if err = None then cache_Delete (ChannelID channel') (fst s) else fst s, d')))"

definition cached_producer_Get ::
  "dbenv \<Rightarrow> string \<Rightarrow> (string, Producer) MemoryCache \<times> db \<Rightarrow>
   (Producer \<times> error option) \<times> (string, Producer) MemoryCache \<times> db" where
  "cached_producer_Get env producerID s =
     (case cache_Get (now env) producerID (fst s) of
        Some item \<Rightarrow> ((item, None), s)
      | None \<Rightarrow>
          (case producer_Get env producerID (snd s) of
             (producer, Some e) \<Rightarrow> ((producer, Some e), s)
           | (producer, None) \<Rightarrow> ((producer, None), (cache_Set (now env) producerID producer (fst s), snd s))))"

definition cached_producer_Store ::
  "dbenv \<Rightarrow> dbenv \<Rightarrow> xid \<Rightarrow> Producer \<Rightarrow> (string, Producer) MemoryCache \<times> db \<Rightarrow>
   (Producer \<times> error option) \<times> (string, Producer) MemoryCache \<times> db" where
  "cached_producer_Store env env' newid producer s =
     (case producer_Store env env' newid producer (snd s) of
        ((producer', err), d') \<Rightarrow>
          ((producer', err),
           (if err = None then cache_Delete (ProducerID producer') (fst s) else fst s, d')))"

definition consumer_cacheKey :: "string \<Rightarrow> string \<Rightarrow> string" where
  "consumer_cacheKey channelID consumerID = channelID @ '':'' @ consumerID"

definition cached_consumer_Get ::
  "dbenv \<Rightarrow> (string \<Rightarrow> Channel \<times> error option) \<Rightarrow> string \<Rightarrow> string \<Rightarrow> (string, Consumer) MemoryCache \<times> db \<Rightarrow>
   (Consumer option \<times> error option) \<times> (string, Consumer) MemoryCache \<times> db" where
  "cached_consumer_Get env chGet channelID consumerID s =
     (case cache_Get (now env) (consumer_cacheKey channelID consumerID) (fst s) of
        Some item \<Rightarrow> ((Some item, None), s)
      | None \<Rightarrow>
          (case consumer_Get env chGet channelID consumerID (snd s) of
             (Some consumer, None) \<Rightarrow>
               ((Some consumer, None),
                (cache_Set (now env) (consumer_cacheKey channelID consumerID) consumer (fst s), snd s))
           | (consumer, err) \<Rightarrow> ((consumer, err), s)))"

definition cached_consumer_GetByID ::
  "dbenv \<Rightarrow> (string \<Rightarrow> Channel \<times> error option) \<Rightarrow> xid \<Rightarrow> (string, Consumer) MemoryCache \<times> db \<Rightarrow>
   (Consumer option \<times> error option) \<times> (string, Consumer) MemoryCache \<times> db" where
  "cached_consumer_GetByID env chGet i s =
     (case cache_Get (now env) i (fst s) of
        Some item \<Rightarrow> ((Some item, None), s)
      | None \<Rightarrow>
          (case consumer_GetByID env chGet i (snd s) of
             (_, Some e) \<Rightarrow> ((None, Some e), s)
           | (consumer, None) \<Rightarrow> ((Some consumer, None), (cache_Set (now env) i consumer (fst s), snd s))))"

definition forget_consumer :: "Consumer \<Rightarrow> (string, Consumer) MemoryCache \<Rightarrow> (string, Consumer) MemoryCache" where
  "forget_consumer consumer c =
     cache_Delete (ID consumer)
       (cache_Delete (consumer_cacheKey (consumer_GetChannelIDSafely consumer) (ConsumerID consumer)) c)"

definition cached_consumer_Store ::
  "dbenv \<Rightarrow> dbenv \<Rightarrow> (string \<Rightarrow> Channel \<times> error option) \<Rightarrow> xid \<Rightarrow> Consumer \<Rightarrow> (string, Consumer) MemoryCache \<times> db \<Rightarrow>
   (Consumer \<times> error option) \<times> (string, Consumer) MemoryCache \<times> db" where
  "cached_consumer_Store env env' chGet newid consumer s =
     (case consumer_Store env env' chGet newid consumer (snd s) of
        ((consumer', err), d') \<Rightarrow>
          ((consumer', err), (if err = None then forget_consumer consumer' (fst s) else fst s, d')))"

definition cached_consumer_Delete ::
  "dbenv \<Rightarrow> Consumer \<Rightarrow> (string, Consumer) MemoryCache \<times> db \<Rightarrow> error option \<times> (string, Consumer) MemoryCache \<times> db" where
  "cached_consumer_Delete env consumer s =
     (case consumer_Delete env consumer (snd s) of
        (err, d') \<Rightarrow> (err, (if err = None then forget_consumer consumer (fst s) else fst s, d')))"

subsection \<open>The contract of a keyed repository\<close>

text \<open>
  \<open>view\<close> is what a stored object must give back (name and token), \<open>get\<close> the lookup by public id and
  \<open>store\<close> the insert-or-update; \<open>ok\<close> says that an object is valid and brings an unused internal id.
\<close>

locale stakeholder_repo =
  fixes good :: "'s \<Rightarrow> bool"
    and ok :: "'s \<Rightarrow> 'v \<Rightarrow> bool"
    and key :: "'v \<Rightarrow> string"
    and view :: "'v \<Rightarrow> 'w"
    and get :: "'s \<Rightarrow> string \<Rightarrow> 'v option"
    and store :: "'v \<Rightarrow> 's \<Rightarrow> 's"
  assumes store_good: "good s \<Longrightarrow> ok s v \<Longrightarrow> good (store v s)"
    and get_store: "good s \<Longrightarrow> ok s v \<Longrightarrow> map_option view (get (store v s) (key v)) = Some (view v)"
    and get_store_other: "good s \<Longrightarrow> ok s v \<Longrightarrow> plain k \<Longrightarrow> k \<noteq> key v \<Longrightarrow> get (store v s) k = get s k"
begin

fun store_all :: "'v list \<Rightarrow> 's \<Rightarrow> 's" where
  "store_all [] s = s"
| "store_all (v # vs) s = store_all vs (store v s)"

fun all_ok :: "'v list \<Rightarrow> 's \<Rightarrow> bool" where
  "all_ok [] s = True"
| "all_ok (v # vs) s = (ok s v \<and> all_ok vs (store v s))"

lemma store_all_good: "good s \<Longrightarrow> all_ok vs s \<Longrightarrow> good (store_all vs s)"
  by (induction vs arbitrary: s) (simp_all add: store_good)

text \<open>After any stores a lookup gives the last object stored under that id.\<close>

lemma last_store_wins:
  "good s \<Longrightarrow> all_ok vs s \<Longrightarrow> plain k \<Longrightarrow>
   map_option view (get (store_all vs s) k) =
     (case filter (\<lambda>v. key v = k) (rev vs) of
        [] \<Rightarrow> map_option view (get s k) | v # _ \<Rightarrow> Some (view v))"
proof (induction vs arbitrary: s)
  case (Cons v vs)
  then have ih: "map_option view (get (store_all vs (store v s)) k) =
     (case filter (\<lambda>v. key v = k) (rev vs) of
        [] \<Rightarrow> map_option view (get (store v s) k) | v # _ \<Rightarrow> Some (view v))"
    by (simp add: store_good)
  show ?case
  proof (cases "key v = k")
    case True
    with Cons.prems have "map_option view (get (store v s) k) = Some (view v)" using get_store [of s v] by simp
    with ih True show ?thesis by (auto split: list.splits)
  next
    case False
    with Cons.prems have "get (store v s) k = get s k" using get_store_other [of s v k] by simp
    with ih False show ?thesis by (auto split: list.splits)
  qed
qed simp

end

subsection \<open>The channel and producer repositories implement it\<close>

definition channel_table_ok :: "db \<Rightarrow> bool" where
  "channel_table_ok d \<longleftrightarrow> distinct (map ChannelID (t_channel d)) \<and> distinct (map ID (t_channel d))"

definition channel_ok :: "db \<Rightarrow> Channel \<Rightarrow> bool" where
  "channel_ok d v \<longleftrightarrow> channel_IsInValidState v \<and> plain (ChannelID v) \<and> ID v \<noteq> nil_xid \<and>
     ID v \<notin> ID ` set (t_channel d)"

definition channel_find :: "db \<Rightarrow> string \<Rightarrow> Channel option" where
  "channel_find d k = (case filter (\<lambda>r. ChannelID r = k) (t_channel d) of [] \<Rightarrow> None | r # _ \<Rightarrow> Some r)"

lemma channel_Get_quiet:
  "quiet env \<Longrightarrow> plain k \<Longrightarrow> channel_Get env k d =
     (case channel_find d k of None \<Rightarrow> (zero_channel, Some ErrNoRows) | Some r \<Rightarrow> (r, None))"
  by (simp add: channel_Get_def querySingleRow_quiet channel_find_def split: list.splits)

lemma channel_find_Some:
  assumes "channel_table_ok d"
  shows "channel_find d k = Some r \<longleftrightarrow> r \<in> set (t_channel d) \<and> ChannelID r = k"
proof
  assume "channel_find d k = Some r"
  then obtain rest where "filter (\<lambda>r. ChannelID r = k) (t_channel d) = r # rest"
    by (auto simp: channel_find_def split: list.splits)
  then have "r \<in> set (filter (\<lambda>r. ChannelID r = k) (t_channel d))" by (metis list.set_intros(1))
  then show "r \<in> set (t_channel d) \<and> ChannelID r = k" by simp
next
  assume "r \<in> set (t_channel d) \<and> ChannelID r = k"
  then have "filter (\<lambda>s. ChannelID s = k) (t_channel d) = [r]"
    using assms filter_key_unique [of ChannelID "t_channel d" r] by (auto simp: channel_table_ok_def)
  then show "channel_find d k = Some r" by (simp add: channel_find_def)
qed

lemma channel_QuickFix_valid:
  assumes "channel_IsInValidState v" "ID v \<noteq> nil_xid"
  shows "snd (channel_QuickFix newid t v) =
    v\<lparr>CreatedAt := if CreatedAt v = 0 then t else CreatedAt v, UpdatedAt := if UpdatedAt v = 0 then t else UpdatedAt v\<rparr>"
  using assms
  by (cases v) (auto simp: channel_QuickFix_def base_QuickFix_def fix_when_def setValIfBothNotEmpty_def
      channel_IsInValidState_def Let_def split: if_splits)

definition channel_after :: "dbenv \<Rightarrow> Channel \<Rightarrow> db \<Rightarrow> db" where
  "channel_after env v d =
     (case channel_find d (ChannelID v) of
        None \<Rightarrow>
          d\<lparr>t_channel := t_channel d @
             [v\<lparr>CreatedAt := dt env (if CreatedAt v = 0 then now env else CreatedAt v),
                UpdatedAt := dt env (if UpdatedAt v = 0 then now env else UpdatedAt v)\<rparr>]\<rparr>
      | Some r \<Rightarrow>
          (if Name v \<noteq> Name r \<or> Token v \<noteq> Token r then
             d\<lparr>t_channel := snd (sql_update (env_dialect env) (\<lambda>s. ChannelID s = ChannelID v)
                (\<lambda>s. s\<lparr>Name := Name v, Token := Token v, UpdatedAt := dt env (now env)\<rparr>) (t_channel d))\<rparr>
           else d))"

lemma channel_Store_quiet:
  assumes "quiet env" "quiet env'" "channel_table_ok d" "channel_ok d v"
  shows "\<exists>w. channel_Store env env' newid v d = ((w, None), channel_after env' v d) \<and> ChannelID w = ChannelID v"
proof -
  have pv: "plain (ChannelID v)" and valid: "channel_IsInValidState v" and nn: "ID v \<noteq> nil_xid"
    using assms(4) by (simp_all add: channel_ok_def)
  show ?thesis
  proof (cases "channel_find d (ChannelID v)")
    case None
    then have nk: "filter (\<lambda>r. ChannelID r = ChannelID v) (t_channel d) = []"
      by (simp add: channel_find_def split: list.splits)
    let ?q = "snd (channel_QuickFix newid (now env') v)"
    let ?r = "?q\<lparr>CreatedAt := dt env' (CreatedAt ?q), UpdatedAt := dt env' (UpdatedAt ?q)\<rparr>"
    have q: "ChannelID ?r = ChannelID v" "ID ?r = ID v" "channel_IsInValidState ?q"
      using valid nn by (simp_all add: channel_QuickFix_valid channel_IsInValidState_def)
    have "\<not> channel_clash ?r s" if "s \<in> set (t_channel d)" for s
      using that q nk assms(4) by (auto simp: channel_clash_def channel_ok_def filter_empty_conv)
    then have "insert_channel ?r d = Inr (1, d\<lparr>t_channel := t_channel d @ [?r]\<rparr>)"
      by (auto simp: insert_channel_def into_table_def list_ex_iff)
    with None q assms(1,2) pv show ?thesis
      by (simp add: channel_Store_def channel_Get_quiet insertChannel_def Let_def single_write_quiet
          channel_after_def channel_QuickFix_valid [OF valid nn])
  next
    case (Some r)
    then have r: "r \<in> set (t_channel d)" "ChannelID r = ChannelID v" using assms(3) by (simp_all add: channel_find_Some)
    let ?f = "\<lambda>s. s\<lparr>Name := Name v, Token := Token v, UpdatedAt := dt env' (now env')\<rparr>"
    have "fst (sql_update (env_dialect env') (\<lambda>s. ChannelID s = ChannelID r) ?f (t_channel d)) = 1"
      if "Name v \<noteq> Name r \<or> Token v \<noteq> Token r"
      by (rule sql_update_key_count) (use that assms(3) r in \<open>cases r; auto simp: channel_table_ok_def\<close>)+
    then have "update_channel (env_dialect env') (\<lambda>s. ChannelID s = ChannelID r) ?f d =
        Inr (1, d\<lparr>t_channel := snd (sql_update (env_dialect env') (\<lambda>s. ChannelID s = ChannelID r) ?f (t_channel d))\<rparr>)"
      if "Name v \<noteq> Name r \<or> Token v \<noteq> Token r"
      using that by (auto simp: update_channel_def split: prod.splits)
    with Some r assms(1,2) pv valid show ?thesis
      by (auto simp: channel_Store_def channel_Get_quiet updateChannel_def Let_def single_write_quiet
          channel_after_def)
  qed
qed

lemma channel_after_find:
  assumes "channel_table_ok d" "channel_ok d v"
  shows "channel_find (channel_after env v d) k =
    (if k \<noteq> ChannelID v then channel_find d k
     else channel_find (channel_after env v d) (ChannelID v))"
    and "map_option (\<lambda>w. (Name w, Token w)) (channel_find (channel_after env v d) (ChannelID v)) = Some (Name v, Token v)"
proof -
  show "channel_find (channel_after env v d) k =
    (if k \<noteq> ChannelID v then channel_find d k
     else channel_find (channel_after env v d) (ChannelID v))"
    by (auto simp: channel_after_def channel_find_def sql_update_key_filter split: option.splits)
  show "map_option (\<lambda>w. (Name w, Token w)) (channel_find (channel_after env v d) (ChannelID v)) = Some (Name v, Token v)"
    by (auto simp: channel_after_def channel_find_def sql_update_key_filter split: list.splits)
qed

lemma channel_after_ok:
  assumes "channel_table_ok d" "channel_ok d v"
  shows "channel_table_ok (channel_after env v d)"
proof (cases "channel_find d (ChannelID v)")
  case None
  then have "ChannelID v \<notin> ChannelID ` set (t_channel d)" "ID v \<notin> ID ` set (t_channel d)"
    using assms(2) by (auto simp: channel_find_def channel_ok_def filter_empty_conv split: list.splits)
  with None assms(1) show ?thesis by (auto simp: channel_after_def channel_table_ok_def)
next
  case (Some r)
  with assms(1) show ?thesis by (simp add: channel_after_def channel_table_ok_def sql_update_map)
qed

interpretation channels: stakeholder_repo channel_table_ok channel_ok ChannelID "\<lambda>w. (Name w, Token w)"
  channel_find "\<lambda>v d. snd (channel_Store (calm di t) (calm di t) newid v d)" for di t newid
proof unfold_locales
  fix d v k
  assume a: "channel_table_ok d" "channel_ok d v"
  have e: "snd (channel_Store (calm di t) (calm di t) newid v d) = channel_after (calm di t) v d"
    using channel_Store_quiet [OF _ _ a, of "calm di t" "calm di t" newid] by auto
  show "channel_table_ok (snd (channel_Store (calm di t) (calm di t) newid v d))"
    using channel_after_ok [OF a] by (simp add: e)
  show "map_option (\<lambda>w. (Name w, Token w)) (channel_find (snd (channel_Store (calm di t) (calm di t) newid v d)) (ChannelID v))
      = Some (Name v, Token v)"
    using channel_after_find(2) [OF a] by (simp add: e)
  show "k \<noteq> ChannelID v \<Longrightarrow>
      channel_find (snd (channel_Store (calm di t) (calm di t) newid v d)) k = channel_find d k"
    using channel_after_find(1) [OF a, of "calm di t" k] by (simp add: e)
qed

definition producer_table_ok :: "db \<Rightarrow> bool" where
  "producer_table_ok d \<longleftrightarrow> distinct (map ProducerID (t_producer d)) \<and> distinct (map ID (t_producer d))"

definition producer_ok :: "db \<Rightarrow> Producer \<Rightarrow> bool" where
  "producer_ok d v \<longleftrightarrow> producer_IsInValidState v \<and> plain (ProducerID v) \<and> ID v \<noteq> nil_xid \<and>
     ID v \<notin> ID ` set (t_producer d)"

definition producer_find :: "db \<Rightarrow> string \<Rightarrow> Producer option" where
  "producer_find d k = (case filter (\<lambda>r. ProducerID r = k) (t_producer d) of [] \<Rightarrow> None | r # _ \<Rightarrow> Some r)"

lemma producer_Get_quiet:
  "quiet env \<Longrightarrow> plain k \<Longrightarrow> producer_Get env k d =
     (case producer_find d k of None \<Rightarrow> (zero_producer, Some ErrNoRows) | Some r \<Rightarrow> (r, None))"
  by (simp add: producer_Get_def querySingleRow_quiet producer_find_def split: list.splits)

lemma producer_find_Some:
  assumes "producer_table_ok d"
  shows "producer_find d k = Some r \<longleftrightarrow> r \<in> set (t_producer d) \<and> ProducerID r = k"
proof
  assume "producer_find d k = Some r"
  then obtain rest where "filter (\<lambda>r. ProducerID r = k) (t_producer d) = r # rest"
    by (auto simp: producer_find_def split: list.splits)
  then have "r \<in> set (filter (\<lambda>r. ProducerID r = k) (t_producer d))" by (metis list.set_intros(1))
  then show "r \<in> set (t_producer d) \<and> ProducerID r = k" by simp
next
  assume "r \<in> set (t_producer d) \<and> ProducerID r = k"
  then have "filter (\<lambda>s. ProducerID s = k) (t_producer d) = [r]"
    using assms filter_key_unique [of ProducerID "t_producer d" r] by (auto simp: producer_table_ok_def)
  then show "producer_find d k = Some r" by (simp add: producer_find_def)
qed

lemma producer_QuickFix_valid:
  assumes "producer_IsInValidState v" "ID v \<noteq> nil_xid"
  shows "snd (producer_QuickFix newid t v) =
    v\<lparr>CreatedAt := if CreatedAt v = 0 then t else CreatedAt v, UpdatedAt := if UpdatedAt v = 0 then t else UpdatedAt v\<rparr>"
  using assms
  by (cases v) (auto simp: producer_QuickFix_def base_QuickFix_def fix_when_def setValIfBothNotEmpty_def
      producer_IsInValidState_def Let_def split: if_splits)

definition producer_after :: "dbenv \<Rightarrow> Producer \<Rightarrow> db \<Rightarrow> db" where
  "producer_after env v d =
     (case producer_find d (ProducerID v) of
        None \<Rightarrow>
          d\<lparr>t_producer := t_producer d @
             [v\<lparr>CreatedAt := dt env (if CreatedAt v = 0 then now env else CreatedAt v),
                UpdatedAt := dt env (if UpdatedAt v = 0 then now env else UpdatedAt v)\<rparr>]\<rparr>
      | Some r \<Rightarrow>
          (if Name v \<noteq> Name r \<or> Token v \<noteq> Token r then
             d\<lparr>t_producer := snd (sql_update (env_dialect env) (\<lambda>s. ProducerID s = ProducerID v)
                (\<lambda>s. s\<lparr>Name := Name v, Token := Token v, UpdatedAt := dt env (now env)\<rparr>) (t_producer d))\<rparr>
           else d))"

lemma producer_Store_quiet:
  assumes "quiet env" "quiet env'" "producer_table_ok d" "producer_ok d v"
  shows "\<exists>w. producer_Store env env' newid v d = ((w, None), producer_after env' v d) \<and> ProducerID w = ProducerID v"
proof -
  have pv: "plain (ProducerID v)" and valid: "producer_IsInValidState v" and nn: "ID v \<noteq> nil_xid"
    using assms(4) by (simp_all add: producer_ok_def)
  show ?thesis
  proof (cases "producer_find d (ProducerID v)")
    case None
    then have nk: "filter (\<lambda>r. ProducerID r = ProducerID v) (t_producer d) = []"
      by (simp add: producer_find_def split: list.splits)
    let ?q = "snd (producer_QuickFix newid (now env') v)"
    let ?r = "?q\<lparr>CreatedAt := dt env' (CreatedAt ?q), UpdatedAt := dt env' (UpdatedAt ?q)\<rparr>"
    have q: "ProducerID ?r = ProducerID v" "ID ?r = ID v" "producer_IsInValidState ?q"
      using valid nn by (simp_all add: producer_QuickFix_valid producer_IsInValidState_def)
    have "\<not> producer_clash ?r s" if "s \<in> set (t_producer d)" for s
      using that q nk assms(4) by (auto simp: producer_clash_def producer_ok_def filter_empty_conv)
    then have "insert_producer ?r d = Inr (1, d\<lparr>t_producer := t_producer d @ [?r]\<rparr>)"
      by (auto simp: insert_producer_def into_table_def list_ex_iff)
    with None q assms(1,2) pv show ?thesis
      by (simp add: producer_Store_def producer_Get_quiet insertProducer_def Let_def single_write_quiet
          producer_after_def producer_QuickFix_valid [OF valid nn])
  next
    case (Some r)
    then have r: "r \<in> set (t_producer d)" "ProducerID r = ProducerID v" using assms(3) by (simp_all add: producer_find_Some)
    let ?f = "\<lambda>s. s\<lparr>Name := Name v, Token := Token v, UpdatedAt := dt env' (now env')\<rparr>"
    have "fst (sql_update (env_dialect env') (\<lambda>s. ProducerID s = ProducerID r) ?f (t_producer d)) = 1"
      if "Name v \<noteq> Name r \<or> Token v \<noteq> Token r"
      by (rule sql_update_key_count) (use that assms(3) r in \<open>cases r; auto simp: producer_table_ok_def\<close>)+
    then have "update_producer (env_dialect env') (\<lambda>s. ProducerID s = ProducerID r) ?f d =
        Inr (1, d\<lparr>t_producer := snd (sql_update (env_dialect env') (\<lambda>s. ProducerID s = ProducerID r) ?f (t_producer d))\<rparr>)"
      if "Name v \<noteq> Name r \<or> Token v \<noteq> Token r"
      using that by (auto simp: update_producer_def split: prod.splits)
    with Some r assms(1,2) pv valid show ?thesis
      by (auto simp: producer_Store_def producer_Get_quiet updateProducer_def Let_def single_write_quiet
          producer_after_def)
  qed
qed

lemma producer_after_find:
  assumes "producer_table_ok d" "producer_ok d v"
  shows "producer_find (producer_after env v d) k =
    (if k \<noteq> ProducerID v then producer_find d k
     else producer_find (producer_after env v d) (ProducerID v))"
    and "map_option (\<lambda>w. (Name w, Token w)) (producer_find (producer_after env v d) (ProducerID v)) = Some (Name v, Token v)"
proof -
  show "producer_find (producer_after env v d) k =
    (if k \<noteq> ProducerID v then producer_find d k
     else producer_find (producer_after env v d) (ProducerID v))"
    by (auto simp: producer_after_def producer_find_def sql_update_key_filter split: option.splits)
  show "map_option (\<lambda>w. (Name w, Token w)) (producer_find (producer_after env v d) (ProducerID v)) = Some (Name v, Token v)"
    by (auto simp: producer_after_def producer_find_def sql_update_key_filter split: list.splits)
qed

lemma producer_after_ok:
  assumes "producer_table_ok d" "producer_ok d v"
  shows "producer_table_ok (producer_after env v d)"
proof (cases "producer_find d (ProducerID v)")
  case None
  then have "ProducerID v \<notin> ProducerID ` set (t_producer d)" "ID v \<notin> ID ` set (t_producer d)"
    using assms(2) by (auto simp: producer_find_def producer_ok_def filter_empty_conv split: list.splits)
  with None assms(1) show ?thesis by (auto simp: producer_after_def producer_table_ok_def)
next
  case (Some r)
  with assms(1) show ?thesis by (simp add: producer_after_def producer_table_ok_def sql_update_map)
qed

interpretation producers: stakeholder_repo producer_table_ok producer_ok ProducerID "\<lambda>w. (Name w, Token w)"
  producer_find "\<lambda>v d. snd (producer_Store (calm di t) (calm di t) newid v d)" for di t newid
proof unfold_locales
  fix d v k
  assume a: "producer_table_ok d" "producer_ok d v"
  have e: "snd (producer_Store (calm di t) (calm di t) newid v d) = producer_after (calm di t) v d"
    using producer_Store_quiet [OF _ _ a, of "calm di t" "calm di t" newid] by auto
  show "producer_table_ok (snd (producer_Store (calm di t) (calm di t) newid v d))"
    using producer_after_ok [OF a] by (simp add: e)
  show "map_option (\<lambda>w. (Name w, Token w)) (producer_find (snd (producer_Store (calm di t) (calm di t) newid v d)) (ProducerID v))
      = Some (Name v, Token v)"
    using producer_after_find(2) [OF a] by (simp add: e)
  show "k \<noteq> ProducerID v \<Longrightarrow>
      producer_find (snd (producer_Store (calm di t) (calm di t) newid v d)) k = producer_find d k"
    using producer_after_find(1) [OF a, of "calm di t" k] by (simp add: e)
qed

subsection \<open>The cached channel repository\<close>

definition coherent :: "(string, Channel) MemoryCache \<times> db \<Rightarrow> bool" where
  "coherent s \<longleftrightarrow> channel_table_ok (snd s) \<and>
     (\<forall>k item. plain k \<longrightarrow> mget (cache (fst s)) k = Some item \<longrightarrow> channel_find (snd s) k = Some (Value item))"

lemma coherent_Get:
  assumes "coherent s" "quiet env" "plain k"
  shows "fst (cached_channel_Get env k s) = channel_Get env k (snd s)"
    and "coherent (snd (cached_channel_Get env k' s))"
    and "snd (snd (cached_channel_Get env k' s)) = snd s"
proof -
  show "fst (cached_channel_Get env k s) = channel_Get env k (snd s)"
  proof (cases "cache_Get (now env) k (fst s)")
    case None
    then show ?thesis by (auto simp: cached_channel_Get_def split: prod.splits option.splits)
  next
    case (Some v)
    then have "channel_find (snd s) k = Some v"
      using assms(1,3) by (auto simp: cache_Get_def coherent_def split: option.splits if_splits)
    with Some assms(2,3) show ?thesis by (simp add: cached_channel_Get_def channel_Get_quiet)
  qed
  show "coherent (snd (cached_channel_Get env k' s))"
  proof (cases "plain k'")
    case True
    then show ?thesis
      using assms(1,2)
      by (auto simp: cached_channel_Get_def coherent_def channel_Get_quiet cache_Set_def Let_def
          split: option.splits)
  next
    case False
    then show ?thesis
      using assms(1)
      by (auto simp: cached_channel_Get_def coherent_def cache_Set_def Let_def split: option.splits prod.splits)
  qed
  show "snd (snd (cached_channel_Get env k' s)) = snd s"
    by (auto simp: cached_channel_Get_def split: option.splits prod.splits)
qed

lemma coherent_Store:
  assumes "coherent s" "quiet env" "quiet env'" "channel_ok (snd s) v"
  shows "coherent (snd (cached_channel_Store env env' newid v s))"
    and "snd (snd (cached_channel_Store env env' newid v s)) = channel_after env' v (snd s)"
proof -
  have t: "channel_table_ok (snd s)" using assms(1) by (simp add: coherent_def)
  obtain w where w: "channel_Store env env' newid v (snd s) = ((w, None), channel_after env' v (snd s))"
    "ChannelID w = ChannelID v"
    using channel_Store_quiet [OF assms(2,3) t assms(4)] by blast
  have f: "channel_find (channel_after env' v (snd s)) k = channel_find (snd s) k" if "k \<noteq> ChannelID v" for k
    using channel_after_find(1) [OF t assms(4), of env' k] that by simp
  show "coherent (snd (cached_channel_Store env env' newid v s))"
    using assms(1) channel_after_ok [OF t assms(4), of env'] w f
    by (auto simp: cached_channel_Store_def coherent_def cache_Delete_def)
  show "snd (snd (cached_channel_Store env env' newid v s)) = channel_after env' v (snd s)"
    by (simp add: cached_channel_Store_def w)
qed

interpretation cached_channels: stakeholder_repo coherent "\<lambda>s. channel_ok (snd s)" ChannelID
  "\<lambda>w. (Name w, Token w)"
  "\<lambda>s k. if plain k then (case fst (cached_channel_Get (calm di t) k s) of (v, None) \<Rightarrow> Some v | _ \<Rightarrow> None) else None"
  "\<lambda>v s. snd (cached_channel_Store (calm di t) (calm di t) newid v s)" for di t newid
proof unfold_locales
  fix s v k
  assume a: "coherent s" "channel_ok (snd s) v"
  let ?env = "calm di t"
  let ?s' = "snd (cached_channel_Store ?env ?env newid v s)"
  have t: "channel_table_ok (snd s)" using a(1) by (simp add: coherent_def)
  have c: "coherent ?s'" and d: "snd ?s' = channel_after ?env v (snd s)"
    using coherent_Store [OF a(1) _ _ a(2), of ?env ?env newid] by simp_all
  have g: "(case fst (cached_channel_Get ?env k s) of (v, None) \<Rightarrow> Some v | _ \<Rightarrow> None) = channel_find (snd s) k"
    if "coherent s" "plain k" for s k
    using coherent_Get(1) [OF that(1) _ that(2), of ?env] that(2) by (simp add: channel_Get_quiet split: option.splits)
  show "coherent ?s'" by (rule c)
  have "plain (ChannelID v)" using a(2) by (simp add: channel_ok_def)
  then show "map_option (\<lambda>w. (Name w, Token w))
      (if plain (ChannelID v) then (case fst (cached_channel_Get ?env (ChannelID v) ?s') of (v, None) \<Rightarrow> Some v | _ \<Rightarrow> None)
       else None) = Some (Name v, Token v)"
    using channel_after_find(2) [OF t a(2), of ?env] g [OF c] by (simp add: d)
  show "plain k \<Longrightarrow> k \<noteq> ChannelID v \<Longrightarrow>
      (if plain k then (case fst (cached_channel_Get ?env k ?s') of (v, None) \<Rightarrow> Some v | _ \<Rightarrow> None) else None) =
      (if plain k then (case fst (cached_channel_Get ?env k s) of (v, None) \<Rightarrow> Some v | _ \<Rightarrow> None) else None)"
    using channel_after_find(1) [OF t a(2), of ?env k] g [OF c, of k] g [OF a(1), of k] by (simp add: d)
qed

subsection \<open>Properties\<close>

datatype channel_op = OpChGet dbenv string | OpChStore dbenv dbenv xid Channel

fun cached_run ::
  "channel_op list \<Rightarrow> (string, Channel) MemoryCache \<times> db \<Rightarrow> (string, Channel) MemoryCache \<times> db" where
  "cached_run [] s = s"
| "cached_run (OpChGet env k # ops) s = cached_run ops (snd (cached_channel_Get env k s))"
| "cached_run (OpChStore env env' i v # ops) s = cached_run ops (snd (cached_channel_Store env env' i v s))"

fun plain_run :: "channel_op list \<Rightarrow> db \<Rightarrow> db" where
  "plain_run [] d = d"
| "plain_run (OpChGet env k # ops) d = plain_run ops d"
| "plain_run (OpChStore env env' i v # ops) d = plain_run ops (snd (channel_Store env env' i v d))"

fun run_ok :: "channel_op list \<Rightarrow> db \<Rightarrow> bool" where
  "run_ok [] d = True"
| "run_ok (OpChGet env k # ops) d = (quiet env \<and> run_ok ops d)"
| "run_ok (OpChStore env env' i v # ops) d =
     (quiet env \<and> quiet env' \<and> channel_ok d v \<and> run_ok ops (snd (channel_Store env env' i v d)))"

lemma cached_run_coherent:
  "coherent s \<Longrightarrow> run_ok ops (snd s) \<Longrightarrow>
   coherent (cached_run ops s) \<and> snd (cached_run ops s) = plain_run ops (snd s)"
proof (induction ops arbitrary: s)
  case (Cons op ops)
  show ?case
  proof (cases op)
    case (OpChGet env k)
    have "plain ''''" by (simp add: plain_def)
    then show ?thesis using Cons OpChGet coherent_Get [OF Cons.prems(1), of env "''''"] by simp
  next
    case (OpChStore env env' i v)
    have t: "channel_table_ok (snd s)" using Cons.prems(1) by (simp add: coherent_def)
    have q: "quiet env" "quiet env'" "channel_ok (snd s) v" using Cons.prems(2) OpChStore by simp_all
    have "snd (channel_Store env env' i v (snd s)) = channel_after env' v (snd s)"
      using channel_Store_quiet [OF q(1,2) t q(3), of i] by auto
    then show ?thesis
      using Cons OpChStore coherent_Store [OF Cons.prems(1) q, of i] by simp
  qed
qed simp


definition cached_channel :: "string \<Rightarrow> string \<Rightarrow> Channel" where
  "cached_channel i t =
     \<lparr>ID = i, CreatedAt = 0, UpdatedAt = 0, Name = ''n'', Token = t, ChannelID = ''ch''\<rparr>"

definition cached_ops :: "channel_op list" where
  "cached_ops =
    [OpChStore (calm MySQLDialect 5) (calm MySQLDialect 5) ''x'' (cached_channel ''i1'' ''t1''),
     OpChGet (calm MySQLDialect 6) ''ch'',
     OpChStore (calm MySQLDialect 7) (calm MySQLDialect 7) ''x'' (cached_channel ''i2'' ''t2'')]"


text \<open>The composite key of the consumer cache does not separate two consumers whose ids contain a colon.\<close>

lemma consumer_cacheKey_collides:
  "consumer_cacheKey ''a:b'' ''c'' = consumer_cacheKey ''a'' ''b:c''"
  by (simp add: consumer_cacheKey_def)

end
