(* ===== verification/Config.thy ===== *)
theory Config
  imports Data_Model
begin

section \<open>Configuration: config\<close>

text \<open>
  The configuration file as the INI package resolves it is a list of sections, each with its keys and
  values in the order of the file; the package's own conversions of a value to an unsigned integer and
  to a boolean are the two fields of \<open>ini_api\<close>.  A \<^verbatim>\<open>Must\<close> accessor gives its default when the
  conversion fails, \<^verbatim>\<open>MustString\<close> when the value is empty.  A set-up function that reads a section or
  key the file does not have dereferences nil: the result is \<open>None\<close>.  Every set-up function has the
  fields of \<^verbatim>\<open>Config\<close> it writes.  \<open>wrap64\<close> is the arithmetic of \<^verbatim>\<open>int64\<close>.
\<close>

subsection \<open>Integers and text\<close>

definition wrap64 :: "int \<Rightarrow> int" where
  "wrap64 x = (x + 2 ^ 63) mod 2 ^ 64 - 2 ^ 63"

definition seconds :: "nat \<Rightarrow> duration" where
  "seconds n = wrap64 (int n * second)"

fun split_on :: "char \<Rightarrow> string \<Rightarrow> string list" where
  "split_on c [] = [[]]"
| "split_on c (x # xs) =
     (if x = c then [] # split_on c xs
      else (case split_on c xs of [] \<Rightarrow> [[x]] | s # ss \<Rightarrow> (x # s) # ss))"

definition digit_val :: "char \<Rightarrow> nat option" where
  "digit_val c = (if is_digit c then Some (ord c - 48) else None)"

fun dec_val :: "nat \<Rightarrow> string \<Rightarrow> nat option" where
  "dec_val acc [] = Some acc"
| "dec_val acc (c # s) = (case digit_val c of None \<Rightarrow> None | Some k \<Rightarrow> dec_val (10 * acc + k) s)"

text \<open>\<^verbatim>\<open>strconv.ParseUint(s, 10, 32)\<close>: \<open>None\<close> on a syntax or range error.\<close>

definition ParseUint32 :: "string \<Rightarrow> nat option" where
  "ParseUint32 s =
     (if s = [] then None
      else (case dec_val 0 s of None \<Rightarrow> None | Some n \<Rightarrow> if n < 2 ^ 32 then Some n else None))"

definition is_space :: "char \<Rightarrow> bool" where
  "is_space c \<longleftrightarrow> c = CHR '' '' \<or> (9 \<le> ord c \<and> ord c \<le> 13)"

definition TrimSpace :: "string \<Rightarrow> string" where
  "TrimSpace s = rev (dropWhile is_space (rev (dropWhile is_space s)))"

subsection \<open>The INI file\<close>

type_synonym section_keys = "(string, string) gomap"
type_synonym ini_file = "(string, section_keys) gomap"

record ini_api =
  key_Uint :: "string \<Rightarrow> nat option"
  key_Bool :: "string \<Rightarrow> bool option"

definition MustUint :: "ini_api \<Rightarrow> string \<Rightarrow> nat \<Rightarrow> nat" where
  "MustUint api v dflt = (case key_Uint api v of None \<Rightarrow> dflt | Some n \<Rightarrow> n)"

definition MustBool :: "ini_api \<Rightarrow> string \<Rightarrow> bool \<Rightarrow> bool" where
  "MustBool api v dflt = (case key_Bool api v of None \<Rightarrow> dflt | Some b \<Rightarrow> b)"

definition MustString :: "string \<Rightarrow> string \<Rightarrow> string" where
  "MustString v dflt = (if v = [] then dflt else v)"

text \<open>\<^verbatim>\<open>section.Key(name)\<close> of a missing key is an empty one.\<close>

definition sec_Key :: "section_keys \<Rightarrow> string \<Rightarrow> string" where
  "sec_Key sec k = (case mget sec k of None \<Rightarrow> '''' | Some v \<Rightarrow> v)"

subsection \<open>Config\<close>

record SeedProducer =
  seed_ID :: string
  seed_Name :: string
  seed_Token :: string

record SeedConsumer = SeedProducer +
  seed_CallbackURL :: string
  seed_Channel :: string
  seed_Type :: string

record SeedData =
  DataHash :: string
  Producers :: "SeedProducer list"
  Channels :: "SeedProducer list"
  Consumers :: "SeedConsumer list"

datatype LogLevel = Debug | Info | Error | Fatal

record Config =
  DBDialect :: string
  DBConnectionURL :: string
  DBConnectionMaxIdleTime :: duration
  DBConnectionMaxLifetime :: duration
  DBMaxIdleConnections :: nat
  DBMaxOpenConnections :: nat
  HTTPListeningAddr :: string
  HTTPReadTimeout :: duration
  HTTPWriteTimeout :: duration
  LogFilename :: string
  MaxFileSize :: nat
  MaxBackups :: nat
  MaxAge :: nat
  CompressBackupsEnabled :: bool
  cfg_SeedData :: SeedData
  TokenRequestHeaderName :: string
  UserAgent :: string
  ConnectionTimeout :: duration
  MaxMessageQueueSize :: nat
  MaxWorkers :: nat
  PriorityDispatcherEnabled :: bool
  RecoveryWorkersEnabled :: bool
  RetriggerBaseEndpoint :: string
  MaxRetry :: nat
  RationalDelay :: duration
  RetryBackoffDelays :: "duration list"
  DefaultConsumerMaxConcurrency :: nat
  ConsumerMaxConcurrencyOverrides :: "(string, nat) gomap"
  cfg_LogLevel :: LogLevel
  ExportPath :: string
  ExportNodeName :: string
  MessageRetentionDays :: nat
  RemoteExportDestination :: string
  RemoteExportURL :: "string option"
  RemoteFilePrefix :: string
  MaxArchiveFileSizeInMB :: nat
  SchedulerIntervalMs :: nat
  MinScheduleDelayMinutes :: nat
  SchedulerBatchSize :: nat
  DLQSummaryUpdateIntervalSeconds :: nat
  GatewayAuthMode :: string
  HMACSharedSecret :: string
  HMACTimestampToleranceSeconds :: nat
  AuthExemptPaths :: string
  DispatchPauseAdminToken :: string
  RegistryRefreshIntervalSeconds :: nat
  DrainIntervalSeconds :: nat
  DrainPageSize :: nat
  HandoffMode :: string
  HandoffLeaseSeconds :: nat
  HandoffTimeoutSeconds :: nat
  HandoffMaxAttempts :: nat
  HandoffConcurrency :: nat
  HandoffHighWaterMark :: nat
  HandoffLocalFallbackDisabled :: bool

definition zero_config :: Config where
  "zero_config =
     \<lparr>DBDialect = '''', DBConnectionURL = '''', DBConnectionMaxIdleTime = 0, DBConnectionMaxLifetime = 0,
      DBMaxIdleConnections = 0, DBMaxOpenConnections = 0, HTTPListeningAddr = '''', HTTPReadTimeout = 0,
      HTTPWriteTimeout = 0, LogFilename = '''', MaxFileSize = 0, MaxBackups = 0, MaxAge = 0,
      CompressBackupsEnabled = False,
      cfg_SeedData = \<lparr>DataHash = '''', Producers = [], Channels = [], Consumers = []\<rparr>,
      TokenRequestHeaderName = '''', UserAgent = '''', ConnectionTimeout = 0, MaxMessageQueueSize = 0,
      MaxWorkers = 0, PriorityDispatcherEnabled = False, RecoveryWorkersEnabled = False,
      RetriggerBaseEndpoint = '''', MaxRetry = 0, RationalDelay = 0, RetryBackoffDelays = [],
      DefaultConsumerMaxConcurrency = 0, ConsumerMaxConcurrencyOverrides = [], cfg_LogLevel = Debug,
      ExportPath = '''', ExportNodeName = '''', MessageRetentionDays = 0, RemoteExportDestination = '''',
      RemoteExportURL = None, RemoteFilePrefix = '''', MaxArchiveFileSizeInMB = 0, SchedulerIntervalMs = 0,
      MinScheduleDelayMinutes = 0, SchedulerBatchSize = 0, DLQSummaryUpdateIntervalSeconds = 0,
      GatewayAuthMode = '''', HMACSharedSecret = '''', HMACTimestampToleranceSeconds = 0, AuthExemptPaths = '''',
      DispatchPauseAdminToken = '''', RegistryRefreshIntervalSeconds = 0, DrainIntervalSeconds = 0,
      DrainPageSize = 0, HandoffMode = '''', HandoffLeaseSeconds = 0, HandoffTimeoutSeconds = 0,
      HandoffMaxAttempts = 0, HandoffConcurrency = 0, HandoffHighWaterMark = 0,
      HandoffLocalFallbackDisabled = False\<rparr>"

subsection \<open>Set-up functions\<close>

definition setupStorageConfiguration :: "ini_api \<Rightarrow> ini_file \<Rightarrow> Config \<Rightarrow> Config option" where
  "setupStorageConfiguration api cfg configuration =
     (case mget cfg ''rdbms'' of None \<Rightarrow> None | Some s \<Rightarrow>
      (case (mget s ''dialect'', mget s ''connection-url'', mget s ''connxn-max-idle-time-seconds'',
             mget s ''connxn-max-lifetime-seconds'', mget s ''max-idle-connxns'', mget s ''max-open-connxns'') of
         (Some dialect, Some url, Some idle, Some life, Some maxIdle, Some maxOpen) \<Rightarrow>
           Some (configuration\<lparr>DBDialect := dialect, DBConnectionURL := url,
             DBConnectionMaxIdleTime := seconds (MustUint api idle 0),
             DBConnectionMaxLifetime := seconds (MustUint api life 0),
             DBMaxIdleConnections := MustUint api maxIdle 10 mod 2 ^ 16,
             DBMaxOpenConnections := MustUint api maxOpen 50 mod 2 ^ 16\<rparr>)
       | _ \<Rightarrow> None))"

definition setupHTTPConfiguration :: "ini_api \<Rightarrow> ini_file \<Rightarrow> Config \<Rightarrow> Config option" where
  "setupHTTPConfiguration api cfg configuration =
     (case mget cfg ''http'' of None \<Rightarrow> None | Some s \<Rightarrow>
      (case (mget s ''listener'', mget s ''read-timeout'', mget s ''write-timeout'') of
         (Some listener, Some readTimeout, Some writeTimeout) \<Rightarrow>
           Some (configuration\<lparr>HTTPListeningAddr := listener,
             HTTPReadTimeout := seconds (MustUint api readTimeout 180),
             HTTPWriteTimeout := seconds (MustUint api writeTimeout 180)\<rparr>)
       | _ \<Rightarrow> None))"

definition setupLogConfiguration :: "ini_api \<Rightarrow> ini_file \<Rightarrow> Config \<Rightarrow> Config option" where
  "setupLogConfiguration api cfg configuration =
     (case mget cfg ''log'' of None \<Rightarrow> None | Some s \<Rightarrow>
      (case (mget s ''filename'', mget s ''max-file-size-in-mb'', mget s ''max-backups'', mget s ''max-age-in-days'',
             mget s ''compress-backups'', mget s ''log-level'') of
         (Some fname, Some maxSize, Some backups, Some age, Some compress, Some level) \<Rightarrow>
           Some (configuration\<lparr>LogFilename := fname, MaxFileSize := MustUint api maxSize 50,
             MaxBackups := MustUint api backups 1, MaxAge := MustUint api age 30,
             CompressBackupsEnabled := MustBool api compress False,
             cfg_LogLevel := (let l = MustString level ''info'' in
                if l = ''fatal'' then Fatal else if l = ''error'' then Error
                else if l = ''debug'' then Debug else Info)\<rparr>)
       | _ \<Rightarrow> None))"

definition setupMessagePruningConfiguration :: "ini_api \<Rightarrow> ini_file \<Rightarrow> Config \<Rightarrow> Config" where
  "setupMessagePruningConfiguration api cfg configuration =
     (case mget cfg ''prune'' of None \<Rightarrow> configuration | Some s \<Rightarrow>
        let url = MustString (sec_Key s ''remote-export-url'') ''''
        in configuration\<lparr>ExportNodeName := MustString (sec_Key s ''export-node-name'') '''',
             MessageRetentionDays := MustUint api (sec_Key s ''message-retention-days'') 0,
             RemoteExportDestination := MustString (sec_Key s ''remote-export-destination'') '''',
             RemoteExportURL := (if length url > 0 \<and> absolute_url url then Some url else RemoteExportURL configuration),
             ExportPath := MustString (sec_Key s ''export-path'') '''',
             RemoteFilePrefix := MustString (sec_Key s ''remote-file-prefix'') '''',
             MaxArchiveFileSizeInMB := MustUint api (sec_Key s ''max-archive-file-size-in-mb'') 100\<rparr>)"

definition parseProducers :: "section_keys \<Rightarrow> section_keys \<Rightarrow> SeedProducer list" where
  "parseProducers initialProducers initialProducerTokens =
     map (\<lambda>(name, val). \<lparr>seed_ID = name, seed_Name = MustString val '''',
            seed_Token = (case mget initialProducerTokens name of None \<Rightarrow> '''' | Some t \<Rightarrow> MustString t '''')\<rparr>)
       initialProducers"

definition getChannelForConsumer :: "section_keys \<Rightarrow> SeedProducer list \<Rightarrow> string option" where
  "getChannelForConsumer consumerSection seedChannels =
     (case mget consumerSection ''channel'' of
        None \<Rightarrow> None
      | Some v \<Rightarrow> if list_ex (\<lambda>c. v = seed_ID c) seedChannels then Some v else None)"

definition getConsumerType :: "section_keys \<Rightarrow> string option" where
  "getConsumerType consumerSection =
     (let t = MustString (sec_Key consumerSection ''type'') ''''
      in if t = ''push'' \<or> t = ''pull'' then Some t else if t = '''' then Some ''push'' else None)"

definition parseConsumers :: "ini_file \<Rightarrow> SeedProducer list \<Rightarrow> SeedConsumer list option" where
  "parseConsumers cfg seedChannels =
     (case mget cfg ''initial-consumers'' of
        None \<Rightarrow> None
      | Some keys \<Rightarrow>
          Some (concat (map (\<lambda>(name, url).
            (case mget cfg name of
               None \<Rightarrow> []
             | Some s \<Rightarrow>
                 (case getChannelForConsumer s seedChannels of
                    None \<Rightarrow> []
                  | Some channel \<Rightarrow>
                      (case getConsumerType s of
                         None \<Rightarrow> []
                       | Some ctype \<Rightarrow>
                           if absolute_url url then
                             [\<lparr>seed_ID = name, seed_Name = name,
                               seed_Token = (case mget s ''token'' of None \<Rightarrow> '''' | Some t \<Rightarrow> MustString t ''''),
                               seed_CallbackURL = url, seed_Channel = channel, seed_Type = ctype\<rparr>]
                           else [])))) keys)))"

text \<open>\<open>digest\<close> stands for the base64 text of the hash of the JSON form of the seed data.\<close>

definition setupSeedDataConfiguration :: "(SeedData \<Rightarrow> string) \<Rightarrow> ini_file \<Rightarrow> Config \<Rightarrow> Config option" where
  "setupSeedDataConfiguration digest cfg configuration =
     (case (mget cfg ''initial-channels'', mget cfg ''initial-channel-tokens'', mget cfg ''initial-producers'',
            mget cfg ''initial-producer-tokens'') of
        (Some chs, Some chTokens, Some prs, Some prTokens) \<Rightarrow>
          (let channels = parseProducers chs chTokens
           in case parseConsumers cfg channels of
                None \<Rightarrow> None
              | Some consumers \<Rightarrow>
                  let sd = \<lparr>DataHash = '''', Producers = parseProducers prs prTokens, Channels = channels,
                            Consumers = consumers\<rparr>
                  in Some (configuration\<lparr>cfg_SeedData := sd\<lparr>DataHash := digest sd\<rparr>\<rparr>))
      | _ \<Rightarrow> None)"

definition setupConsumerConnectionConfiguration :: "ini_api \<Rightarrow> ini_file \<Rightarrow> Config \<Rightarrow> Config option" where
  "setupConsumerConnectionConfiguration api cfg configuration =
     (case mget cfg ''consumer-connection'' of None \<Rightarrow> None | Some s \<Rightarrow>
      (case (mget s ''token-header-name'', mget s ''user-agent'', mget s ''connection-timeout-in-seconds'') of
         (Some header, Some agent, Some timeout) \<Rightarrow>
           Some (configuration\<lparr>TokenRequestHeaderName := MustString header '''', UserAgent := MustString agent '''',
             ConnectionTimeout := seconds (MustUint api timeout 60)\<rparr>)
       | _ \<Rightarrow> None))"

definition parseDefaultConsumerMaxConcurrency :: "ini_api \<Rightarrow> string \<Rightarrow> nat" where
  "parseDefaultConsumerMaxConcurrency api v =
     (if v = '''' then 0 else (case key_Uint api v of None \<Rightarrow> 0 | Some n \<Rightarrow> n))"

definition parseConsumerMaxConcurrencyOverrides :: "ini_api \<Rightarrow> ini_file \<Rightarrow> (string, nat) gomap" where
  "parseConsumerMaxConcurrencyOverrides api cfg =
     (case mget cfg ''consumer-max-concurrency'' of
        None \<Rightarrow> []
      | Some keys \<Rightarrow>
          fold (\<lambda>(name, v) m. case key_Uint api v of None \<Rightarrow> m | Some n \<Rightarrow> mput name n m) keys [])"

definition backoff_delay :: "string \<Rightarrow> duration" where
  "backoff_delay s = seconds (case ParseUint32 s of None \<Rightarrow> 15 | Some n \<Rightarrow> n)"

definition setupBrokerConfiguration :: "ini_api \<Rightarrow> ini_file \<Rightarrow> Config \<Rightarrow> Config option" where
  "setupBrokerConfiguration api cfg configuration =
     (case mget cfg ''broker'' of None \<Rightarrow> None | Some s \<Rightarrow>
      (case (mget s ''max-message-queue-size'', mget s ''max-workers'', mget s ''priority-dispatcher-enabled'',
             mget s ''recovery-workers-enabled'', mget s ''retrigger-base-endpoint'', mget s ''max-retry'',
             mget s ''rational-delay-in-seconds'', mget s ''retry-backoff-delays-in-seconds'') of
         (Some queueSize, Some workers, Some prio, Some recovery, Some endpoint, Some retry, Some delay, Some backoff) \<Rightarrow>
           Some (configuration\<lparr>MaxMessageQueueSize := MustUint api queueSize 100000,
             MaxWorkers := MustUint api workers 100,
             PriorityDispatcherEnabled := MustBool api prio False,
             RecoveryWorkersEnabled := MustBool api recovery True,
             RetriggerBaseEndpoint := MustString endpoint '''',
             MaxRetry := MustUint api retry 10 mod 2 ^ 8,
             RationalDelay := seconds (MustUint api delay 30),
             RetryBackoffDelays := map backoff_delay (split_on (CHR '','') (MustString backoff ''15'')),
             DefaultConsumerMaxConcurrency :=
               parseDefaultConsumerMaxConcurrency api (sec_Key s ''default-consumer-max-concurrency''),
             ConsumerMaxConcurrencyOverrides := parseConsumerMaxConcurrencyOverrides api cfg\<rparr>)
       | _ \<Rightarrow> None))"

definition DefaultDLQSummaryUpdateIntervalSeconds :: nat where
  "DefaultDLQSummaryUpdateIntervalSeconds = 600"

definition setupDLQConfiguration :: "ini_api \<Rightarrow> ini_file \<Rightarrow> Config \<Rightarrow> Config" where
  "setupDLQConfiguration api cfg configuration =
     (case mget cfg ''dlq'' of None \<Rightarrow> configuration | Some s \<Rightarrow>
        configuration\<lparr>DLQSummaryUpdateIntervalSeconds :=
          MustUint api (sec_Key s ''summary-update-interval-seconds'') DefaultDLQSummaryUpdateIntervalSeconds\<rparr>)"

definition DefaultGatewayAuthMode :: string where
  "DefaultGatewayAuthMode = ''none''"

definition DefaultHMACTimestampToleranceSeconds :: nat where
  "DefaultHMACTimestampToleranceSeconds = 300"

definition DefaultAuthExemptPaths :: string where
  "DefaultAuthExemptPaths = ''/_status,/metrics,/debug/pprof/''"

definition setupGatewayAuthConfiguration :: "ini_api \<Rightarrow> ini_file \<Rightarrow> Config \<Rightarrow> Config" where
  "setupGatewayAuthConfiguration api cfg configuration =
     (case mget cfg ''gateway-auth'' of None \<Rightarrow> configuration | Some s \<Rightarrow>
        configuration\<lparr>GatewayAuthMode := MustString (sec_Key s ''mode'') DefaultGatewayAuthMode,
          HMACSharedSecret := MustString (sec_Key s ''hmac-shared-secret'') '''',
          HMACTimestampToleranceSeconds :=
            MustUint api (sec_Key s ''hmac-timestamp-tolerance-seconds'') DefaultHMACTimestampToleranceSeconds,
          AuthExemptPaths := MustString (sec_Key s ''auth-exempt-paths'') DefaultAuthExemptPaths\<rparr>)"

definition DefaultSchedulerIntervalMs :: nat where
  "DefaultSchedulerIntervalMs = 5000"

definition DefaultMinScheduleDelayMinutes :: nat where
  "DefaultMinScheduleDelayMinutes = 2"

definition DefaultSchedulerBatchSize :: nat where
  "DefaultSchedulerBatchSize = 100"

definition setupSchedulerConfiguration :: "ini_api \<Rightarrow> ini_file \<Rightarrow> Config \<Rightarrow> Config" where
  "setupSchedulerConfiguration api cfg configuration =
     (case mget cfg ''scheduler'' of None \<Rightarrow> configuration | Some s \<Rightarrow>
        configuration\<lparr>SchedulerIntervalMs := MustUint api (sec_Key s ''scheduler-interval-ms'') DefaultSchedulerIntervalMs,
          MinScheduleDelayMinutes :=
            MustUint api (sec_Key s ''min-schedule-delay-minutes'') DefaultMinScheduleDelayMinutes,
          SchedulerBatchSize := MustUint api (sec_Key s ''scheduler-batch-size'') DefaultSchedulerBatchSize\<rparr>)"

subsection \<open>Dispatch pause\<close>

definition HandoffModeHTTP :: string where
  "HandoffModeHTTP = ''http''"

definition HandoffModeLocal :: string where
  "HandoffModeLocal = ''local''"

definition boundedUint :: "ini_api \<Rightarrow> section_keys \<Rightarrow> string \<Rightarrow> nat \<Rightarrow> nat \<Rightarrow> nat \<Rightarrow> nat" where
  "boundedUint api sec key defaultValue mn mx =
     (case mget sec key of
        None \<Rightarrow> defaultValue
      | Some v \<Rightarrow>
          (case key_Uint api v of
             None \<Rightarrow> defaultValue
           | Some n \<Rightarrow> if n < mn \<or> n > mx then defaultValue else n))"

definition setupDispatchPauseConfiguration :: "ini_api \<Rightarrow> ini_file \<Rightarrow> Config \<Rightarrow> Config" where
  "setupDispatchPauseConfiguration api cfg configuration =
     (case mget cfg ''dispatch-pause'' of None \<Rightarrow> configuration | Some s \<Rightarrow>
        let mode = MustString (sec_Key s ''handoff-mode'') HandoffModeHTTP
        in configuration\<lparr>DispatchPauseAdminToken := MustString (sec_Key s ''admin-token'') '''',
             RegistryRefreshIntervalSeconds := boundedUint api s ''registry-refresh-interval-seconds'' 5 1 300,
             DrainIntervalSeconds := boundedUint api s ''drain-interval-seconds'' 1 1 60,
             DrainPageSize := boundedUint api s ''drain-page-size'' 50 1 500,
             HandoffMode := (if mode \<noteq> HandoffModeHTTP \<and> mode \<noteq> HandoffModeLocal then HandoffModeHTTP else mode),
             HandoffLeaseSeconds := boundedUint api s ''handoff-lease-seconds'' 60 1 3600,
             HandoffTimeoutSeconds := boundedUint api s ''handoff-timeout-seconds'' 5 1 60,
             HandoffMaxAttempts := boundedUint api s ''handoff-max-attempts'' 3 1 10,
             HandoffConcurrency := boundedUint api s ''handoff-concurrency'' 4 1 64,
             HandoffHighWaterMark := boundedUint api s ''handoff-high-water-mark'' 0 0 (2 ^ 31 - 1),
             HandoffLocalFallbackDisabled := \<not> MustBool api (sec_Key s ''handoff-local-fallback'') True\<rparr>)"

definition secondsOrDefault :: "nat \<Rightarrow> nat \<Rightarrow> duration" where
  "secondsOrDefault v defaultValue = seconds (if v = 0 then defaultValue else v)"

definition uintOrDefault :: "nat \<Rightarrow> nat \<Rightarrow> int" where
  "uintOrDefault v defaultValue = wrap64 (int (if v = 0 then defaultValue else v))"

definition IsAdminTokenConfigured :: "Config \<Rightarrow> bool" where
  "IsAdminTokenConfigured config \<longleftrightarrow> length (DispatchPauseAdminToken config) > 0"

definition GetRegistryRefreshInterval :: "Config \<Rightarrow> duration" where
  "GetRegistryRefreshInterval config = secondsOrDefault (RegistryRefreshIntervalSeconds config) 5"

definition GetDrainInterval :: "Config \<Rightarrow> duration" where
  "GetDrainInterval config = secondsOrDefault (DrainIntervalSeconds config) 1"

definition GetDrainPageSize :: "Config \<Rightarrow> int" where
  "GetDrainPageSize config = uintOrDefault (DrainPageSize config) 50"

definition GetHandoffMode :: "Config \<Rightarrow> string" where
  "GetHandoffMode config =
     (if HandoffMode config \<noteq> HandoffModeHTTP \<and> HandoffMode config \<noteq> HandoffModeLocal then HandoffModeHTTP
      else HandoffMode config)"

definition IsHTTPHandoffEnabled :: "Config \<Rightarrow> bool" where
  "IsHTTPHandoffEnabled config \<longleftrightarrow> GetHandoffMode config = HandoffModeHTTP \<and> IsAdminTokenConfigured config"

definition GetHandoffLease :: "Config \<Rightarrow> duration" where
  "GetHandoffLease config =
     (let lease = secondsOrDefault (HandoffLeaseSeconds config) 60; minimum = wrap64 (5 * RationalDelay config)
      in if lease < minimum then minimum else lease)"

definition GetHandoffTimeout :: "Config \<Rightarrow> duration" where
  "GetHandoffTimeout config = secondsOrDefault (HandoffTimeoutSeconds config) 5"

definition GetHandoffMaxAttempts :: "Config \<Rightarrow> int" where
  "GetHandoffMaxAttempts config = uintOrDefault (HandoffMaxAttempts config) 3"

definition GetHandoffConcurrency :: "Config \<Rightarrow> int" where
  "GetHandoffConcurrency config = uintOrDefault (HandoffConcurrency config) 4"

definition GetHandoffHighWaterMark :: "Config \<Rightarrow> int" where
  "GetHandoffHighWaterMark config =
     (if HandoffHighWaterMark config > 0 then wrap64 (int (HandoffHighWaterMark config))
      else let mark = wrap64 (int (MaxMessageQueueSize config div 2)) in if mark < 1 then 1 else mark)"

definition IsHandoffLocalFallbackEnabled :: "Config \<Rightarrow> bool" where
  "IsHandoffLocalFallbackEnabled config \<longleftrightarrow> \<not> HandoffLocalFallbackDisabled config"

subsection \<open>Other accessors that compute\<close>

definition GetConsumerMaxConcurrency :: "Config \<Rightarrow> string \<Rightarrow> string \<Rightarrow> nat" where
  "GetConsumerMaxConcurrency config channelID consumerID =
     (case mget (ConsumerMaxConcurrencyOverrides config) (channelID @ ''/'' @ consumerID) of
        Some limit \<Rightarrow> limit
      | None \<Rightarrow>
          (case mget (ConsumerMaxConcurrencyOverrides config) consumerID of
             Some limit \<Rightarrow> limit
           | None \<Rightarrow> DefaultConsumerMaxConcurrency config))"

definition IsPruningEnabled :: "Config \<Rightarrow> bool" where
  "IsPruningEnabled config \<longleftrightarrow> length (ExportNodeName config) > 0 \<and> MessageRetentionDays config > 0"

definition IsLoggerConfigAvailable :: "Config \<Rightarrow> bool" where
  "IsLoggerConfigAvailable config \<longleftrightarrow> length (LogFilename config) > 0"

definition GetDLQSummaryUpdateInterval :: "Config \<Rightarrow> duration" where
  "GetDLQSummaryUpdateInterval config =
     (if DLQSummaryUpdateIntervalSeconds config = 0 then seconds DefaultDLQSummaryUpdateIntervalSeconds
      else seconds (DLQSummaryUpdateIntervalSeconds config))"

definition GetGatewayAuthMode :: "Config \<Rightarrow> string" where
  "GetGatewayAuthMode config =
     (if length (GatewayAuthMode config) = 0 then DefaultGatewayAuthMode else GatewayAuthMode config)"

definition GetHMACTimestampTolerance :: "Config \<Rightarrow> duration" where
  "GetHMACTimestampTolerance config =
     (if HMACTimestampToleranceSeconds config = 0 then seconds DefaultHMACTimestampToleranceSeconds
      else seconds (HMACTimestampToleranceSeconds config))"

definition GetAuthExemptPaths :: "Config \<Rightarrow> string list" where
  "GetAuthExemptPaths config =
     (let raw = (if length (AuthExemptPaths config) = 0 then DefaultAuthExemptPaths else AuthExemptPaths config)
      in filter (\<lambda>p. length p > 0) (map TrimSpace (split_on (CHR '','') raw)))"

definition IsGatewayAuthEnabled :: "Config \<Rightarrow> bool" where
  "IsGatewayAuthEnabled config \<longleftrightarrow> GetGatewayAuthMode config = ''hmac''"

definition GetSchedulerInterval :: "Config \<Rightarrow> duration" where
  "GetSchedulerInterval config =
     (let ms = (if SchedulerIntervalMs config = 0 then DefaultSchedulerIntervalMs else SchedulerIntervalMs config)
      in wrap64 (int ms * millisecond))"

definition GetMinScheduleDelay :: "Config \<Rightarrow> duration" where
  "GetMinScheduleDelay config =
     (let m = (if MinScheduleDelayMinutes config = 0 then DefaultMinScheduleDelayMinutes
               else MinScheduleDelayMinutes config)
      in wrap64 (int m * minute))"

definition GetSchedulerBatchSize :: "Config \<Rightarrow> int" where
  "GetSchedulerBatchSize config =
     (if SchedulerBatchSize config = 0 then int DefaultSchedulerBatchSize else wrap64 (int (SchedulerBatchSize config)))"

subsection \<open>Base64\<close>

text \<open>\<^verbatim>\<open>base64.StdEncoding.DecodeString\<close>: line breaks are skipped, padding is required.\<close>

definition b64_val :: "char \<Rightarrow> nat option" where
  "b64_val c =
     (if 65 \<le> ord c \<and> ord c \<le> 90 then Some (ord c - 65)
      else if 97 \<le> ord c \<and> ord c \<le> 122 then Some (ord c - 71)
      else if is_digit c then Some (ord c + 4)
      else if c = CHR ''+'' then Some 62 else if c = CHR ''/'' then Some 63 else None)"

fun b64_groups :: "string \<Rightarrow> nat list option" where
  "b64_groups [] = Some []"
| "b64_groups (a # b # c # d # s) =
     (case (b64_val a, b64_val b, b64_val c, b64_val d) of
        (Some w, Some x, Some y, Some z) \<Rightarrow>
          map_option (\<lambda>r. [w * 4 + x div 16, (x mod 16) * 16 + y div 4, (y mod 4) * 64 + z] @ r) (b64_groups s)
      | (Some w, Some x, Some y, None) \<Rightarrow>
          if d = CHR ''='' \<and> s = [] then Some [w * 4 + x div 16, (x mod 16) * 16 + y div 4] else None
      | (Some w, Some x, None, _) \<Rightarrow>
          if c = CHR ''='' \<and> d = CHR ''='' \<and> s = [] then Some [w * 4 + x div 16] else None
      | _ \<Rightarrow> None)"
| "b64_groups _ = None"

definition base64_decode :: "string \<Rightarrow> nat list option" where
  "base64_decode s = b64_groups (filter (\<lambda>c. ord c \<noteq> 10 \<and> ord c \<noteq> 13) s)"

definition GetHMACSharedSecret :: "Config \<Rightarrow> nat list option" where
  "GetHMACSharedSecret config = base64_decode (HMACSharedSecret config)"

subsection \<open>Validation and loading\<close>

text \<open>The environment of the validation: the listening socket and the database driver.\<close>

record probe =
  net_Listen :: "string \<Rightarrow> error option"
  sql_Open :: "string \<Rightarrow> string \<Rightarrow> error option"
  db_ping :: "string \<Rightarrow> string \<Rightarrow> error option"

definition ConfigError :: "string \<Rightarrow> error" where
  "ConfigError s = IOError s"

definition with_defaults :: "Config \<Rightarrow> Config" where
  "with_defaults configuration =
     configuration\<lparr>
       TokenRequestHeaderName := (if length (TokenRequestHeaderName configuration) \<le> 0
         then ''X-Broker-Consumer-Token'' else TokenRequestHeaderName configuration),
       UserAgent := (if length (UserAgent configuration) \<le> 0 then ''Webhook Message Broker'' else UserAgent configuration),
       HTTPListeningAddr := (if length (HTTPListeningAddr configuration) \<le> 0 then '':8080''
         else HTTPListeningAddr configuration)\<rparr>"

definition gateway_err :: "Config \<Rightarrow> error option" where
  "gateway_err configuration =
     (if GatewayAuthMode configuration = ''hmac'' then
        (if length (HMACSharedSecret configuration) = 0 then Some (ConfigError ''hmac-shared-secret is required'')
         else if base64_decode (HMACSharedSecret configuration) = None
              then Some (ConfigError ''hmac-shared-secret is not valid base64'') else None)
      else if GatewayAuthMode configuration \<noteq> ''none'' \<and> GatewayAuthMode configuration \<noteq> ''''
           then Some (ConfigError ''unsupported mode'') else None)"

definition pruning_err :: "Config \<Rightarrow> error option" where
  "pruning_err configuration =
     (if IsPruningEnabled configuration then
        (let dest = RemoteExportDestination configuration
         in if length dest > 0 \<and> dest \<noteq> ''gcs'' \<and> dest \<noteq> ''s3''
            then Some (ConfigError ''remote export destination is not valid'')
            else if length dest \<le> 0 \<and> RemoteExportURL configuration \<noteq> None
            then Some (ConfigError ''no remote destination set for remote export URL'')
            else if length dest > 0 \<and> RemoteExportURL configuration = None
            then Some (ConfigError ''missing valid remote export URL'') else None)
      else None)"

definition validateConfigurationState :: "probe \<Rightarrow> Config \<Rightarrow> error option \<times> Config" where
  "validateConfigurationState pr c0 =
     (case gateway_err c0 of
        Some e \<Rightarrow> (Some e, c0)
      | None \<Rightarrow>
          let configuration = with_defaults c0
          in (case pruning_err configuration of
                Some e \<Rightarrow> (Some e, configuration)
              | None \<Rightarrow>
                  (case net_Listen pr (HTTPListeningAddr configuration) of
                     Some e \<Rightarrow> (Some e, configuration)
                   | None \<Rightarrow>
                       if DBDialect configuration \<noteq> ''sqlite3'' \<and> DBDialect configuration \<noteq> ''mysql''
                       then (Some (ConfigError ''DB Dialect not supported''), configuration)
                       else
                         (case sql_Open pr (DBDialect configuration) (DBConnectionURL configuration) of
                            Some e \<Rightarrow> (Some e, configuration)
                          | None \<Rightarrow>
                              (case db_ping pr (DBDialect configuration) (DBConnectionURL configuration) of
                                 Some e \<Rightarrow> (Some e, configuration)
                               | None \<Rightarrow>
                                   ((case url_Parse (RetriggerBaseEndpoint configuration) of
                                       None \<Rightarrow> Some (ConfigError ''parse'')
                                     | Some scheme \<Rightarrow>
                                         if \<not> IsAbs scheme
                                         then Some (ConfigError ''retrigger base endpoint is not in absolute URL form'')
                                         else None), configuration))))))"

text \<open>\<open>None\<close> is a nil dereference while reading the file.\<close>

definition GetConfigurationFromParseConfig ::
  "ini_api \<Rightarrow> probe \<Rightarrow> (SeedData \<Rightarrow> string) \<Rightarrow> ini_file \<Rightarrow> (Config \<times> error option) option" where
  "GetConfigurationFromParseConfig api pr digest cfg =
     (case setupStorageConfiguration api cfg zero_config of None \<Rightarrow> None | Some c1 \<Rightarrow>
      (case setupHTTPConfiguration api cfg c1 of None \<Rightarrow> None | Some c2 \<Rightarrow>
      (case setupLogConfiguration api cfg c2 of None \<Rightarrow> None | Some c3 \<Rightarrow>
      (case setupSeedDataConfiguration digest cfg c3 of None \<Rightarrow> None | Some c4 \<Rightarrow>
      (case setupConsumerConnectionConfiguration api cfg c4 of None \<Rightarrow> None | Some c5 \<Rightarrow>
      (case setupBrokerConfiguration api cfg c5 of None \<Rightarrow> None | Some c6 \<Rightarrow>
         let c7 = setupDispatchPauseConfiguration api cfg (setupGatewayAuthConfiguration api cfg
                    (setupDLQConfiguration api cfg (setupSchedulerConfiguration api cfg
                      (setupMessagePruningConfiguration api cfg c6))))
         in (case validateConfigurationState pr c7 of
               (Some e, _) \<Rightarrow> Some (zero_config, Some e)
             | (None, configuration) \<Rightarrow> Some (configuration, None))))))))"

definition GetConfiguration ::
  "ini_api \<Rightarrow> probe \<Rightarrow> (SeedData \<Rightarrow> string) \<Rightarrow> (string \<Rightarrow> ini_file result) \<Rightarrow> string \<Rightarrow>
   (Config \<times> error option) option" where
  "GetConfiguration api pr digest loadConfiguration configFilePath =
     (case loadConfiguration configFilePath of
        Inl e \<Rightarrow> Some (zero_config, Some e)
      | Inr cfg \<Rightarrow> GetConfigurationFromParseConfig api pr digest cfg)"

text \<open>The built-in configuration of \<^verbatim>\<open>defaultconfig.go\<close>.\<close>

definition DefaultConfiguration :: ini_file where
  "DefaultConfiguration =
     [(''rdbms'',
        [(''dialect'', ''sqlite3''),
         (''connection-url'', ''webhook-broker.sqlite3?_foreign_keys=on''),
         (''connxn-max-idle-time-seconds'', ''0''),
         (''connxn-max-lifetime-seconds'', ''0''),
         (''max-idle-connxns'', ''30''),
         (''max-open-connxns'', ''100'')]),
      (''http'',
        [(''listener'', '':8080''),
         (''read-timeout'', ''240''),
         (''write-timeout'', ''240'')]),
      (''log'',
        [(''filename'', ''''),
         (''max-file-size-in-mb'', ''200''),
         (''max-backups'', ''3''),
         (''max-age-in-days'', ''28''),
         (''compress-backups'', ''true''),
         (''log-level'', ''info'')]),
      (''broker'',
        [(''max-message-queue-size'', ''10000''),
         (''max-workers'', ''200''),
         (''priority-dispatcher-enabled'', ''true''),
         (''retrigger-base-endpoint'', ''http://localhost:8080''),
         (''max-retry'', ''5''),
         (''rational-delay-in-seconds'', ''2''),
         (''retry-backoff-delays-in-seconds'', ''5,30,60''),
         (''recovery-workers-enabled'', ''true''),
         (''default-consumer-max-concurrency'', ''0'')]),
      (''consumer-connection'',
        [(''token-header-name'', ''X-Broker-Consumer-Token''),
         (''user-agent'', ''Webhook Message Broker''),
         (''connection-timeout-in-seconds'', ''30'')]),
      (''scheduler'',
        [(''scheduler-interval-ms'', ''5000''),
         (''min-schedule-delay-minutes'', ''2''),
         (''scheduler-batch-size'', ''100'')]),
      (''prune'',
        [(''export-node-name'', ''''),
         (''message-retention-days'', ''0''),
         (''remote-export-destination'', ''''),
         (''remote-export-url'', ''''),
         (''export-path'', ''''),
         (''remote-file-prefix'', ''''),
         (''max-archive-file-size-in-mb'', ''100'')]),
      (''dlq'',
        [(''summary-update-interval-seconds'', ''600'')]),
      (''gateway-auth'',
        [(''mode'', ''none''),
         (''hmac-shared-secret'', ''''),
         (''hmac-timestamp-tolerance-seconds'', ''300''),
         (''auth-exempt-paths'', ''/_status,/metrics,/debug/pprof/'')]),
      (''dispatch-pause'',
        [(''admin-token'', ''''),
         (''registry-refresh-interval-seconds'', ''5''),
         (''drain-interval-seconds'', ''1''),
         (''drain-page-size'', ''50''),
         (''handoff-mode'', ''http''),
         (''handoff-lease-seconds'', ''60''),
         (''handoff-timeout-seconds'', ''5''),
         (''handoff-max-attempts'', ''3''),
         (''handoff-concurrency'', ''4''),
         (''handoff-high-water-mark'', ''0''),
         (''handoff-local-fallback'', ''true'')]),
      (''initial-channels'',
        [(''sample-channel'', ''Sample Channel'')]),
      (''initial-producers'',
        [(''sample-producer'', ''Sample Producer'')]),
      (''initial-consumers'',
        [(''sample-consumer'', ''http://sample-endpoint/webhook-receiver'')]),
      (''initial-channel-tokens'',
        [(''sample-channel'', ''sample-channel-token'')]),
      (''initial-producer-tokens'',
        [(''sample-producer'', ''sample-producer-token'')]),
      (''sample-consumer'',
        [(''token'', ''sample-consumer-token''),
         (''channel'', ''sample-channel'')])]"

subsection \<open>What a loaded configuration guarantees\<close>

lemma wrap64_id: "- (2 ^ 63) \<le> x \<Longrightarrow> x < 2 ^ 63 \<Longrightarrow> wrap64 x = x"
  by (simp add: wrap64_def)

lemma seconds_small: "n < 2 ^ 32 \<Longrightarrow> seconds n = int n * second"
  by (simp add: seconds_def wrap64_def)

lemma split_on_ne: "split_on c s \<noteq> []"
  by (induction s) (simp_all split: list.splits)

lemma boundedUint_range:
  "mn \<le> dflt \<Longrightarrow> dflt \<le> mx \<Longrightarrow> mn \<le> boundedUint api s k dflt mn mx \<and> boundedUint api s k dflt mn mx \<le> mx"
  by (auto simp: boundedUint_def split: option.splits)

lemma ParseUint32_small: "ParseUint32 s = Some n \<Longrightarrow> n < 2 ^ 32"
  by (auto simp: ParseUint32_def split: if_splits option.splits)

lemma backoff_delay_range: "0 \<le> backoff_delay s \<and> backoff_delay s < 2 ^ 32 * second"
proof -
  obtain n where "backoff_delay s = seconds n" "n < 2 ^ 32"
    using ParseUint32_small [of s] by (cases "ParseUint32 s") (auto simp: backoff_delay_def)
  then show ?thesis using seconds_small by simp
qed

definition pause_ok :: "Config \<Rightarrow> bool" where
  "pause_ok c \<longleftrightarrow> DrainPageSize c \<le> 500 \<and> HandoffMaxAttempts c \<le> 10 \<and> HandoffConcurrency c \<le> 64 \<and>
     HandoffHighWaterMark c < 2 ^ 31 \<and> HandoffTimeoutSeconds c \<le> 60"

definition broker_ok :: "Config \<Rightarrow> bool" where
  "broker_ok c \<longleftrightarrow> RetryBackoffDelays c \<noteq> [] \<and> MaxRetry c < 2 ^ 8 \<and>
     list_all (\<lambda>d. 0 \<le> d \<and> d < 2 ^ 32 * second) (RetryBackoffDelays c)"

lemma setup_keeps_pause:
  "setupStorageConfiguration api cfg c = Some c' \<Longrightarrow> pause_ok c \<Longrightarrow> pause_ok c'"
  "setupHTTPConfiguration api cfg c = Some c' \<Longrightarrow> pause_ok c \<Longrightarrow> pause_ok c'"
  "setupLogConfiguration api cfg c = Some c' \<Longrightarrow> pause_ok c \<Longrightarrow> pause_ok c'"
  "setupSeedDataConfiguration digest cfg c = Some c' \<Longrightarrow> pause_ok c \<Longrightarrow> pause_ok c'"
  "setupConsumerConnectionConfiguration api cfg c = Some c' \<Longrightarrow> pause_ok c \<Longrightarrow> pause_ok c'"
  "setupBrokerConfiguration api cfg c = Some c' \<Longrightarrow> pause_ok c \<Longrightarrow> pause_ok c'"
  by (auto simp: setupStorageConfiguration_def setupHTTPConfiguration_def setupLogConfiguration_def
      setupSeedDataConfiguration_def setupConsumerConnectionConfiguration_def setupBrokerConfiguration_def
      pause_ok_def Let_def split: option.splits)

lemma setupBroker_ok: "setupBrokerConfiguration api cfg c = Some c' \<Longrightarrow> broker_ok c'"
  using backoff_delay_range split_on_ne
  by (auto simp: setupBrokerConfiguration_def broker_ok_def list_all_iff split: option.splits)

lemma later_setup_keeps:
  "broker_ok (setupMessagePruningConfiguration api cfg c) = broker_ok c"
  "broker_ok (setupSchedulerConfiguration api cfg c) = broker_ok c"
  "broker_ok (setupDLQConfiguration api cfg c) = broker_ok c"
  "broker_ok (setupGatewayAuthConfiguration api cfg c) = broker_ok c"
  "broker_ok (setupDispatchPauseConfiguration api cfg c) = broker_ok c"
  "pause_ok (setupMessagePruningConfiguration api cfg c) = pause_ok c"
  "pause_ok (setupSchedulerConfiguration api cfg c) = pause_ok c"
  "pause_ok (setupDLQConfiguration api cfg c) = pause_ok c"
  "pause_ok (setupGatewayAuthConfiguration api cfg c) = pause_ok c"
  by (simp_all add: setupMessagePruningConfiguration_def setupSchedulerConfiguration_def setupDLQConfiguration_def
      setupGatewayAuthConfiguration_def setupDispatchPauseConfiguration_def broker_ok_def pause_ok_def Let_def
      split: option.splits)

lemma setupDispatchPause_ok: "pause_ok c \<Longrightarrow> pause_ok (setupDispatchPauseConfiguration api cfg c)"
proof (cases "mget cfg ''dispatch-pause''")
  case (Some s)
  show ?thesis
    using boundedUint_range [of 1 50 500 api s "''drain-page-size''"]
      boundedUint_range [of 1 3 10 api s "''handoff-max-attempts''"]
      boundedUint_range [of 1 4 64 api s "''handoff-concurrency''"]
      boundedUint_range [of 0 0 "2 ^ 31 - 1" api s "''handoff-high-water-mark''"]
      boundedUint_range [of 1 5 60 api s "''handoff-timeout-seconds''"]
    by (simp add: setupDispatchPauseConfiguration_def Some Let_def pause_ok_def)
qed (simp add: setupDispatchPauseConfiguration_def)

lemma validated_keeps:
  "validateConfigurationState pr c = (None, c') \<Longrightarrow> c' = with_defaults c"
  by (auto simp: validateConfigurationState_def Let_def split: option.splits if_splits)

lemma loaded_ok:
  assumes "GetConfigurationFromParseConfig api pr digest cfg = Some (config, None)"
  shows "pause_ok config \<and> broker_ok config"
proof -
  obtain c1 c2 c3 c4 c5 c6 where c: "setupStorageConfiguration api cfg zero_config = Some c1"
    "setupHTTPConfiguration api cfg c1 = Some c2" "setupLogConfiguration api cfg c2 = Some c3"
    "setupSeedDataConfiguration digest cfg c3 = Some c4" "setupConsumerConnectionConfiguration api cfg c4 = Some c5"
    "setupBrokerConfiguration api cfg c5 = Some c6"
    and v: "validateConfigurationState pr (setupDispatchPauseConfiguration api cfg (setupGatewayAuthConfiguration api cfg
      (setupDLQConfiguration api cfg (setupSchedulerConfiguration api cfg (setupMessagePruningConfiguration api cfg c6)))))
      = (None, config)"
    using assms unfolding GetConfigurationFromParseConfig_def Let_def
    by (auto split: option.splits prod.splits)
  have "pause_ok zero_config" by (simp add: pause_ok_def zero_config_def)
  then have "pause_ok c6"
    by (rule setup_keeps_pause(6) [OF c(6) setup_keeps_pause(5) [OF c(5) setup_keeps_pause(4) [OF c(4)
          setup_keeps_pause(3) [OF c(3) setup_keeps_pause(2) [OF c(2) setup_keeps_pause(1) [OF c(1)]]]]]])
  moreover have "broker_ok c6" by (rule setupBroker_ok [OF c(6)])
  moreover have "pause_ok (with_defaults c) = pause_ok c" "broker_ok (with_defaults c) = broker_ok c" for c
    by (simp_all add: with_defaults_def pause_ok_def broker_ok_def)
  ultimately show ?thesis
    using validated_keeps [OF v] setupDispatchPause_ok by (simp add: later_setup_keeps)
qed


definition sample_api :: ini_api where
  "sample_api = \<lparr>key_Uint = (\<lambda>v. if v = [] then None else dec_val 0 v),
     key_Bool = (\<lambda>v. if v = ''true'' then Some True else if v = ''false'' then Some False else None)\<rparr>"

definition sample_probe :: probe where
  "sample_probe = \<lparr>net_Listen = (\<lambda>_. None), sql_Open = (\<lambda>_ _. None), db_ping = (\<lambda>_ _. None)\<rparr>"

definition default_config :: Config where
  "default_config = fst (the (GetConfigurationFromParseConfig sample_api sample_probe (\<lambda>_. ''h'') DefaultConfiguration))"

lemmas default_defs =
  DefaultConfiguration_def sample_api_def sample_probe_def MustUint_def MustBool_def MustString_def sec_Key_def
  seconds_def wrap64_def digit_val_def is_digit_def

lemma default_loads:
  "GetConfigurationFromParseConfig sample_api sample_probe (\<lambda>_. ''h'') DefaultConfiguration = Some (default_config, None)"
proof -
  let ?d = "\<lambda>_ :: SeedData. ''h''"
  obtain c1 where 1: "setupStorageConfiguration sample_api DefaultConfiguration zero_config = Some c1"
    "DBDialect c1 = ''sqlite3''"
    by (simp add: setupStorageConfiguration_def default_defs)
  obtain c2 where 2: "setupHTTPConfiguration sample_api DefaultConfiguration c1 = Some c2" "DBDialect c2 = ''sqlite3''"
    using 1(2) by (simp add: setupHTTPConfiguration_def default_defs)
  obtain c3 where 3: "setupLogConfiguration sample_api DefaultConfiguration c2 = Some c3" "DBDialect c3 = ''sqlite3''"
    using 2(2) by (simp add: setupLogConfiguration_def default_defs)
  obtain c4 where 4: "setupSeedDataConfiguration ?d DefaultConfiguration c3 = Some c4" "DBDialect c4 = ''sqlite3''"
    using 3(2) by (simp add: setupSeedDataConfiguration_def parseConsumers_def Let_def default_defs)
  obtain c5 where 5: "setupConsumerConnectionConfiguration sample_api DefaultConfiguration c4 = Some c5" "DBDialect c5 = ''sqlite3''"
    using 4(2) by (simp add: setupConsumerConnectionConfiguration_def default_defs)
  obtain c6 where 6: "setupBrokerConfiguration sample_api DefaultConfiguration c5 = Some c6" "DBDialect c6 = ''sqlite3''"
    "RetriggerBaseEndpoint c6 = ''http://localhost:8080''"
    using 5(2) by (simp add: setupBrokerConfiguration_def default_defs)
  define c7 where "c7 = setupDispatchPauseConfiguration sample_api DefaultConfiguration (setupGatewayAuthConfiguration sample_api
    DefaultConfiguration (setupDLQConfiguration sample_api DefaultConfiguration (setupSchedulerConfiguration sample_api
      DefaultConfiguration (setupMessagePruningConfiguration sample_api DefaultConfiguration c6))))"
  have 7: "DBDialect c7 = ''sqlite3''" "RetriggerBaseEndpoint c7 = ''http://localhost:8080''" "ExportNodeName c7 = ''''"
    "GatewayAuthMode c7 = ''none''"
    using 6(2,3)
    by (simp_all add: c7_def setupDispatchPauseConfiguration_def setupGatewayAuthConfiguration_def setupDLQConfiguration_def
        setupSchedulerConfiguration_def setupMessagePruningConfiguration_def Let_def default_defs DefaultGatewayAuthMode_def)
  have "url_Parse ''http://localhost:8080'' = Some ''http''" by code_simp
  then have "fst (validateConfigurationState sample_probe c7) = None"
    using 7 by (simp add: validateConfigurationState_def gateway_err_def pruning_err_def with_defaults_def IsPruningEnabled_def
        Let_def sample_probe_def IsAbs_def)
  then have "snd (the (GetConfigurationFromParseConfig sample_api sample_probe ?d DefaultConfiguration)) = None \<and>
      GetConfigurationFromParseConfig sample_api sample_probe ?d DefaultConfiguration \<noteq> None"
    unfolding GetConfigurationFromParseConfig_def
    by (simp add: 1(1) 2(1) 3(1) 4(1) 5(1) 6(1) c7_def [symmetric] Let_def prod.case_eq_if split: option.splits)
  then show ?thesis by (auto simp: default_config_def)
qed


end
