(* ===== verification/Message_Repo.thy ===== *)
theory Message_Repo
  imports Stakeholder_Repo
begin

section \<open>Messages: storage/messagerepo.go\<close>

text \<open>
  The channel and producer repositories a message repository depends on are the parameters \<open>chGet\<close>
  and \<open>prGet\<close>.  Loops over pages take one environment per page (\<open>es i\<close>).
\<close>

definition zero_message :: Message where
  "zero_message = \<lparr>ID = nil_xid, CreatedAt = 0, UpdatedAt = 0, MessageID = '''', Payload = '''', ContentType = '''',
     msg_Priority = 0, msg_Status = MsgStatusOther 0, BroadcastedTo = None, ProducedBy = None,
     ReceivedAt = 0, OutboxedAt = 0, Headers = []\<rparr>"

definition row_message :: "Channel option \<Rightarrow> Producer option \<Rightarrow> message_row \<Rightarrow> Message" where
  "row_message ch pr r =
     \<lparr>ID = m_id r, CreatedAt = m_createdAt r, UpdatedAt = m_updatedAt r, MessageID = m_messageId r,
      Payload = m_payload r, ContentType = m_contentType r, msg_Priority = m_priority r, msg_Status = m_status r,
      BroadcastedTo = ch, ProducedBy = pr, ReceivedAt = m_receivedAt r, OutboxedAt = m_outboxedAt r,
      Headers = m_headers r\<rparr>"

definition message_GetProducerIDSafely :: "Message \<Rightarrow> string" where
  "message_GetProducerIDSafely m = (case ProducedBy m of Some p \<Rightarrow> ProducerID p | None \<Rightarrow> '''')"

definition message_row_of :: "dbenv \<Rightarrow> Message \<Rightarrow> message_row" where
  "message_row_of env m =
     \<lparr>m_id = ID m, m_messageId = MessageID m, m_producerId = message_GetProducerIDSafely m,
      m_channelId = message_GetChannelIDSafely m, m_payload = Payload m, m_contentType = ContentType m,
      m_priority = msg_Priority m, m_status = msg_Status m, m_receivedAt = dt env (ReceivedAt m),
      m_outboxedAt = dt env (OutboxedAt m), m_headers = Headers m, m_createdAt = dt env (CreatedAt m),
      m_updatedAt = dt env (UpdatedAt m)\<rparr>"

type_synonym chRepo = "string \<Rightarrow> Channel \<times> error option"
type_synonym prRepo = "string \<Rightarrow> Producer \<times> error option"

definition getSingleMessage ::
  "dbenv \<Rightarrow> chRepo \<Rightarrow> prRepo \<Rightarrow> (message_row \<Rightarrow> bool) \<Rightarrow> bool \<Rightarrow> db \<Rightarrow> Message \<times> error option" where
  "getSingleMessage env chGet prGet P loadChannel d =
     (case querySingleRow env 0 (filter P (t_message d)) of
        Inl e \<Rightarrow> (zero_message, Some e)
      | Inr r \<Rightarrow>
          (case prGet (m_producerId r) of
             (pr, Some e) \<Rightarrow> (row_message None (Some pr) r, Some e)
           | (pr, None) \<Rightarrow>
               if loadChannel then
                 (case chGet (m_channelId r) of (ch, err) \<Rightarrow> (row_message (Some ch) (Some pr) r, err))
               else (row_message None (Some pr) r, None)))"

definition message_Get ::
  "dbenv \<Rightarrow> chRepo \<Rightarrow> prRepo \<Rightarrow> string \<Rightarrow> string \<Rightarrow> db \<Rightarrow> Message \<times> error option" where
  "message_Get env chGet prGet channelID messageID d =
     (case chGet channelID of
        (_, Some e) \<Rightarrow> (zero_message, Some e)
      | (channel, None) \<Rightarrow>
          (case getSingleMessage env chGet prGet
                  (\<lambda>r. sql_like (env_dialect env) channelID (m_channelId r) \<and>
                       sql_like (env_dialect env) messageID (m_messageId r)) False d of
             (message, None) \<Rightarrow> (message\<lparr>BroadcastedTo := Some channel\<rparr>, None)
           | (message, Some e) \<Rightarrow> (message, Some e)))"

definition message_GetByID ::
  "dbenv \<Rightarrow> chRepo \<Rightarrow> prRepo \<Rightarrow> xid \<Rightarrow> db \<Rightarrow> Message \<times> error option" where
  "message_GetByID env chGet prGet i d =
     getSingleMessage env chGet prGet (\<lambda>r. sql_like (env_dialect env) i (m_id r)) True d"

text \<open>\<^verbatim>\<open>GetByIDs\<close> leaves only the ids in \<^verbatim>\<open>ProducedBy\<close> and \<^verbatim>\<open>BroadcastedTo\<close>.\<close>

definition raw_message :: "message_row \<Rightarrow> Message" where
  "raw_message r = row_message (Some (zero_channel\<lparr>ChannelID := m_channelId r\<rparr>))
                     (Some (zero_producer\<lparr>ProducerID := m_producerId r\<rparr>)) r"

definition message_GetByIDs :: "dbenv \<Rightarrow> xid list \<Rightarrow> db \<Rightarrow> Message list \<times> error option" where
  "message_GetByIDs env ids d =
     (if length ids = 0 then ([], None)
      else (case queryRows env 0 (filter (\<lambda>r. m_id r \<in> set ids) (t_message d)) of
              Inl e \<Rightarrow> ([], Some e)
            | Inr rows \<Rightarrow> (map raw_message rows, None)))"

definition messageErrorMap :: "(nat, error) gomap" where
  "messageErrorMap = [(1062, ErrDuplicateMessageIDForChannel)]"

definition message_Create ::
  "dbenv \<Rightarrow> dbenv \<Rightarrow> chRepo \<Rightarrow> prRepo \<Rightarrow> Message \<Rightarrow> db \<Rightarrow> error option \<times> db" where
  "message_Create env env' chGet prGet message d =
     (if \<not> message_IsInValidState message then (Some ErrInsufficientInformationForCreating, d)
      else (case message_Get env chGet prGet (message_GetChannelIDSafely message) (MessageID message) d of
              (_, None) \<Rightarrow> (Some ErrDuplicateMessageIDForChannel, d)
            | (_, Some _) \<Rightarrow>
                (case transactionalSingleRowWriteExec env' (insert_message (message_row_of env' message)) d of
                   (err, d') \<Rightarrow> (normalizeDBError err messageErrorMap, d'))))"

text \<open>\<^verbatim>\<open>SetDispatched\<close> runs as the \<open>n\<close>-th statement of the transaction found in its context, if any.\<close>

definition SetDispatched :: "dbenv \<Rightarrow> nat \<Rightarrow> bool \<Rightarrow> Message option \<Rightarrow> db \<Rightarrow> db tx_outcome" where
  "SetDispatched env n inTx message d =
     (case message of
        None \<Rightarrow> TxErr ErrInvalidStateToSave
      | Some m \<Rightarrow>
          if \<not> message_IsInValidState m then TxErr ErrInvalidStateToSave
          else if inTx then
            inTransactionExec env n
              (update_message (env_dialect env)
                 (\<lambda>r. sql_like (env_dialect env) (ID m) (m_id r) \<and> m_status r = MsgStatusAcknowledged)
                 (\<lambda>r. r\<lparr>m_status := MsgStatusDispatched, m_outboxedAt := dt env (now env),
                        m_updatedAt := dt env (now env)\<rparr>)) 1 d
          else TxErr ErrNoTxInContext)"

definition getMessages :: "dbenv \<Rightarrow> chRepo \<Rightarrow> prRepo \<Rightarrow> message_row list \<Rightarrow> Message list result" where
  "getMessages env chGet prGet rows =
     (case queryRows env 0 rows of
        Inl e \<Rightarrow> Inl e
      | Inr rs \<Rightarrow> Inr (map (\<lambda>r. row_message (Some (fst (chGet (m_channelId r))))
                                           (Some (fst (prGet (m_producerId r)))) r) rs))"

definition neg_delta :: "duration \<Rightarrow> duration" where
  "neg_delta delta = (if delta > 0 then - 1 * delta else delta)"

definition GetMessagesNotDispatchedForCertainPeriod ::
  "(nat \<Rightarrow> dbenv) \<Rightarrow> time \<Rightarrow> chRepo \<Rightarrow> prRepo \<Rightarrow> duration \<Rightarrow> db \<Rightarrow> Message list" where
  "GetMessagesNotDispatchedForCertainPeriod es t chGet prGet delta d =
     (let earliestReceivedAt = t + neg_delta delta
      in scan_pages m_id m_createdAt 100
           (\<lambda>_ r. m_status r = MsgStatusAcknowledged \<and> m_receivedAt r \<le> earliestReceivedAt)
           (\<lambda>i. getMessages (es i) chGet prGet) (t_message d) 0 None)"

definition GetMessagesForChannel ::
  "dbenv \<Rightarrow> chRepo \<Rightarrow> prRepo \<Rightarrow> string \<Rightarrow> Pagination option \<Rightarrow> MsgStatus list \<Rightarrow> db \<Rightarrow>
   (Message list \<times> Pagination) \<times> error option" where
  "GetMessagesForChannel env chGet prGet channelID page statusFilters d =
     (if bad_page page then (([], no_page), Some ErrPaginationDeadlock)
      else
        (case chGet channelID of
           (_, Some e) \<Rightarrow> (([], no_page), Some e)
         | (_, None) \<Rightarrow>
             let rows = select_page m_id m_createdAt 25 (the page)
                   (filter (\<lambda>r. sql_like (env_dialect env) channelID (m_channelId r) \<and>
                                (length statusFilters > 0 \<longrightarrow> m_status r \<in> set statusFilters)) (t_message d))
             in (case getMessages env chGet prGet rows of
                   Inl e \<Rightarrow> (([], no_page), Some e)
                 | Inr ms \<Rightarrow> ((ms, page_links m_id m_createdAt rows), None))))"

text \<open>
  The loop that lists the messages to prune stops once \<open>cap\<close> messages are collected; \<open>n\<close> counts them.
\<close>

function scan_capped ::
  "('r \<Rightarrow> xid) \<Rightarrow> ('r \<Rightarrow> time) \<Rightarrow> nat \<Rightarrow> ('r \<Rightarrow> bool) \<Rightarrow> (nat \<Rightarrow> 'r list \<Rightarrow> 'j list result) \<Rightarrow>
   int \<Rightarrow> 'r list \<Rightarrow> nat \<Rightarrow> nat \<Rightarrow> Cursor option \<Rightarrow> 'j list" where
  "scan_capped idf cf limit P post cap rows i n c =
     (let pg = select_page idf cf limit (next_page c) (filter P rows)
      in case post i pg of
           Inl e \<Rightarrow> []
         | Inr js \<Rightarrow>
             if pg = [] then []
             else if int (n + length js) \<ge> cap then js
             else js @ scan_capped idf cf limit P post cap rows (Suc i) (n + length js)
                         (Some (page_cursor idf cf (last pg))))"
  by pat_completeness auto

termination scan_capped
proof (relation "measure (\<lambda>(idf, cf, limit, P, post, cap, rows, i, n, c).
         length (filter (in_page idf cf (next_page c)) rows))", goal_cases)
  case (2 idf cf limit P post cap rows i n c pg js)
  then show ?case using page_shrinks [of idf cf limit c P rows pg] by simp
qed simp

declare scan_capped.simps [simp del]

definition prunable :: "time \<Rightarrow> db \<Rightarrow> message_row \<Rightarrow> bool" where
  "prunable t d m \<longleftrightarrow> m_status m = MsgStatusDispatched \<and> m_createdAt m \<le> t \<and>
     \<not> list_ex (\<lambda>j. j_messageId j = m_id m \<and> j_status j \<noteq> JobDelivered) (t_job d) \<and>
     \<not> list_ex (\<lambda>p. p_messageId p = m_id m) (t_parking d)"

definition GetMessagesFromBeforeDurationThatAreCompletelyDelivered ::
  "(nat \<Rightarrow> dbenv) \<Rightarrow> time \<Rightarrow> chRepo \<Rightarrow> prRepo \<Rightarrow> duration \<Rightarrow> int \<Rightarrow> db \<Rightarrow> Message list" where
  "GetMessagesFromBeforeDurationThatAreCompletelyDelivered es t chGet prGet delta absoluteMaxMessages d =
     (let earliestReceivedAt = t + neg_delta delta
      in scan_capped m_id m_createdAt 100 (prunable earliestReceivedAt d)
           (\<lambda>i. getMessages (es i) chGet prGet) absoluteMaxMessages (t_message d) 0 0 None)"

definition DeleteMessage :: "dbenv \<Rightarrow> Message \<Rightarrow> db \<Rightarrow> error option \<times> db" where
  "DeleteMessage env message d =
     transactionalWrites env
       [inTransactionExec env 0 (delete_message (\<lambda>r. sql_like (env_dialect env) (ID message) (m_id r))) 0] d"

record 'a StatusCount =
  sc_Status :: 'a
  sc_Count :: nat
  OldestItemTimestamp :: time
  NewestItemTimestamp :: time

definition GetMessageStatusCountsByChannel ::
  "dbenv \<Rightarrow> string \<Rightarrow> db \<Rightarrow> MsgStatus StatusCount list result" where
  "GetMessageStatusCountsByChannel env channelID d =
     (let rows = filter (\<lambda>r. sql_like (env_dialect env) channelID (m_channelId r)) (t_message d)
      in queryRows env 0
           (map (\<lambda>st. let grp = filter (\<lambda>r. m_status r = st) rows
                      in \<lparr>sc_Status = st, sc_Count = length grp,
                          OldestItemTimestamp = Min (set (map m_receivedAt grp)),
                          NewestItemTimestamp = Max (set (map m_receivedAt grp))\<rparr>)
              (remdups (map m_status rows))))"

text \<open>\<^verbatim>\<open>DeleteMessagesAndJobs\<close>: batches of 100 ids, two statements per batch, one transaction.\<close>

fun batches :: "nat \<Rightarrow> 'a list \<Rightarrow> 'a list list" where
  "batches k xs = (if k = 0 \<or> xs = [] then [] else take k xs # batches k (drop k xs))"

declare batches.simps [simp del]

fun delete_batches :: "dbenv \<Rightarrow> nat \<Rightarrow> xid list list \<Rightarrow> db \<Rightarrow> db tx_outcome" where
  "delete_batches env n [] d = TxOk d"
| "delete_batches env n (batch # rest) d =
     (case tx_Exec env n (delete_job (\<lambda>j. j_messageId j \<in> set batch)) d of
        TxPanic \<Rightarrow> TxPanic
      | TxErr e \<Rightarrow> TxErr (ErrBatchDelete e)
      | TxOk (_, d') \<Rightarrow>
          (case tx_Exec env (Suc n) (delete_message (\<lambda>m. m_id m \<in> set batch)) d' of
             TxPanic \<Rightarrow> TxPanic
           | TxErr e \<Rightarrow> TxErr (ErrBatchDelete e)
           | TxOk (_, d'') \<Rightarrow> delete_batches env (n + 2) rest d''))"

definition DeleteMessagesAndJobs :: "dbenv \<Rightarrow> xid list \<Rightarrow> db \<Rightarrow> error option \<times> db" where
  "DeleteMessagesAndJobs env messageIDs d =
     (if length messageIDs = 0 then (None, d)
      else (case transactionalWrites env [delete_batches env 0 (batches 100 messageIDs)] d of
              (None, d') \<Rightarrow> (None, d')
            | (Some e, d') \<Rightarrow> (Some (ErrBatchDelete e), d')))"

end
