(* ===== verification/Pause_Repo.thy ===== *)
theory Pause_Repo
  imports Schema
begin

section \<open>Stored dispatch pauses: storage/dispatchpauserepo.go\<close>

text \<open>
  The table \<^verbatim>\<open>dispatch_pause\<close> has a row per paused scope; a consumer is effectively paused when its
  internal id or the global scope has a row.  The locale \<open>pause_store\<close> is the contract of anything
  that keeps a set of paused scopes; this repository and the in-memory registry of the dispatcher both
  implement it.
\<close>

subsection \<open>The contract\<close>

datatype pause_op = OpPause DispatchPause | OpResume string

fun op_scope :: "pause_op \<Rightarrow> string" where
  "op_scope (OpPause p) = Scope p"
| "op_scope (OpResume s) = s"

text \<open>A set of scopes, updated by pauses and resumes: the abstract state.\<close>

fun scopes_step :: "pause_op \<Rightarrow> string set \<Rightarrow> string set" where
  "scopes_step (OpPause p) S = insert (Scope p) S"
| "scopes_step (OpResume s) S = S - {s}"

definition paused_in :: "string set \<Rightarrow> string \<Rightarrow> bool" where
  "paused_in S c \<longleftrightarrow> GlobalDispatchPauseScope \<in> S \<or> c \<in> S"

locale pause_store =
  fixes scopes :: "'s \<Rightarrow> string set"
    and good :: "'s \<Rightarrow> bool"
    and ok :: "'s \<Rightarrow> DispatchPause \<Rightarrow> bool"
    and add :: "DispatchPause \<Rightarrow> 's \<Rightarrow> 's"
    and del :: "string \<Rightarrow> 's \<Rightarrow> 's"
    and paused :: "'s \<Rightarrow> string \<Rightarrow> bool"
  assumes add_good: "good s \<Longrightarrow> ok s p \<Longrightarrow> good (add p s)"
    and del_good: "good s \<Longrightarrow> good (del x s)"
    and add_ok: "ok (add p s) q = ok s q"
    and del_ok: "ok (del x s) q = ok s q"
    and add_scopes: "good s \<Longrightarrow> ok s p \<Longrightarrow> scopes (add p s) = insert (Scope p) (scopes s)"
    and del_scopes: "good s \<Longrightarrow> scopes (del x s) = scopes s - {x}"
    and paused_iff: "good s \<Longrightarrow> paused s c \<longleftrightarrow> paused_in (scopes s) c"
begin

fun step :: "pause_op \<Rightarrow> 's \<Rightarrow> 's" where
  "step (OpPause p) s = add p s"
| "step (OpResume x) s = del x s"

fun op_ok :: "'s \<Rightarrow> pause_op \<Rightarrow> bool" where
  "op_ok s (OpPause p) = ok s p"
| "op_ok s (OpResume x) = True"

lemma step_ok: "op_ok (step op s) op' = op_ok s op'"
  by (cases op; cases op') (simp_all add: add_ok del_ok)

lemma step_good: "good s \<Longrightarrow> op_ok s op \<Longrightarrow> good (step op s)"
  by (cases op) (simp_all add: add_good del_good)

lemma step_scopes: "good s \<Longrightarrow> op_ok s op \<Longrightarrow> scopes (step op s) = scopes_step op (scopes s)"
  by (cases op) (simp_all add: add_scopes del_scopes)

text \<open>The store refines the set of scopes.\<close>

lemma run_refines:
  "good s \<Longrightarrow> list_all (op_ok s) ops \<Longrightarrow>
   good (fold step ops s) \<and> scopes (fold step ops s) = fold scopes_step ops (scopes s)"
proof (induction ops arbitrary: s)
  case (Cons op ops)
  have "op_ok (step op s) = op_ok s" by (rule ext) (rule step_ok)
  with Cons.prems have "op_ok s op" "list_all (op_ok (step op s)) ops" by simp_all
  with Cons show ?case by (simp add: step_good step_scopes)
qed simp

lemma run_paused:
  "good s \<Longrightarrow> list_all (op_ok s) ops \<Longrightarrow>
   paused (fold step ops s) c \<longleftrightarrow> paused_in (fold scopes_step ops (scopes s)) c"
  using run_refines [of s ops] paused_iff [of "fold step ops s" c] by simp

lemma pause_then_paused: "good s \<Longrightarrow> ok s p \<Longrightarrow> Scope p = c \<Longrightarrow> paused (add p s) c"
  by (simp add: paused_iff add_good add_scopes paused_in_def)

lemma resume_keeps_others: "good s \<Longrightarrow> x \<noteq> c \<Longrightarrow> x \<noteq> GlobalDispatchPauseScope \<Longrightarrow>
   paused (del x s) c = paused s c"
  by (simp add: paused_iff del_good del_scopes paused_in_def)

end

subsection \<open>DispatchPauseDBRepository\<close>

definition dispatchPauseErrorMap :: "(nat, error) gomap" where
  "dispatchPauseErrorMap = [(1062, ErrDuplicateDispatchPause)]"

definition pause_row_of :: "dbenv \<Rightarrow> DispatchPause \<Rightarrow> pause_row" where
  "pause_row_of env p =
     \<lparr>ps_scope = Scope p, ps_consumerId = (if \<not> IsGlobal p then Some (pause_ConsumerID p) else None),
      ps_reason = Reason p, ps_pausedAt = dt env (PausedAt p)\<rparr>"

definition row_pause :: "pause_row \<Rightarrow> DispatchPause" where
  "row_pause r =
     \<lparr>Scope = ps_scope r, pause_ConsumerID = (case ps_consumerId r of None \<Rightarrow> '''' | Some c \<Rightarrow> c),
      Reason = ps_reason r, PausedAt = ps_pausedAt r\<rparr>"

definition pause_Get :: "dbenv \<Rightarrow> string \<Rightarrow> db \<Rightarrow> DispatchPause result" where
  "pause_Get env scope d =
     (case querySingleRow env 0 (filter (\<lambda>r. ps_scope r = scope) (t_pause d)) of
        Inl e \<Rightarrow> Inl e
      | Inr r \<Rightarrow> Inr (row_pause r))"

definition pause_Pause ::
  "dbenv \<Rightarrow> dbenv \<Rightarrow> DispatchPause option \<Rightarrow> db \<Rightarrow> DispatchPause result \<times> db" where
  "pause_Pause env env' pause d =
     (case pause of
        None \<Rightarrow> (Inl ErrInvalidStateToSave, d)
      | Some p0 \<Rightarrow>
          let p = snd (pause_QuickFix (now env) p0)
          in if \<not> pause_IsInValidState p then (Inl ErrInvalidStateToSave, d)
             else (case transactionalSingleRowWriteExec env (insert_pause (pause_row_of env p)) d of
                     (None, d') \<Rightarrow> (Inr p, d')
                   | (Some err, d') \<Rightarrow>
                       (if normalizeDBError (Some err) dispatchPauseErrorMap = Some ErrDuplicateDispatchPause
                        then (case pause_Get env' (Scope p) d' of
                                Inr existing \<Rightarrow> (Inr existing, d')
                              | Inl _ \<Rightarrow> (Inl err, d'))
                        else (Inl err, d'))))"

definition pause_Resume :: "dbenv \<Rightarrow> string \<Rightarrow> db \<Rightarrow> (bool \<times> error option) \<times> db" where
  "pause_Resume env scope d =
     (case transactionalOperations env (counting_exec env (delete_pause (\<lambda>r. ps_scope r = scope))) 0 d of
        ((rowsAffected, err), d') \<Rightarrow> ((rowsAffected > 0, err), d'))"

definition pause_GetAll :: "dbenv \<Rightarrow> db \<Rightarrow> DispatchPause list result" where
  "pause_GetAll env d =
     (case queryRows env 0 (sort_key ps_pausedAt (t_pause d)) of
        Inl e \<Rightarrow> Inl e
      | Inr rows \<Rightarrow> Inr (map row_pause rows))"

definition effectively_paused :: "db \<Rightarrow> string \<Rightarrow> bool" where
  "effectively_paused d c \<longleftrightarrow>
     list_ex (\<lambda>r. ps_scope r = c \<or> ps_scope r = GlobalDispatchPauseScope) (t_pause d)"

definition pause_IsEffectivelyPaused :: "dbenv \<Rightarrow> string \<Rightarrow> db \<Rightarrow> bool \<times> error option" where
  "pause_IsEffectivelyPaused env c d =
     (case querySingleRow env 0
             [length (filter (\<lambda>r. ps_scope r \<in> {c, GlobalDispatchPauseScope}) (t_pause d))] of
        Inl e \<Rightarrow> (False, Some e)
      | Inr n \<Rightarrow> (n > 0, None))"

subsection \<open>Behaviour\<close>

definition pause_table_ok :: "db \<Rightarrow> bool" where
  "pause_table_ok d \<longleftrightarrow> distinct (map ps_scope (t_pause d))"

definition pause_scopes :: "db \<Rightarrow> string set" where
  "pause_scopes d = ps_scope ` set (t_pause d)"

definition pause_valid :: "dbenv \<Rightarrow> db \<Rightarrow> DispatchPause \<Rightarrow> bool" where
  "pause_valid env d p \<longleftrightarrow> pause_IsInValidState (snd (pause_QuickFix (now env) p)) \<and>
     (IsGlobal p \<or> has_consumer d (pause_ConsumerID p))"

lemma effectively_paused_iff: "effectively_paused d c \<longleftrightarrow> paused_in (pause_scopes d) c"
  unfolding effectively_paused_def paused_in_def pause_scopes_def list_ex_iff
  by (metis (mono_tags, lifting) image_iff)

lemma IsEffectivelyPaused_quiet:
  "quiet env \<Longrightarrow> pause_IsEffectivelyPaused env c d = (effectively_paused d c, None)"
  by (auto simp: pause_IsEffectivelyPaused_def querySingleRow_quiet effectively_paused_def list_ex_iff
      filter_empty_conv)

lemma insert_pause_eq:
  "insert_pause r d =
     (if ps_scope r \<in> pause_scopes d then Inl (DBError 1062)
      else if \<not> (case ps_consumerId r of None \<Rightarrow> True | Some i \<Rightarrow> has_consumer d i) then Inl (DBError 1452)
      else Inr (1, d\<lparr>t_pause := t_pause d @ [r]\<rparr>))"
proof -
  have "list_ex (\<lambda>s. ps_scope r = ps_scope s) rows \<longleftrightarrow> ps_scope r \<in> ps_scope ` set rows" for rows
    by (induction rows) auto
  then have "list_ex (\<lambda>s. ps_scope r = ps_scope s) (t_pause d) \<longleftrightarrow> ps_scope r \<in> pause_scopes d"
    by (simp only: pause_scopes_def)
  then show ?thesis by (simp add: insert_pause_def into_table_def)
qed

lemma IsGlobal_QuickFix [simp]: "IsGlobal (snd (pause_QuickFix t p)) = IsGlobal p"
  by (simp add: IsGlobal_def pause_QuickFix_parts)

lemma pause_Get_quiet:
  "quiet env \<Longrightarrow> pause_table_ok d \<Longrightarrow> r \<in> set (t_pause d) \<Longrightarrow> pause_Get env (ps_scope r) d = Inr (row_pause r)"
proof -
  assume a: "quiet env" "pause_table_ok d" "r \<in> set (t_pause d)"
  then have "filter (\<lambda>s. ps_scope s = ps_scope r) (t_pause d) = [r]"
    by (simp add: pause_table_ok_def filter_key_unique)
  with a show ?thesis by (simp add: pause_Get_def querySingleRow_quiet)
qed

lemma pause_Pause_new:
  assumes "quiet env" "pause_valid env d p" "Scope p \<notin> pause_scopes d"
  shows "pause_Pause env env' (Some p) d =
     (Inr (snd (pause_QuickFix (now env) p)),
      d\<lparr>t_pause := t_pause d @ [pause_row_of env (snd (pause_QuickFix (now env) p))]\<rparr>)"
proof -
  let ?r = "pause_row_of env (snd (pause_QuickFix (now env) p))"
  have "insert_pause ?r d = Inr (1, d\<lparr>t_pause := t_pause d @ [?r]\<rparr>)"
    using assms(2,3) by (auto simp: insert_pause_eq pause_row_of_def pause_QuickFix_parts pause_valid_def)
  with assms show ?thesis by (simp add: pause_Pause_def Let_def single_write_quiet pause_valid_def)
qed

lemma pause_Pause_again:
  assumes "quiet env" "quiet env'" "pause_IsInValidState (snd (pause_QuickFix (now env) p))"
    "pause_table_ok d" "r \<in> set (t_pause d)" "ps_scope r = Scope p"
  shows "pause_Pause env env' (Some p) d = (Inr (row_pause r), d)"
proof -
  have "Scope p \<in> pause_scopes d" using assms(5,6) by (metis imageI pause_scopes_def)
  then show ?thesis
    using assms pause_Get_quiet [OF assms(2,4,5)]
    by (simp add: pause_Pause_def Let_def single_write_quiet insert_pause_eq pause_row_of_def
        pause_QuickFix_parts normalizeDBError_def lookup_error_def dispatchPauseErrorMap_def)
qed

lemma pause_Resume_quiet:
  "quiet env \<Longrightarrow> pause_Resume env x d =
     ((x \<in> pause_scopes d, None), d\<lparr>t_pause := filter (\<lambda>r. ps_scope r \<noteq> x) (t_pause d)\<rparr>)"
  by (auto simp: pause_Resume_def transactionalOperations_quiet counting_exec_quiet delete_pause_def
      sql_delete_def pause_scopes_def filter_empty_conv image_iff)

lemma pause_Pause_scopes:
  assumes "quiet env" "quiet env'" "pause_valid env d p" "pause_table_ok d"
  shows "pause_scopes (snd (pause_Pause env env' (Some p) d)) = insert (Scope p) (pause_scopes d)"
    and "pause_table_ok (snd (pause_Pause env env' (Some p) d))"
proof -
  have "pause_scopes (snd (pause_Pause env env' (Some p) d)) = insert (Scope p) (pause_scopes d) \<and>
        pause_table_ok (snd (pause_Pause env env' (Some p) d))"
  proof (cases "Scope p \<in> pause_scopes d")
    case True
    then obtain r where "r \<in> set (t_pause d)" "ps_scope r = Scope p" by (auto simp: pause_scopes_def)
    with assms True show ?thesis
      using pause_Pause_again [of env env' p d r] by (auto simp: pause_valid_def insert_absorb)
  next
    case False
    with assms show ?thesis
      by (simp add: pause_Pause_new)
        (auto simp: pause_scopes_def pause_table_ok_def pause_row_of_def pause_QuickFix_parts)
  qed
  then show "pause_scopes (snd (pause_Pause env env' (Some p) d)) = insert (Scope p) (pause_scopes d)"
    "pause_table_ok (snd (pause_Pause env env' (Some p) d))" by simp_all
qed

lemma pause_Pause_tables:
  "t_consumer (snd (pause_Pause env env' p d)) = t_consumer d"
proof (cases p)
  case (Some p0)
  let ?r = "pause_row_of env (snd (pause_QuickFix (now env) p0))"
  have "t_consumer (snd (transactionalSingleRowWriteExec env (insert_pause ?r) d)) = t_consumer d"
    by (rule single_write_inv) (auto simp: insert_pause_eq split: if_splits)
  then show ?thesis
    by (auto simp: pause_Pause_def Some Let_def split: prod.splits option.splits sum.splits)
qed (simp add: pause_Pause_def)

text \<open>The repository on a fault-free database is a pause store.\<close>

interpretation repo: pause_store pause_scopes pause_table_ok "pause_valid (calm di t)"
  "\<lambda>p d. snd (pause_Pause (calm di t) (calm di t) (Some p) d)"
  "\<lambda>x d. snd (pause_Resume (calm di t) x d)" effectively_paused for di t
proof unfold_locales
  fix d p q x
  have c: "has_consumer d' = has_consumer d" if "t_consumer d' = t_consumer d" for d'
    using that by (simp add: has_consumer_def fun_eq_iff)
  show "pause_valid (calm di t) (snd (pause_Pause (calm di t) (calm di t) (Some p) d)) q =
        pause_valid (calm di t) d q"
    using c [OF pause_Pause_tables] by (simp add: pause_valid_def)
  show "pause_valid (calm di t) (snd (pause_Resume (calm di t) x d)) q = pause_valid (calm di t) d q"
    using c [of "snd (pause_Resume (calm di t) x d)"] by (simp add: pause_valid_def pause_Resume_quiet)
  show "pause_scopes (snd (pause_Resume (calm di t) x d)) = pause_scopes d - {x}"
    by (auto simp: pause_Resume_quiet pause_scopes_def)
next
  fix d x
  show "pause_table_ok d \<Longrightarrow> pause_table_ok (snd (pause_Resume (calm di t) x d))"
    by (simp add: pause_Resume_quiet pause_table_ok_def distinct_map inj_on_def)
qed (simp_all add: pause_Pause_scopes effectively_paused_iff)

end
