(* ===== verification/Job_Repo.thy ===== *)
theory Job_Repo
  imports Message_Repo Pause_Repo
begin

section \<open>Delivery jobs and parked jobs: storage/deliveryjobrepo.go and jobparkingrepo.go\<close>

text \<open>
  A job lives in the table \<^verbatim>\<open>job\<close> or, while its consumer is paused, in \<^verbatim>\<open>job_parking\<close>.  Every method
  that changes a row is one transaction here as in the code; the object a method updates in memory is
  returned with the error.  The message and consumer repositories are parameters (\<open>msgByID\<close>,
  \<open>msgByIDs\<close>, \<open>conByID\<close>); \<^verbatim>\<open>conByID\<close> returns \<open>None\<close> for the nil pointer of the cached repository.
\<close>

type_synonym msgByIDRepo = "xid \<Rightarrow> Message \<times> error option"
type_synonym msgByIDsRepo = "xid list \<Rightarrow> Message list \<times> error option"
type_synonym conByIDRepo = "xid \<Rightarrow> Consumer option \<times> error option"

definition zero_job :: DeliveryJob where
  "zero_job = \<lparr>ID = nil_xid, CreatedAt = 0, UpdatedAt = 0, dj_Message = None, Listener = None,
     dj_Status = JobStatusOther 0, StatusChangedAt = 0, DispatchReceivedAt = 0, EarliestNextAttemptAt = 0,
     RetryAttemptCount = 0, dj_Priority = 0, IncrementalTimeout = 0\<rparr>"

definition row_job :: "Message option \<Rightarrow> Consumer option \<Rightarrow> job_row \<Rightarrow> DeliveryJob" where
  "row_job m c r =
     \<lparr>ID = j_id r, CreatedAt = j_createdAt r, UpdatedAt = j_updatedAt r, dj_Message = m, Listener = c,
      dj_Status = j_status r, StatusChangedAt = j_statusChangedAt r, DispatchReceivedAt = j_dispatchReceivedAt r,
      EarliestNextAttemptAt = j_earliestNextAttemptAt r, RetryAttemptCount = j_retryAttemptCount r,
      dj_Priority = j_priority r, IncrementalTimeout = j_incrementalTimeout r\<rparr>"

definition job_MessageID :: "DeliveryJob \<Rightarrow> xid" where
  "job_MessageID job = (case dj_Message job of Some m \<Rightarrow> ID m | None \<Rightarrow> nil_xid)"

definition job_ListenerID :: "DeliveryJob \<Rightarrow> xid" where
  "job_ListenerID job = (case Listener job of Some c \<Rightarrow> ID c | None \<Rightarrow> nil_xid)"

text \<open>The insert of \<^verbatim>\<open>DispatchMessageWithParking\<close> leaves \<^verbatim>\<open>retryAttemptCount\<close> to its default 0.\<close>

definition job_row_of :: "dbenv \<Rightarrow> DeliveryJob \<Rightarrow> job_row" where
  "job_row_of env job =
     \<lparr>j_id = ID job, j_messageId = job_MessageID job, j_consumerId = job_ListenerID job, j_status = dj_Status job,
      j_dispatchReceivedAt = dt env (DispatchReceivedAt job), j_retryAttemptCount = 0,
      j_statusChangedAt = dt env (StatusChangedAt job),
      j_earliestNextAttemptAt = dt env (EarliestNextAttemptAt job), j_createdAt = dt env (CreatedAt job),
      j_updatedAt = dt env (UpdatedAt job), j_priority = dj_Priority job, j_incrementalTimeout = IncrementalTimeout job\<rparr>"

definition parked_row_of :: "dbenv \<Rightarrow> time \<Rightarrow> DeliveryJob \<Rightarrow> parked_row" where
  "parked_row_of env parkedAt job =
     \<lparr>p_seq = 0, p_id = ID job, p_messageId = job_MessageID job, p_consumerId = job_ListenerID job,
      p_dispatchReceivedAt = dt env (DispatchReceivedAt job), p_retryAttemptCount = RetryAttemptCount job,
      p_earliestNextAttemptAt = dt env (EarliestNextAttemptAt job), p_priority = dj_Priority job,
      p_incrementalTimeout = IncrementalTimeout job, p_createdAt = dt env (CreatedAt job),
      p_parkedAt = dt env parkedAt\<rparr>"

subsection \<open>Dispatching a message\<close>

definition insertParkedJobsInTx :: "dbenv \<Rightarrow> nat \<Rightarrow> DeliveryJob list \<Rightarrow> time \<Rightarrow> db \<Rightarrow> db tx_outcome" where
  "insertParkedJobsInTx env n jobs parkedAt d =
     (if length jobs = 0 then TxOk d
      else inTransactionExec env n (insert_parked (map (parked_row_of env parkedAt) jobs)) (length jobs) d)"

definition dispatch_job_ok :: "Message \<Rightarrow> DeliveryJob option \<Rightarrow> bool" where
  "dispatch_job_ok message job \<longleftrightarrow>
     (case job of None \<Rightarrow> False | Some j \<Rightarrow> job_IsInValidState j \<and> job_MessageID j = ID message)"

definition dispatch_txs :: "dbenv \<Rightarrow> Message \<Rightarrow> DeliveryJob list \<Rightarrow> DeliveryJob list \<Rightarrow> (db \<Rightarrow> db tx_outcome) list" where
  "dispatch_txs env message deliveryJobs parkedJobs =
     (if length deliveryJobs > 0 then
        [inTransactionExec env 0 (insert_jobs (map (job_row_of env) deliveryJobs)) (length deliveryJobs)] else []) @
     (if length parkedJobs > 0 then [insertParkedJobsInTx env 1 parkedJobs (now env)] else []) @
     [SetDispatched env 2 True (Some message)]"

definition DispatchMessageWithParking ::
  "dbenv \<Rightarrow> Message option \<Rightarrow> DeliveryJob option list \<Rightarrow> DeliveryJob option list \<Rightarrow> db \<Rightarrow>
   (error option \<times> Message option \<times> DeliveryJob option list) \<times> db" where
  "DispatchMessageWithParking env message deliveryJobs parkedJobs d =
     (case message of
        None \<Rightarrow> ((Some ErrInvalidStateToSave, None, parkedJobs), d)
      | Some m \<Rightarrow>
          if \<not> message_IsInValidState m \<or> \<not> list_all (dispatch_job_ok m) deliveryJobs
             \<or> \<not> list_all (dispatch_job_ok m) parkedJobs
          then ((Some ErrInvalidStateToSave, message, parkedJobs), d)
          else
            (case transactionalWrites env (dispatch_txs env m (map the deliveryJobs) (map the parkedJobs)) d of
               (err, d') \<Rightarrow>
                 (if err = None then
                    ((None, Some (m\<lparr>msg_Status := MsgStatusDispatched, OutboxedAt := now env, UpdatedAt := now env\<rparr>),
                      map (map_option (\<lambda>j. j\<lparr>dj_Status := JobParked\<rparr>)) parkedJobs), d')
                  else ((err, message, parkedJobs), d'))))"

definition DispatchMessage ::
  "dbenv \<Rightarrow> Message option \<Rightarrow> DeliveryJob option list \<Rightarrow> db \<Rightarrow> (error option \<times> Message option) \<times> db" where
  "DispatchMessage env message deliveryJobs d =
     (case DispatchMessageWithParking env message deliveryJobs [] d of
        ((err, message', _), d') \<Rightarrow> ((err, message'), d'))"

subsection \<open>Status transitions\<close>

definition updateJobStatusWithQuery ::
  "dbenv \<Rightarrow> DeliveryJob \<Rightarrow> JobStatus \<Rightarrow> JobStatus \<Rightarrow> (db \<Rightarrow> job_row \<Rightarrow> bool) \<Rightarrow> db \<Rightarrow>
   (error option \<times> DeliveryJob) \<times> db" where
  "updateJobStatusWithQuery env job from to extra d =
     (case transactionalSingleRowWriteExec env
             (\<lambda>d. update_job (env_dialect env)
                (\<lambda>r. sql_like (env_dialect env) (ID job) (j_id r) \<and> j_status r = from \<and> extra d r)
                (\<lambda>r. r\<lparr>j_status := to, j_incrementalTimeout := IncrementalTimeout job,
                       j_statusChangedAt := dt env (now env), j_updatedAt := dt env (now env)\<rparr>) d) d of
        (err, d') \<Rightarrow>
          ((err, if err = None then job\<lparr>dj_Status := to, StatusChangedAt := now env, UpdatedAt := now env\<rparr>
                 else job), d'))"

definition updateJobStatus ::
  "dbenv \<Rightarrow> DeliveryJob \<Rightarrow> JobStatus \<Rightarrow> JobStatus \<Rightarrow> db \<Rightarrow> (error option \<times> DeliveryJob) \<times> db" where
  "updateJobStatus env job from to d = updateJobStatusWithQuery env job from to (\<lambda>_ _. True) d"

definition MarkJobInflight :: "dbenv \<Rightarrow> DeliveryJob \<Rightarrow> db \<Rightarrow> (error option \<times> DeliveryJob) \<times> db" where
  "MarkJobInflight env job d =
     (case transactionalSingleRowWriteExec env
             (\<lambda>d. update_job (env_dialect env)
                (\<lambda>r. sql_like (env_dialect env) (ID job) (j_id r) \<and> j_status r = JobQueued
                     \<and> j_retryAttemptCount r = RetryAttemptCount job \<and> \<not> effectively_paused d (j_consumerId r))
                (\<lambda>r. r\<lparr>j_status := JobInflight, j_incrementalTimeout := IncrementalTimeout job,
                       j_statusChangedAt := dt env (now env), j_updatedAt := dt env (now env)\<rparr>) d) d of
        (err, d') \<Rightarrow>
          ((err, if err = None
                 then job\<lparr>dj_Status := JobInflight, StatusChangedAt := now env, UpdatedAt := now env\<rparr> else job), d'))"

definition MarkJobDelivered :: "dbenv \<Rightarrow> DeliveryJob \<Rightarrow> db \<Rightarrow> (error option \<times> DeliveryJob) \<times> db" where
  "MarkJobDelivered env job d = updateJobStatus env job JobInflight JobDelivered d"

definition MarkJobDead :: "dbenv \<Rightarrow> DeliveryJob \<Rightarrow> db \<Rightarrow> (error option \<times> DeliveryJob) \<times> db" where
  "MarkJobDead env job d = updateJobStatus env job JobInflight JobDead d"

definition MarkQueuedJobAsDead :: "dbenv \<Rightarrow> DeliveryJob \<Rightarrow> db \<Rightarrow> (error option \<times> DeliveryJob) \<times> db" where
  "MarkQueuedJobAsDead env job d = updateJobStatus env job JobQueued JobDead d"

definition MarkJobRetry ::
  "dbenv \<Rightarrow> DeliveryJob \<Rightarrow> duration \<Rightarrow> db \<Rightarrow> (error option \<times> DeliveryJob) \<times> db" where
  "MarkJobRetry env job earliestDelta d =
     (let nextTime = now env + earliestDelta
      in case transactionalSingleRowWriteExec env
                (update_job (env_dialect env)
                   (\<lambda>r. sql_like (env_dialect env) (ID job) (j_id r) \<and> j_status r = JobInflight)
                   (\<lambda>r. r\<lparr>j_status := JobQueued, j_statusChangedAt := dt env (now env),
                          j_updatedAt := dt env (now env), j_earliestNextAttemptAt := dt env nextTime,
                          j_retryAttemptCount := RetryAttemptCount job + 1\<rparr>)) d of
           (err, d') \<Rightarrow>
             ((err, if err = None
                    then job\<lparr>dj_Status := JobQueued, StatusChangedAt := now env, UpdatedAt := now env,
                             EarliestNextAttemptAt := nextTime, RetryAttemptCount := RetryAttemptCount job + 1\<rparr>
                    else job), d'))"

definition MarkDeadJobAsInflight :: "dbenv \<Rightarrow> DeliveryJob \<Rightarrow> db \<Rightarrow> (error option \<times> DeliveryJob) \<times> db" where
  "MarkDeadJobAsInflight env job d =
     (case transactionalSingleRowWriteExec env
             (\<lambda>d. update_job (env_dialect env)
                (\<lambda>r. sql_like (env_dialect env) (ID job) (j_id r) \<and> j_status r = JobDead
                     \<and> \<not> effectively_paused d (j_consumerId r))
                (\<lambda>r. r\<lparr>j_status := JobInflight, j_incrementalTimeout := IncrementalTimeout job,
                       j_statusChangedAt := dt env (now env), j_updatedAt := dt env (now env),
                       j_earliestNextAttemptAt := dt env (now env),
                       j_retryAttemptCount := RetryAttemptCount job + 1\<rparr>) d) d of
        (err, d') \<Rightarrow>
          ((err, if err = None
                 then job\<lparr>dj_Status := JobInflight, StatusChangedAt := now env, UpdatedAt := now env,
                          EarliestNextAttemptAt := now env, RetryAttemptCount := RetryAttemptCount job + 1\<rparr>
                 else job), d'))"

definition requeue_row :: "dbenv \<Rightarrow> job_row \<Rightarrow> job_row" where
  "requeue_row env r = r\<lparr>j_status := JobQueued, j_statusChangedAt := dt env (now env),
                         j_updatedAt := dt env (now env), j_retryAttemptCount := 0\<rparr>"

definition RequeueDeadJobsForConsumer :: "dbenv \<Rightarrow> Consumer \<Rightarrow> db \<Rightarrow> (nat \<times> error option) \<times> db" where
  "RequeueDeadJobsForConsumer env consumer d =
     transactionalOperations env
       (counting_exec env
          (update_job (env_dialect env)
             (\<lambda>r. sql_like (env_dialect env) (ID consumer) (j_consumerId r) \<and> j_status r = JobDead)
             (requeue_row env))) 0 d"

definition RequeueDeadJob :: "dbenv \<Rightarrow> DeliveryJob \<Rightarrow> db \<Rightarrow> (nat \<times> error option) \<times> db" where
  "RequeueDeadJob env job d =
     transactionalOperations env
       (\<lambda>d. case counting_exec env
                   (update_job (env_dialect env)
                      (\<lambda>r. sql_like (env_dialect env) (ID job) (j_id r) \<and> j_status r = JobDead)
                      (requeue_row env)) d of
              (TxOk d', n) \<Rightarrow> (if n = 0 then TxErr ErrNoRowsUpdated else TxOk d', n)
            | other \<Rightarrow> other) 0 d"

subsection \<open>Deletes\<close>

definition DeleteJobsForMessage :: "dbenv \<Rightarrow> Message \<Rightarrow> db \<Rightarrow> error option \<times> db" where
  "DeleteJobsForMessage env message d =
     transactionalWrites env
       [inTransactionExec env 0 (delete_job (\<lambda>r. sql_like (env_dialect env) (ID message) (j_messageId r))) 0] d"

definition DeleteDeadJobsForConsumer :: "dbenv \<Rightarrow> Consumer \<Rightarrow> nat \<Rightarrow> db \<Rightarrow> (nat \<times> error option) \<times> db" where
  "DeleteDeadJobsForConsumer env consumer maxRetryCount d =
     transactionalOperations env
       (counting_exec env
          (delete_job (\<lambda>r. j_consumerId r = ID consumer \<and> j_status r = JobDead \<and> j_retryAttemptCount r \<ge> maxRetryCount)))
       0 d"

definition DeleteDeadJob :: "dbenv \<Rightarrow> DeliveryJob \<Rightarrow> nat \<Rightarrow> db \<Rightarrow> (nat \<times> error option) \<times> db" where
  "DeleteDeadJob env job maxRetryCount d =
     transactionalOperations env
       (counting_exec env
          (delete_job (\<lambda>r. j_id r = ID job \<and> j_status r = JobDead \<and> j_retryAttemptCount r \<ge> maxRetryCount)))
       0 d"

subsection \<open>Parking\<close>

definition parked_of_job :: "dbenv \<Rightarrow> job_row \<Rightarrow> parked_row" where
  "parked_of_job env r =
     \<lparr>p_seq = 0, p_id = j_id r, p_messageId = j_messageId r, p_consumerId = j_consumerId r,
      p_dispatchReceivedAt = j_dispatchReceivedAt r, p_retryAttemptCount = j_retryAttemptCount r,
      p_earliestNextAttemptAt = j_earliestNextAttemptAt r, p_priority = j_priority r,
      p_incrementalTimeout = j_incrementalTimeout r, p_createdAt = j_createdAt r,
      p_parkedAt = dt env (now env)\<rparr>"

definition repark_insert :: "dbenv \<Rightarrow> xid \<Rightarrow> db stmt" where
  "repark_insert env i d =
     insert_parked (map (parked_of_job env)
       (filter (\<lambda>r. j_id r = i \<and> j_status r = JobQueued \<and> effectively_paused d (j_consumerId r)) (t_job d))) d"

definition repark_ops :: "dbenv \<Rightarrow> xid \<Rightarrow> db \<Rightarrow> db tx_outcome \<times> bool" where
  "repark_ops env i d =
     (case tx_Exec env 0 (repark_insert env i) d of
        TxPanic \<Rightarrow> (TxPanic, False)
      | TxErr e \<Rightarrow> (TxErr e, False)
      | TxOk (inserted, d') \<Rightarrow>
          if inserted = 0 then (TxOk d', False)
          else
            (case inTransactionExec env 1 (delete_job (\<lambda>r. j_id r = i \<and> j_status r = JobQueued)) 1 d' of
               TxOk d'' \<Rightarrow> (TxOk d'', True)
             | TxErr e \<Rightarrow> (TxErr e, False)
             | TxPanic \<Rightarrow> (TxPanic, False)))"

definition ReparkQueuedJob ::
  "dbenv \<Rightarrow> DeliveryJob option \<Rightarrow> db \<Rightarrow> (bool \<times> error option \<times> DeliveryJob option) \<times> db" where
  "ReparkQueuedJob env job d =
     (case job of
        None \<Rightarrow> ((False, Some ErrInvalidStateToSave, None), d)
      | Some j \<Rightarrow>
          (case transactionalOperations env (repark_ops env (ID j)) False d of
             ((moved, Some e), d') \<Rightarrow> ((False, Some e, job), d')
           | ((moved, None), d') \<Rightarrow>
               ((moved, None, Some (if moved then j\<lparr>dj_Status := JobParked\<rparr> else j)), d')))"

definition GetDrainableConsumerIDs :: "dbenv \<Rightarrow> db \<Rightarrow> xid list result" where
  "GetDrainableConsumerIDs env d =
     (case queryRows env 0 (map ps_scope (t_pause d)) of
        Inl e \<Rightarrow> Inl e
      | Inr scopes \<Rightarrow>
          if GlobalDispatchPauseScope \<in> set scopes then Inr []
          else
            (case queryRows env 1 (remdups (map p_consumerId (t_parking d))) of
               Inl e \<Rightarrow> Inl e
             | Inr parkedConsumerIDs \<Rightarrow> Inr (filter (\<lambda>c. c \<notin> set scopes) parkedConsumerIDs)))"

definition drain_rows :: "xid \<Rightarrow> int \<Rightarrow> db \<Rightarrow> parked_row list" where
  "drain_rows c pageSize d =
     (if effectively_paused d c then []
      else take (nat pageSize) (sort_key (\<lambda>p. (p_createdAt p, p_seq p))
             (filter (\<lambda>p. p_consumerId p = c) (t_parking d))))"

definition drained_job :: "dbenv \<Rightarrow> time \<Rightarrow> parked_row \<Rightarrow> job_row" where
  "drained_job env earliest p =
     \<lparr>j_id = p_id p, j_messageId = p_messageId p, j_consumerId = p_consumerId p, j_status = JobQueued,
      j_dispatchReceivedAt = p_dispatchReceivedAt p, j_retryAttemptCount = p_retryAttemptCount p,
      j_statusChangedAt = dt env (now env), j_earliestNextAttemptAt = dt env earliest,
      j_createdAt = p_createdAt p, j_updatedAt = dt env (now env), j_priority = p_priority p,
      j_incrementalTimeout = p_incrementalTimeout p\<rparr>"

definition drain_ops :: "dbenv \<Rightarrow> xid \<Rightarrow> int \<Rightarrow> time \<Rightarrow> db \<Rightarrow> db tx_outcome \<times> parked_row list" where
  "drain_ops env c pageSize earliest d =
     (case exec_fault env 0 of
        Some Panic \<Rightarrow> (TxPanic, [])
      | Some (Fail e) \<Rightarrow> (TxErr e, [])
      | None \<Rightarrow>
          let rows = drain_rows c pageSize d
          in if rows = [] then (TxOk d, [])
             else
               ((case inTransactionExec env 1 (delete_parked (\<lambda>p. p_seq p \<in> set (map p_seq rows))) (length rows) d of
                   TxPanic \<Rightarrow> TxPanic
                 | TxErr e \<Rightarrow> TxErr e
                 | TxOk d' \<Rightarrow>
                     inTransactionExec env 2 (insert_jobs (map (drained_job env earliest) rows)) (length rows) d'),
                rows))"

definition drained_object :: "dbenv \<Rightarrow> time \<Rightarrow> parked_row \<Rightarrow> DeliveryJob" where
  "drained_object env earliest p =
     \<lparr>ID = p_id p, CreatedAt = p_createdAt p, UpdatedAt = now env,
      dj_Message = Some (zero_message\<lparr>ID := p_messageId p\<rparr>), Listener = Some (zero_consumer\<lparr>ID := p_consumerId p\<rparr>),
      dj_Status = JobQueued, StatusChangedAt = now env, DispatchReceivedAt = p_dispatchReceivedAt p,
      EarliestNextAttemptAt = earliest, RetryAttemptCount = p_retryAttemptCount p, dj_Priority = p_priority p,
      IncrementalTimeout = p_incrementalTimeout p\<rparr>"

text \<open>
  \<^verbatim>\<open>populateJobs\<close> fills in messages and listeners; it stops at the first listener it cannot load,
  leaving the later jobs unfilled.
\<close>

fun populate_listeners ::
  "msgByIDsRepo \<Rightarrow> conByIDRepo \<Rightarrow> Message list \<Rightarrow> DeliveryJob list \<Rightarrow> DeliveryJob list \<times> error option" where
  "populate_listeners msgByIDs conByID messages [] = ([], None)"
| "populate_listeners msgByIDs conByID messages (job # rest) =
     (let job' = (case filter (\<lambda>m. ID m = job_MessageID job) (rev messages) of
                    [] \<Rightarrow> job | m # _ \<Rightarrow> job\<lparr>dj_Message := Some m\<rparr>)
      in case conByID (job_ListenerID job) of
           (_, Some e) \<Rightarrow> (job' # rest, Some e)
         | (listener, None) \<Rightarrow>
             (case populate_listeners msgByIDs conByID messages rest of
                (rest', err) \<Rightarrow> (job'\<lparr>Listener := listener\<rparr> # rest', err)))"

definition populateJobs ::
  "msgByIDsRepo \<Rightarrow> conByIDRepo \<Rightarrow> DeliveryJob list \<Rightarrow> DeliveryJob list \<times> error option" where
  "populateJobs msgByIDs conByID jobs =
     (if length jobs = 0 then (jobs, None)
      else (case msgByIDs (map job_MessageID jobs) of
              (_, Some e) \<Rightarrow> (jobs, Some e)
            | (messages, None) \<Rightarrow> populate_listeners msgByIDs conByID messages jobs))"

definition DrainPage ::
  "dbenv \<Rightarrow> msgByIDsRepo \<Rightarrow> conByIDRepo \<Rightarrow> xid \<Rightarrow> int \<Rightarrow> time \<Rightarrow> db \<Rightarrow>
   (DeliveryJob list \<times> error option) \<times> db" where
  "DrainPage env msgByIDs conByID c pageSize earliest d =
     (if pageSize \<le> 0 then (([], None), d)
      else
        (case transactionalOperations env (drain_ops env c pageSize earliest) [] d of
           ((rows, Some e), d') \<Rightarrow> (([], Some e), d')
         | ((rows, None), d') \<Rightarrow>
             (populateJobs msgByIDs conByID (map (drained_object env earliest) rows), d')))"

definition parked_object :: "parked_row \<Rightarrow> DeliveryJob" where
  "parked_object p =
     \<lparr>ID = p_id p, CreatedAt = p_createdAt p, UpdatedAt = p_parkedAt p,
      dj_Message = Some (zero_message\<lparr>ID := p_messageId p\<rparr>), Listener = Some (zero_consumer\<lparr>ID := p_consumerId p\<rparr>),
      dj_Status = JobParked, StatusChangedAt = p_parkedAt p, DispatchReceivedAt = p_dispatchReceivedAt p,
      EarliestNextAttemptAt = p_earliestNextAttemptAt p, RetryAttemptCount = p_retryAttemptCount p,
      dj_Priority = p_priority p, IncrementalTimeout = p_incrementalTimeout p\<rparr>"

definition loadParkedJobByID ::
  "dbenv \<Rightarrow> msgByIDRepo \<Rightarrow> conByIDRepo \<Rightarrow> xid \<Rightarrow> db \<Rightarrow> DeliveryJob result" where
  "loadParkedJobByID env msgByID conByID i d =
     (case querySingleRow env 0 (filter (\<lambda>p. p_id p = i) (t_parking d)) of
        Inl e \<Rightarrow> Inl e
      | Inr p \<Rightarrow>
          (case msgByID (p_messageId p) of
             (_, Some e) \<Rightarrow> Inl e
           | (m, None) \<Rightarrow>
               (case conByID (p_consumerId p) of
                  (_, Some e) \<Rightarrow> Inl e
                | (c, None) \<Rightarrow> Inr ((parked_object p)\<lparr>dj_Message := Some m, Listener := c\<rparr>))))"

definition parked_GetForMessage ::
  "dbenv \<Rightarrow> conByIDRepo \<Rightarrow> Message \<Rightarrow> db \<Rightarrow> DeliveryJob list result" where
  "parked_GetForMessage env conByID message d =
     (case queryRows env 0 (sort_key (\<lambda>p. (p_createdAt p, p_seq p))
             (filter (\<lambda>p. p_messageId p = ID message) (t_parking d))) of
        Inl e \<Rightarrow> Inl e
      | Inr rows \<Rightarrow>
          (case filter (\<lambda>p. snd (conByID (p_consumerId p)) \<noteq> None) rows of
             p # _ \<Rightarrow> Inl (the (snd (conByID (p_consumerId p))))
           | [] \<Rightarrow> Inr (map (\<lambda>p. (parked_object p)\<lparr>dj_Message := Some message,
                                                    Listener := fst (conByID (p_consumerId p))\<rparr>) rows)))"

record ParkedJobCount =
  pc_ChannelID :: string
  pc_ConsumerID :: xid
  pc_Count :: nat
  pc_OldestParkedAt :: time
  pc_NewestParkedAt :: time

text \<open>The join of \<^verbatim>\<open>job_parking\<close> with \<^verbatim>\<open>consumer\<close>, grouped by channel and consumer.\<close>

definition parked_groups :: "db \<Rightarrow> ParkedJobCount list" where
  "parked_groups d =
     (let joined = [(c_channelId c, p). p \<leftarrow> t_parking d, c \<leftarrow> filter (\<lambda>c. c_id c = p_consumerId p) (t_consumer d)]
      in map (\<lambda>(ch, c). let grp = filter (\<lambda>(ch', p). ch' = ch \<and> p_consumerId p = c) joined
                        in \<lparr>pc_ChannelID = ch, pc_ConsumerID = c, pc_Count = length grp,
                            pc_OldestParkedAt = Min (set (map (p_parkedAt \<circ> snd) grp)),
                            pc_NewestParkedAt = Max (set (map (p_parkedAt \<circ> snd) grp))\<rparr>)
           (remdups (map (\<lambda>(ch, p). (ch, p_consumerId p)) joined)))"

definition GetCountsByConsumer :: "dbenv \<Rightarrow> db \<Rightarrow> ParkedJobCount list result" where
  "GetCountsByConsumer env d = queryRows env 0 (parked_groups d)"

definition CountForConsumer :: "dbenv \<Rightarrow> xid \<Rightarrow> db \<Rightarrow> nat result" where
  "CountForConsumer env c d = querySingleRow env 0 [length (filter (\<lambda>p. p_consumerId p = c) (t_parking d))]"

end
