(* ===== verification/Job_Query.thy ===== *)
theory Job_Query
  imports Job_Repo
begin

section \<open>Reading jobs: the query methods of storage/deliveryjobrepo.go\<close>

text \<open>
  The listing methods of \<^verbatim>\<open>DeliveryJobDBRepository\<close>: single pages, the page loops of the recovery
  workers, lookups in chunks and the status counts.  Rows become objects by \<^verbatim>\<open>getJobs\<close>, which loads
  listeners one by one and messages in one batch.
\<close>

text \<open>\<^verbatim>\<open>messageMap[id]\<close>: the last message with that id, or nil.\<close>

definition message_by_id :: "Message list \<Rightarrow> xid \<Rightarrow> Message option" where
  "message_by_id messages i = (case filter (\<lambda>m. ID m = i) (rev messages) of [] \<Rightarrow> None | m # _ \<Rightarrow> Some m)"

definition populateJobsWithMessage ::
  "msgByIDsRepo \<Rightarrow> (xid \<times> DeliveryJob) list \<Rightarrow> DeliveryJob list result" where
  "populateJobsWithMessage msgByIDs jobs =
     (case msgByIDs (map fst jobs) of
        (_, Some e) \<Rightarrow> Inl e
      | (messages, None) \<Rightarrow> Inr (map (\<lambda>(i, job). job\<lparr>dj_Message := message_by_id messages i\<rparr>) jobs))"

definition getJobs ::
  "dbenv \<Rightarrow> msgByIDsRepo \<Rightarrow> conByIDRepo \<Rightarrow> Message option \<Rightarrow> Consumer option \<Rightarrow> job_row list \<Rightarrow>
   DeliveryJob list result" where
  "getJobs env msgByIDs conByID message consumer rows =
     (case queryRows env 0 rows of
        Inl e \<Rightarrow> Inl e
      | Inr rs \<Rightarrow>
          let jobs = map (\<lambda>r. (j_messageId r,
                row_job message
                  (case consumer of None \<Rightarrow> fst (conByID (j_consumerId r)) | Some c \<Rightarrow> Some c) r)) rs
          in if message = None then populateJobsWithMessage msgByIDs jobs else Inr (map snd jobs))"

text \<open>The page loop; \<open>es i\<close> is the environment of page \<open>i\<close>, whose clock the query reads.\<close>

definition getJobsForStatusAndDeltaWithCustomQuery ::
  "(nat \<Rightarrow> dbenv) \<Rightarrow> msgByIDsRepo \<Rightarrow> conByIDRepo \<Rightarrow> JobStatus \<Rightarrow> duration \<Rightarrow> bool \<Rightarrow> (job_row \<Rightarrow> bool) \<Rightarrow> db \<Rightarrow>
   DeliveryJob list" where
  "getJobsForStatusAndDeltaWithCustomQuery es msgByIDs conByID status delta useStatusChangedAt base d =
     scan_pages j_id j_createdAt 100
       (\<lambda>i r. base r \<and> j_status r = status \<and>
              (if useStatusChangedAt then j_statusChangedAt r else j_earliestNextAttemptAt r)
                \<le> now (es i) + neg_delta delta)
       (\<lambda>i. getJobs (es i) msgByIDs conByID None None) (t_job d) 0 None"

definition getJobsForStatusAndDelta ::
  "(nat \<Rightarrow> dbenv) \<Rightarrow> msgByIDsRepo \<Rightarrow> conByIDRepo \<Rightarrow> JobStatus \<Rightarrow> duration \<Rightarrow> bool \<Rightarrow> db \<Rightarrow> DeliveryJob list" where
  "getJobsForStatusAndDelta es msgByIDs conByID status delta useStatusChangedAt d =
     getJobsForStatusAndDeltaWithCustomQuery es msgByIDs conByID status delta useStatusChangedAt (\<lambda>_. True) d"

definition GetJobsInflightSince ::
  "(nat \<Rightarrow> dbenv) \<Rightarrow> msgByIDsRepo \<Rightarrow> conByIDRepo \<Rightarrow> duration \<Rightarrow> db \<Rightarrow> DeliveryJob list" where
  "GetJobsInflightSince es msgByIDs conByID delta d =
     getJobsForStatusAndDelta es msgByIDs conByID JobInflight delta True d"

definition pull_consumer_ids :: "db \<Rightarrow> xid list" where
  "pull_consumer_ids d = map c_id (filter (\<lambda>c. c_type c = PullConsumer) (t_consumer d))"

definition ready_base :: "int \<Rightarrow> db \<Rightarrow> job_row \<Rightarrow> bool" where
  "ready_base retryThreshold d r \<longleftrightarrow>
     int (j_retryAttemptCount r) \<ge> retryThreshold \<or> j_consumerId r \<notin> set (pull_consumer_ids d)"

definition GetJobsReadyForInflightSince ::
  "(nat \<Rightarrow> dbenv) \<Rightarrow> msgByIDsRepo \<Rightarrow> conByIDRepo \<Rightarrow> duration \<Rightarrow> int \<Rightarrow> db \<Rightarrow> DeliveryJob list" where
  "GetJobsReadyForInflightSince es msgByIDs conByID delta retryThreshold d =
     getJobsForStatusAndDeltaWithCustomQuery es msgByIDs conByID JobQueued delta False (ready_base retryThreshold d) d"

definition job_page ::
  "dbenv \<Rightarrow> msgByIDsRepo \<Rightarrow> conByIDRepo \<Rightarrow> Message option \<Rightarrow> Consumer option \<Rightarrow> job_row list \<Rightarrow>
   (DeliveryJob list \<times> Pagination) \<times> error option" where
  "job_page env msgByIDs conByID message consumer rows =
     (case getJobs env msgByIDs conByID message consumer rows of
        Inl e \<Rightarrow> (([], no_page), Some e)
      | Inr jobs \<Rightarrow> ((jobs, page_links j_id j_createdAt rows), None))"

definition GetJobsForMessage ::
  "dbenv \<Rightarrow> msgByIDsRepo \<Rightarrow> conByIDRepo \<Rightarrow> Message \<Rightarrow> Pagination option \<Rightarrow> db \<Rightarrow>
   (DeliveryJob list \<times> Pagination) \<times> error option" where
  "GetJobsForMessage env msgByIDs conByID message page d =
     (if bad_page page then (([], no_page), Some ErrPaginationDeadlock)
      else job_page env msgByIDs conByID (Some message) None
             (select_page j_id j_createdAt 100 (the page)
                (filter (\<lambda>r. sql_like (env_dialect env) (ID message) (j_messageId r)) (t_job d))))"

definition GetJobsForConsumer ::
  "dbenv \<Rightarrow> msgByIDsRepo \<Rightarrow> conByIDRepo \<Rightarrow> Consumer \<Rightarrow> JobStatus \<Rightarrow> Pagination option \<Rightarrow> db \<Rightarrow>
   (DeliveryJob list \<times> Pagination) \<times> error option" where
  "GetJobsForConsumer env msgByIDs conByID consumer jobStatus page d =
     (if bad_page page then (([], no_page), Some ErrPaginationDeadlock)
      else job_page env msgByIDs conByID None (Some consumer)
             (select_page j_id j_createdAt 25 (the page)
                (filter (\<lambda>r. sql_like (env_dialect env) (ID consumer) (j_consumerId r) \<and> j_status r = jobStatus)
                   (t_job d))))"

text \<open>\<^verbatim>\<open>ORDER BY priority DESC, createdAt DESC, id DESC LIMIT ?\<close>\<close>

definition prioritized_rows :: "xid \<Rightarrow> JobStatus \<Rightarrow> int \<Rightarrow> db \<Rightarrow> job_row list" where
  "prioritized_rows c st pageSize d =
     take (nat pageSize) (rev (sort_key (\<lambda>r. (j_priority r, j_createdAt r, j_id r))
       (filter (\<lambda>r. j_consumerId r = c \<and> j_status r = st) (t_job d))))"

definition GetPrioritizedJobsForConsumer ::
  "dbenv \<Rightarrow> msgByIDsRepo \<Rightarrow> conByIDRepo \<Rightarrow> Consumer \<Rightarrow> JobStatus \<Rightarrow> int \<Rightarrow> db \<Rightarrow> DeliveryJob list result" where
  "GetPrioritizedJobsForConsumer env msgByIDs conByID consumer jobStatus pageSize d =
     getJobs env msgByIDs conByID None (Some consumer) (prioritized_rows (ID consumer) jobStatus pageSize d)"

text \<open>\<^verbatim>\<open>GetJobsForMessages\<close>: one query per chunk of 200 ids; a listener that cannot be loaded is left as its id.\<close>

definition chunk_job :: "conByIDRepo \<Rightarrow> job_row \<Rightarrow> DeliveryJob" where
  "chunk_job conByID r =
     row_job (Some (zero_message\<lparr>ID := j_messageId r\<rparr>))
       (case conByID (j_consumerId r) of
          (_, Some e) \<Rightarrow> Some (zero_consumer\<lparr>ID := j_consumerId r\<rparr>)
        | (listener, None) \<Rightarrow> listener) r"

definition append_job :: "xid \<Rightarrow> DeliveryJob \<Rightarrow> (xid, DeliveryJob list) gomap \<Rightarrow> (xid, DeliveryJob list) gomap" where
  "append_job i job m = mput i ((case mget m i of None \<Rightarrow> [] | Some js \<Rightarrow> js) @ [job]) m"

fun collect_chunks ::
  "dbenv \<Rightarrow> conByIDRepo \<Rightarrow> db \<Rightarrow> nat \<Rightarrow> xid list list \<Rightarrow> (xid, DeliveryJob list) gomap \<Rightarrow>
   (xid, DeliveryJob list) gomap result" where
  "collect_chunks env conByID d n [] m = Inr m"
| "collect_chunks env conByID d n (chunk # rest) m =
     (case queryRows env n (filter (\<lambda>r. j_messageId r \<in> set chunk) (t_job d)) of
        Inl e \<Rightarrow> Inl e
      | Inr rows \<Rightarrow>
          collect_chunks env conByID d (Suc n) rest
            (fold (\<lambda>r. append_job (j_messageId r) (chunk_job conByID r)) rows m))"

definition GetJobsForMessages ::
  "dbenv \<Rightarrow> conByIDRepo \<Rightarrow> xid list \<Rightarrow> db \<Rightarrow> (xid, DeliveryJob list) gomap result" where
  "GetJobsForMessages env conByID messageIDs d =
     (if length messageIDs = 0 then Inr []
      else collect_chunks env conByID d 0 (batches 200 messageIDs) [])"

fun queued_chunks ::
  "(nat \<Rightarrow> dbenv) \<Rightarrow> msgByIDsRepo \<Rightarrow> conByIDRepo \<Rightarrow> db \<Rightarrow> nat \<Rightarrow> xid list list \<Rightarrow> DeliveryJob list result" where
  "queued_chunks es msgByIDs conByID d n [] = Inr []"
| "queued_chunks es msgByIDs conByID d n (chunk # rest) =
     (case getJobs (es n) msgByIDs conByID None None
             (filter (\<lambda>r. j_id r \<in> set chunk \<and> j_status r = JobQueued) (t_job d)) of
        Inl e \<Rightarrow> Inl e
      | Inr jobs \<Rightarrow>
          (case queued_chunks es msgByIDs conByID d (Suc n) rest of Inl e \<Rightarrow> Inl e | Inr js \<Rightarrow> Inr (jobs @ js)))"

definition GetQueuedJobsByIDs ::
  "(nat \<Rightarrow> dbenv) \<Rightarrow> msgByIDsRepo \<Rightarrow> conByIDRepo \<Rightarrow> xid list \<Rightarrow> db \<Rightarrow> DeliveryJob list result" where
  "GetQueuedJobsByIDs es msgByIDs conByID ids d = queued_chunks es msgByIDs conByID d 0 (batches 200 ids)"

definition job_GetByID ::
  "dbenv \<Rightarrow> dbenv \<Rightarrow> msgByIDRepo \<Rightarrow> conByIDRepo \<Rightarrow> xid \<Rightarrow> db \<Rightarrow> DeliveryJob \<times> error option" where
  "job_GetByID env env' msgByID conByID i d =
     (case querySingleRow env 0 (filter (\<lambda>r. sql_like (env_dialect env) i (j_id r)) (t_job d)) of
        Inl e \<Rightarrow>
          (if e = ErrNoRows then
             (case loadParkedJobByID env' msgByID conByID i d of
                Inr parked \<Rightarrow> (parked, None)
              | Inl _ \<Rightarrow> (zero_job, Some e))
           else (zero_job, Some e))
      | Inr r \<Rightarrow>
          (case msgByID (j_messageId r) of
             (m, Some e) \<Rightarrow> (row_job (Some m) None r, Some e)
           | (m, None) \<Rightarrow>
               (case conByID (j_consumerId r) of (c, err) \<Rightarrow> (row_job (Some m) c r, err))))"

subsection \<open>Counts\<close>

record statusRow =
  sr_channelId :: string
  sr_consumerId :: xid
  sr_status :: JobStatus
  sr_count :: nat
  sr_oldest :: time
  sr_newest :: time

definition status_groups :: "db \<Rightarrow> statusRow list" where
  "status_groups d =
     (let joined = [(c_channelId c, j). j \<leftarrow> t_job d, c \<leftarrow> filter (\<lambda>c. c_id c = j_consumerId j) (t_consumer d)]
      in map (\<lambda>(ch, c, st).
             let grp = filter (\<lambda>(ch', j). ch' = ch \<and> j_consumerId j = c \<and> j_status j = st) joined
             in \<lparr>sr_channelId = ch, sr_consumerId = c, sr_status = st, sr_count = length grp,
                 sr_oldest = Min (set (map (j_statusChangedAt \<circ> snd) grp)),
                 sr_newest = Max (set (map (j_statusChangedAt \<circ> snd) grp))\<rparr>)
           (remdups (map (\<lambda>(ch, j). (ch, j_consumerId j, j_status j)) joined)))"

definition add_status_row ::
  "statusRow \<Rightarrow> (string, (xid, JobStatus StatusCount list) gomap) gomap \<Rightarrow>
   (string, (xid, JobStatus StatusCount list) gomap) gomap" where
  "add_status_row row result =
     (let byConsumer = (case mget result (sr_channelId row) of None \<Rightarrow> [] | Some m \<Rightarrow> m);
          counts = (case mget byConsumer (sr_consumerId row) of None \<Rightarrow> [] | Some l \<Rightarrow> l)
      in mput (sr_channelId row)
           (mput (sr_consumerId row)
              (counts @ [\<lparr>sc_Status = sr_status row, sc_Count = sr_count row,
                          OldestItemTimestamp = sr_oldest row, NewestItemTimestamp = sr_newest row\<rparr>])
              byConsumer) result)"

definition GetJobStatusCountsGroupedByConsumer ::
  "dbenv \<Rightarrow> db \<Rightarrow> (string, (xid, JobStatus StatusCount list) gomap) gomap \<times> error option" where
  "GetJobStatusCountsGroupedByConsumer env d =
     (case queryRows env 0 (status_groups d) of
        Inl e \<Rightarrow> ([], Some e)
      | Inr rows \<Rightarrow>
          (case queryRows env 1 (parked_groups d) of
             Inl e \<Rightarrow> ([], Some e)
           | Inr parked \<Rightarrow>
               (fold add_status_row
                  (rows @ map (\<lambda>p. \<lparr>sr_channelId = pc_ChannelID p, sr_consumerId = pc_ConsumerID p,
                                   sr_status = JobParked, sr_count = pc_Count p,
                                   sr_oldest = pc_OldestParkedAt p, sr_newest = pc_NewestParkedAt p\<rparr>) parked)
                  [], None)))"

definition dead_counts :: "(job_row \<Rightarrow> bool) \<Rightarrow> db \<Rightarrow> (xid \<times> nat) list" where
  "dead_counts P d =
     (let rows = filter (\<lambda>r. j_status r = JobDead \<and> P r) (t_job d)
      in map (\<lambda>c. (c, length (filter (\<lambda>r. j_consumerId r = c) rows))) (remdups (map j_consumerId rows)))"

definition GetDeadJobCountsSinceCheckpoint :: "dbenv \<Rightarrow> time \<Rightarrow> db \<Rightarrow> (xid, nat) gomap result" where
  "GetDeadJobCountsSinceCheckpoint env since d =
     (case queryRows env 0 (dead_counts (\<lambda>r. j_statusChangedAt r > since) d) of
        Inl e \<Rightarrow> Inl e
      | Inr rows \<Rightarrow> Inr (fold (\<lambda>(c, n). mput c n) rows []))"

definition CountJobsForConsumer :: "dbenv \<Rightarrow> xid \<Rightarrow> JobStatus \<Rightarrow> db \<Rightarrow> nat result" where
  "CountJobsForConsumer env c st d =
     querySingleRow env 0 [length (filter (\<lambda>r. j_consumerId r = c \<and> j_status r = st) (t_job d))]"

end
