(* ===== verification/Job_Invariant.thy ===== *)
theory Job_Invariant
  imports Job_Query
begin

section \<open>What every operation does to the stored jobs\<close>

text \<open>
  \<open>owed\<close> lists the deliveries the broker has committed to: the (job id, message, consumer) triples of
  \<^verbatim>\<open>job\<close> and \<^verbatim>\<open>job_parking\<close> together.  \<open>store_ok\<close> is the invariant of the two tables and \<open>store_step\<close>
  one operation of the repositories with the faults its environment brings; \<open>store_reach\<close> are the
  states any sequence of them, of any number of nodes, can reach.
\<close>

subsection \<open>The invariant\<close>

definition job_triple :: "job_row \<Rightarrow> xid \<times> xid \<times> xid" where
  "job_triple j = (j_id j, j_messageId j, j_consumerId j)"

definition parked_triple :: "parked_row \<Rightarrow> xid \<times> xid \<times> xid" where
  "parked_triple p = (p_id p, p_messageId p, p_consumerId p)"

definition owed :: "db \<Rightarrow> (xid \<times> xid \<times> xid) list" where
  "owed d = map job_triple (t_job d) @ map parked_triple (t_parking d)"

definition job_statuses :: "JobStatus set" where
  "job_statuses = {JobQueued, JobInflight, JobDelivered, JobDead}"

definition dispatched :: "db \<Rightarrow> xid \<Rightarrow> bool" where
  "dispatched d i \<longleftrightarrow> (\<exists>m \<in> set (t_message d). m_id m = i \<and> m_status m = MsgStatusDispatched)"

definition store_ok :: "db \<Rightarrow> bool" where
  "store_ok d \<longleftrightarrow>
     distinct (map fst (owed d)) \<and> distinct (map snd (owed d)) \<and>
     distinct (map p_seq (t_parking d)) \<and> (\<forall>p \<in> set (t_parking d). p_seq p < t_parking_seq d) \<and>
     distinct (map m_id (t_message d)) \<and>
     (\<forall>j \<in> set (t_job d). j_status j \<in> job_statuses) \<and>
     (\<forall>t \<in> set (owed d). dispatched d (fst (snd t)))"

lemma store_okI:
  assumes "distinct (map fst (owed d))" "distinct (map snd (owed d))" "distinct (map p_seq (t_parking d))"
    "\<And>p. p \<in> set (t_parking d) \<Longrightarrow> p_seq p < t_parking_seq d" "distinct (map m_id (t_message d))"
    "\<And>j. j \<in> set (t_job d) \<Longrightarrow> j_status j \<in> job_statuses"
    "\<And>t. t \<in> set (owed d) \<Longrightarrow> dispatched d (fst (snd t))"
  shows "store_ok d"
  using assms by (simp add: store_ok_def)

lemma store_okD:
  assumes "store_ok d"
  shows "distinct (map fst (owed d))" "distinct (map snd (owed d))" "distinct (map p_seq (t_parking d))"
    "\<And>p. p \<in> set (t_parking d) \<Longrightarrow> p_seq p < t_parking_seq d" "distinct (map m_id (t_message d))"
    "\<And>j. j \<in> set (t_job d) \<Longrightarrow> j_status j \<in> job_statuses"
    "\<And>t. t \<in> set (owed d) \<Longrightarrow> dispatched d (fst (snd t))"
  using assms by (simp_all add: store_ok_def)

lemma store_ok_job_ids: "store_ok d \<Longrightarrow> distinct (map j_id (t_job d))"
  by (drule store_okD(1)) (simp add: owed_def job_triple_def comp_def)

text \<open>The invariant only looks at four fields.\<close>

lemma store_ok_frame:
  "t_job d' = t_job d \<Longrightarrow> t_parking d' = t_parking d \<Longrightarrow> t_parking_seq d' = t_parking_seq d \<Longrightarrow>
   t_message d' = t_message d \<Longrightarrow> store_ok d' = store_ok d"
  by (simp add: store_ok_def owed_def dispatched_def)

lemma distinct_map_mset:
  assumes "mset xs = mset ys" "distinct (map f xs)"
  shows "distinct (map f ys)"
proof -
  have "mset (map f xs) = mset (map f ys)" using assms(1) by simp
  then show ?thesis using assms(2) mset_eq_imp_distinct_iff by blast
qed

text \<open>Moving a delivery between the tables keeps the invariant.\<close>

lemma store_ok_same_owed:
  assumes "store_ok d" "mset (owed d') = mset (owed d)" "t_message d' = t_message d"
    "distinct (map p_seq (t_parking d'))" "\<forall>p \<in> set (t_parking d'). p_seq p < t_parking_seq d'"
    "\<forall>j \<in> set (t_job d'). j_status j \<in> job_statuses"
  shows "store_ok d'"
proof (rule store_okI)
  have s: "set (owed d') = set (owed d)" using assms(2) by (metis set_mset_mset)
  have "dispatched d' = dispatched d" using assms(3) by (simp add: dispatched_def fun_eq_iff)
  then show "t \<in> set (owed d') \<Longrightarrow> dispatched d' (fst (snd t))" for t
    using s store_okD(7) [OF assms(1)] by simp
qed (use assms distinct_map_mset [OF assms(2) [symmetric]] store_okD [OF assms(1)] in auto)

lemma store_ok_update:
  assumes "store_ok d" "\<And>r. job_triple (f r) = job_triple r" "\<And>r. P r \<Longrightarrow> j_status (f r) \<in> job_statuses"
  shows "store_ok (d\<lparr>t_job := snd (sql_update di P f (t_job d))\<rparr>)"
proof (rule store_ok_same_owed [OF assms(1)])
  have "map job_triple (snd (sql_update di P f (t_job d))) = map job_triple (t_job d)"
    by (rule sql_update_map) (rule assms(2))
  then show "mset (owed (d\<lparr>t_job := snd (sql_update di P f (t_job d))\<rparr>)) = mset (owed d)"
    by (simp add: owed_def)
qed (use store_okD [OF assms(1)] assms(3) in \<open>auto simp: set_sql_update\<close>)

lemma store_ok_delete:
  assumes "store_ok d"
  shows "store_ok (d\<lparr>t_job := filter Q (t_job d)\<rparr>)"
proof (rule store_okI)
  let ?d' = "d\<lparr>t_job := filter Q (t_job d)\<rparr>"
  have d: "distinct (map f (owed ?d'))" if "distinct (map f (owed d))" for f :: "_ \<Rightarrow> 'x"
  proof -
    have o: "distinct (map (f \<circ> job_triple) (t_job d))" "distinct (map (f \<circ> parked_triple) (t_parking d))"
      "(f \<circ> job_triple) ` set (t_job d) \<inter> (f \<circ> parked_triple) ` set (t_parking d) = {}"
      using that by (simp_all add: owed_def image_comp)
    have "(f \<circ> job_triple) ` set (filter Q (t_job d)) \<inter> (f \<circ> parked_triple) ` set (t_parking d) = {}"
      using o(3) by auto
    with o(1,2) show ?thesis by (simp add: owed_def distinct_map_filter image_comp)
  qed
  show "distinct (map fst (owed ?d'))" "distinct (map snd (owed ?d'))"
    using d store_okD(1,2) [OF assms] by blast+
  have s: "set (owed ?d') \<subseteq> set (owed d)" by (auto simp: owed_def)
  show "dispatched ?d' (fst (snd t))" if "t \<in> set (owed ?d')" for t
    using store_okD(7) [OF assms, of t] s that by (auto simp: dispatched_def simp del: split_paired_All)
qed (use store_okD [OF assms] in auto)

subsection \<open>Status updates and deletes\<close>

text \<open>
  Every status method is one conditional update of \<^verbatim>\<open>job\<close>; \<open>job_update d d' Q to\<close> says that \<open>d'\<close> is
  \<open>d\<close> or differs from it in rows that satisfied \<open>Q\<close> and are now in status \<open>to\<close>, everything but the
  status, times, retry count and timeout of these rows unchanged.
\<close>

definition job_update :: "db \<Rightarrow> db \<Rightarrow> (job_row \<Rightarrow> bool) \<Rightarrow> JobStatus \<Rightarrow> bool" where
  "job_update d d' Q to \<longleftrightarrow>
     (\<exists>f di P. d' = d\<lparr>t_job := snd (sql_update di P f (t_job d))\<rparr> \<and> (\<forall>r. P r \<longrightarrow> Q r) \<and>
        (\<forall>r. job_triple (f r) = job_triple r \<and> j_status (f r) = to))"

lemma job_updateI:
  "update_job di P f d = Inr (n, d') \<Longrightarrow> (\<And>r. P r \<Longrightarrow> Q r) \<Longrightarrow>
   (\<And>r. job_triple (f r) = job_triple r \<and> j_status (f r) = to) \<Longrightarrow> job_update d d' Q to"
  unfolding job_update_def by (drule update_job_ok) blast

lemma job_update_refl: "job_update d d Q to"
proof -
  have "d = d\<lparr>t_job := snd (sql_update MySQLDialect (\<lambda>_. False) (\<lambda>r. r\<lparr>j_status := to\<rparr>) (t_job d))\<rparr>"
    by (simp add: sql_update_def)
  then show ?thesis
    unfolding job_update_def
    by (intro exI [of _ "\<lambda>r. r\<lparr>j_status := to\<rparr>"] exI [of _ MySQLDialect] exI [of _ "\<lambda>_. False"])
      (simp add: job_triple_def)
qed

lemma job_update_ok: "job_update d d' Q to \<Longrightarrow> to \<in> job_statuses \<Longrightarrow> store_ok d \<Longrightarrow> store_ok d'"
  unfolding job_update_def by (auto intro!: store_ok_update)

lemma job_update_owed: "job_update d d' Q to \<Longrightarrow> owed d' = owed d"
proof -
  assume "job_update d d' Q to"
  then obtain f di P where "d' = d\<lparr>t_job := snd (sql_update di P f (t_job d))\<rparr>"
    "\<forall>r. job_triple (f r) = job_triple r" unfolding job_update_def by blast
  then show ?thesis by (simp add: owed_def sql_update_map)
qed

lemma update_effects:
  shows MarkJobInflight_effect: "job_update d (snd (MarkJobInflight env job d))
      (\<lambda>r. sql_like (env_dialect env) (ID job) (j_id r) \<and> j_status r = JobQueued \<and>
           j_retryAttemptCount r = RetryAttemptCount job \<and> \<not> effectively_paused d (j_consumerId r)) JobInflight"
    and updateJobStatus_effect: "job_update d (snd (updateJobStatus env job from to d))
      (\<lambda>r. sql_like (env_dialect env) (ID job) (j_id r) \<and> j_status r = from) to"
    and MarkJobRetry_effect: "job_update d (snd (MarkJobRetry env job delta d))
      (\<lambda>r. sql_like (env_dialect env) (ID job) (j_id r) \<and> j_status r = JobInflight) JobQueued"
    and MarkDeadJobAsInflight_effect: "job_update d (snd (MarkDeadJobAsInflight env job d))
      (\<lambda>r. sql_like (env_dialect env) (ID job) (j_id r) \<and> j_status r = JobDead \<and>
           \<not> effectively_paused d (j_consumerId r)) JobInflight"
proof -
  have w: "job_update d (snd (transactionalSingleRowWriteExec env st d)) Q to"
    if "\<And>d'. st d = Inr (1, d') \<Longrightarrow> job_update d d' Q to" for st Q to
    by (rule single_write_inv) (use that job_update_refl in blast)+
  show "job_update d (snd (MarkJobInflight env job d))
      (\<lambda>r. sql_like (env_dialect env) (ID job) (j_id r) \<and> j_status r = JobQueued \<and>
           j_retryAttemptCount r = RetryAttemptCount job \<and> \<not> effectively_paused d (j_consumerId r)) JobInflight"
    unfolding MarkJobInflight_def prod.case_eq_if snd_conv
    by (rule w, erule job_updateI) (simp_all add: job_triple_def)
  show "job_update d (snd (updateJobStatus env job from to d))
      (\<lambda>r. sql_like (env_dialect env) (ID job) (j_id r) \<and> j_status r = from) to"
    unfolding updateJobStatus_def updateJobStatusWithQuery_def prod.case_eq_if snd_conv
    by (rule w, erule job_updateI) (simp_all add: job_triple_def)
  show "job_update d (snd (MarkJobRetry env job delta d))
      (\<lambda>r. sql_like (env_dialect env) (ID job) (j_id r) \<and> j_status r = JobInflight) JobQueued"
    unfolding MarkJobRetry_def Let_def prod.case_eq_if snd_conv
    by (rule w, erule job_updateI) (simp_all add: job_triple_def)
  show "job_update d (snd (MarkDeadJobAsInflight env job d))
      (\<lambda>r. sql_like (env_dialect env) (ID job) (j_id r) \<and> j_status r = JobDead \<and>
           \<not> effectively_paused d (j_consumerId r)) JobInflight"
    unfolding MarkDeadJobAsInflight_def prod.case_eq_if snd_conv
    by (rule w, erule job_updateI) (simp_all add: job_triple_def)
qed

lemma requeue_effects:
  shows RequeueDeadJobsForConsumer_effect: "job_update d (snd (RequeueDeadJobsForConsumer env c d))
      (\<lambda>r. j_status r = JobDead) JobQueued"
    and RequeueDeadJob_effect: "job_update d (snd (RequeueDeadJob env job d))
      (\<lambda>r. j_status r = JobDead) JobQueued"
proof -
  have r: "job_triple (requeue_row env r) = job_triple r \<and> j_status (requeue_row env r) = JobQueued" for r
    by (simp add: requeue_row_def job_triple_def)
  have w: "job_update d (snd (transactionalOperations env ops x d)) Q to"
    if "\<And>d' y. ops d = (TxOk d', y) \<Longrightarrow> job_update d d' Q to" for ops and x :: nat and Q to
    by (rule transactionalOperations_inv [where P = "\<lambda>d'. job_update d d' Q to"]) (use that job_update_refl in blast)+
  show "job_update d (snd (RequeueDeadJobsForConsumer env c d)) (\<lambda>r. j_status r = JobDead) JobQueued"
    unfolding RequeueDeadJobsForConsumer_def
    by (rule w, drule counting_exec_ok, erule job_updateI)
      (simp_all add: r)
  show "job_update d (snd (RequeueDeadJob env job d)) (\<lambda>r. j_status r = JobDead) JobQueued"
    unfolding RequeueDeadJob_def
    by (rule w)
      (auto split: prod.splits tx_outcome.splits if_splits simp: r dest!: counting_exec_ok intro!: job_updateI)
qed

definition job_deleted :: "db \<Rightarrow> db \<Rightarrow> (job_row \<Rightarrow> bool) \<Rightarrow> bool" where
  "job_deleted d d' Q \<longleftrightarrow> (\<exists>P. d' = d\<lparr>t_job := filter (\<lambda>r. \<not> P r) (t_job d)\<rparr> \<and> (\<forall>r. P r \<longrightarrow> Q r))"

lemma job_deleted_refl: "job_deleted d d Q"
  unfolding job_deleted_def by (rule exI [of _ "\<lambda>_. False"]) simp

lemma job_deletedI:
  "delete_job P d = Inr (n, d') \<Longrightarrow> (\<And>r. P r \<Longrightarrow> Q r) \<Longrightarrow> job_deleted d d' Q"
  unfolding job_deleted_def by (drule delete_job_ok) blast

lemma job_deleted_ok: "job_deleted d d' Q \<Longrightarrow> store_ok d \<Longrightarrow> store_ok d'"
  by (auto simp: job_deleted_def store_ok_delete)

lemma delete_effects:
  shows DeleteDeadJobsForConsumer_effect: "job_deleted d (snd (DeleteDeadJobsForConsumer env c n d))
      (\<lambda>r. j_status r = JobDead \<and> j_retryAttemptCount r \<ge> n)"
    and DeleteDeadJob_effect: "job_deleted d (snd (DeleteDeadJob env job n d))
      (\<lambda>r. j_status r = JobDead \<and> j_retryAttemptCount r \<ge> n)"
proof -
  have w: "job_deleted d (snd (transactionalOperations env ops x d)) Q"
    if "\<And>d' y. ops d = (TxOk d', y) \<Longrightarrow> job_deleted d d' Q" for ops and x :: nat and Q
    by (rule transactionalOperations_inv [where P = "\<lambda>d'. job_deleted d d' Q"]) (use that job_deleted_refl in blast)+
  show "job_deleted d (snd (DeleteDeadJobsForConsumer env c n d))
      (\<lambda>r. j_status r = JobDead \<and> j_retryAttemptCount r \<ge> n)"
    unfolding DeleteDeadJobsForConsumer_def
    by (rule w, drule counting_exec_ok, erule job_deletedI) simp
  show "job_deleted d (snd (DeleteDeadJob env job n d))
      (\<lambda>r. j_status r = JobDead \<and> j_retryAttemptCount r \<ge> n)"
    unfolding DeleteDeadJob_def
    by (rule w, drule counting_exec_ok, erule job_deletedI) simp
qed

subsection \<open>Parking and draining\<close>

text \<open>\<open>moved d d'\<close>: some deliveries went from one table to the other, none was lost or duplicated.\<close>

definition moved :: "db \<Rightarrow> db \<Rightarrow> bool" where
  "moved d d' \<longleftrightarrow> mset (owed d') = mset (owed d) \<and>
     d' = d\<lparr>t_job := t_job d', t_parking := t_parking d', t_parking_seq := t_parking_seq d'\<rparr>"

lemma moved_refl: "moved d d"
  by (simp add: moved_def)

lemma number_parked_sel:
  "map p_seq (number_parked n rs) = [n..<n + length rs]"
  "map parked_triple (number_parked n rs) = map parked_triple rs"
proof -
  show "map p_seq (number_parked n rs) = [n..<n + length rs]"
    by (rule nth_equalityI) (simp_all add: number_parked_def)
  show "map parked_triple (number_parked n rs) = map parked_triple rs"
    by (rule nth_equalityI) (simp_all add: number_parked_def parked_triple_def)
qed

lemma number_parked_fresh:
  assumes "store_ok d"
  shows "distinct (map p_seq (t_parking d @ number_parked (t_parking_seq d) rs))"
    and "\<forall>p \<in> set (t_parking d @ number_parked (t_parking_seq d) rs). p_seq p < t_parking_seq d + length rs"
proof -
  have s: "p_seq ` set (number_parked (t_parking_seq d) rs) = {t_parking_seq d..<t_parking_seq d + length rs}"
    using arg_cong [OF number_parked_sel(1) [of "t_parking_seq d" rs], of set] by simp
  show "distinct (map p_seq (t_parking d @ number_parked (t_parking_seq d) rs))"
    using store_okD(3,4) [OF assms] s by (fastforce simp: number_parked_sel)
  show "\<forall>p \<in> set (t_parking d @ number_parked (t_parking_seq d) rs). p_seq p < t_parking_seq d + length rs"
  proof
    fix p
    assume "p \<in> set (t_parking d @ number_parked (t_parking_seq d) rs)"
    then consider "p \<in> set (t_parking d)" | "p_seq p \<in> p_seq ` set (number_parked (t_parking_seq d) rs)" by auto
    then show "p_seq p < t_parking_seq d + length rs"
      using store_okD(4) [OF assms] s by cases fastforce+
  qed
qed

lemma triple_parked_of_job: "parked_triple (parked_of_job env r) = job_triple r"
  by (simp add: parked_triple_def parked_of_job_def job_triple_def)

lemma triple_drained_job: "job_triple (drained_job env t p) = parked_triple p"
  by (simp add: parked_triple_def drained_job_def job_triple_def)

lemma job_by_id:
  assumes "store_ok d" "j \<in> set (t_job d)" "j' \<in> set (t_job d)" "j_id j = j_id j'"
  shows "j = j'"
  using store_ok_job_ids [OF assms(1)] assms(2-4) by (auto simp: distinct_map dest: inj_onD)

lemma repark_rows:
  assumes "store_ok d" "length (filter (\<lambda>r. j_id r = i \<and> j_status r = JobQueued) (t_job d)) = 1"
    "filter (\<lambda>r. j_id r = i \<and> j_status r = JobQueued \<and> Q r) (t_job d) \<noteq> []"
  shows "filter (\<lambda>r. j_id r = i \<and> j_status r = JobQueued \<and> Q r) (t_job d) =
         filter (\<lambda>r. j_id r = i \<and> j_status r = JobQueued) (t_job d)"
proof -
  obtain r where r: "filter (\<lambda>r. j_id r = i \<and> j_status r = JobQueued) (t_job d) = [r]"
    using assms(2) by (auto simp: length_Suc_conv)
  have "filter (\<lambda>r. j_id r = i \<and> j_status r = JobQueued \<and> Q r) (t_job d) =
        filter Q (filter (\<lambda>r. j_id r = i \<and> j_status r = JobQueued) (t_job d))"
    by (simp add: conj_ac)
  with r assms(3) show ?thesis by (auto split: if_splits)
qed

text \<open>What a re-park that changed something did.\<close>

lemma repark_ops_ok:
  assumes "store_ok d" "repark_ops env i d = (TxOk d', m)"
  shows "(\<not> m \<and> d' = d) \<or>
     (m \<and> (\<exists>r \<in> set (t_job d). j_id r = i \<and> j_status r = JobQueued \<and> effectively_paused d (j_consumerId r) \<and>
        filter (\<lambda>r. j_id r = i \<and> j_status r = JobQueued) (t_job d) = [r] \<and>
        d' = d\<lparr>t_job := filter (\<lambda>s. \<not> (j_id s = i \<and> j_status s = JobQueued)) (t_job d),
               t_parking := t_parking d @ [(parked_of_job env r)\<lparr>p_seq := t_parking_seq d\<rparr>],
               t_parking_seq := t_parking_seq d + 1\<rparr>))"
proof -
  let ?Q = "\<lambda>r. j_id r = i \<and> j_status r = JobQueued"
  let ?rs = "filter (\<lambda>r. j_id r = i \<and> j_status r = JobQueued \<and> effectively_paused d (j_consumerId r)) (t_job d)"
  obtain n d1 where e: "tx_Exec env 0 (repark_insert env i) d = TxOk (n, d1)"
    using assms(2) by (auto simp: repark_ops_def split: tx_outcome.splits prod.splits)
  then have "repark_insert env i d = Inr (n, d1)"
    by (auto simp: tx_Exec_def split: option.splits fault.splits sum.splits)
  then have d1: "d1 = d\<lparr>t_parking := t_parking d @ number_parked (t_parking_seq d) (map (parked_of_job env) ?rs),
      t_parking_seq := t_parking_seq d + length ?rs\<rparr>" and n: "n = length ?rs"
    by (auto simp: repark_insert_def dest!: insert_parked_ok)
  show ?thesis
  proof (cases "n = 0")
    case True
    with assms(2) e n d1 show ?thesis by (auto simp: repark_ops_def number_parked_def)
  next
    case False
    then have "inTransactionExec env 1 (delete_job ?Q) 1 d1 = TxOk d'" and m: m
      using assms(2) e by (auto simp: repark_ops_def split: tx_outcome.splits)
    then obtain k where "delete_job ?Q d1 = Inr (k, d')" "k = 1" using inTransactionExec_ok by fastforce
    then have d': "d' = d1\<lparr>t_job := filter (\<lambda>r. \<not> ?Q r) (t_job d1)\<rparr>" and l: "length (filter ?Q (t_job d)) = 1"
      using d1 by (auto dest!: delete_job_ok)
    obtain r where r: "filter ?Q (t_job d) = [r]" using l by (auto simp: length_Suc_conv)
    have rs: "?rs = [r]" using repark_rows [OF assms(1) l, of "\<lambda>r. effectively_paused d (j_consumerId r)"] r False n by simp
    have "r \<in> set ?rs" unfolding rs by simp
    then have "r \<in> set (t_job d)" "j_id r = i" "j_status r = JobQueued" "effectively_paused d (j_consumerId r)"
      by simp_all
    moreover have "d' = d\<lparr>t_job := filter (\<lambda>s. \<not> ?Q s) (t_job d),
        t_parking := t_parking d @ [(parked_of_job env r)\<lparr>p_seq := t_parking_seq d\<rparr>],
        t_parking_seq := t_parking_seq d + 1\<rparr>"
      unfolding d' d1 rs by (simp add: number_parked_def)
    ultimately show ?thesis using m r by blast
  qed
qed

lemma repark_owed:
  assumes "filter P (t_job d) = [r]" "parked_triple p = job_triple r"
  shows "mset (owed (d\<lparr>t_job := filter (\<lambda>s. \<not> P s) (t_job d), t_parking := t_parking d @ [p], t_parking_seq := n\<rparr>))
         = mset (owed d)"
proof -
  have "mset (filter P (t_job d)) + mset (filter (\<lambda>s. \<not> P s) (t_job d)) = mset (t_job d)"
    by (simp add: mset_filter)
  then have "mset (t_job d) = {#r#} + mset (filter (\<lambda>s. \<not> P s) (t_job d))" using assms(1) by simp
  then have "image_mset job_triple (mset (t_job d)) =
      {#job_triple r#} + image_mset job_triple (mset (filter (\<lambda>s. \<not> P s) (t_job d)))"
    by (metis image_mset_single image_mset_union)
  then show ?thesis using assms(2) by (simp add: owed_def)
qed

lemma ReparkQueuedJob_effect:
  assumes "store_ok d"
  shows "moved d (snd (ReparkQueuedJob env job d)) \<and> store_ok (snd (ReparkQueuedJob env job d))"
proof (cases job)
  case (Some j)
  have "moved d d' \<and> store_ok d'" if ops: "repark_ops env (ID j) d = (TxOk d', m)" for d' m
    using repark_ops_ok [OF assms ops]
  proof
    assume "m \<and> (\<exists>r \<in> set (t_job d). j_id r = ID j \<and> j_status r = JobQueued \<and> effectively_paused d (j_consumerId r) \<and>
        filter (\<lambda>r. j_id r = ID j \<and> j_status r = JobQueued) (t_job d) = [r] \<and>
        d' = d\<lparr>t_job := filter (\<lambda>s. \<not> (j_id s = ID j \<and> j_status s = JobQueued)) (t_job d),
               t_parking := t_parking d @ [(parked_of_job env r)\<lparr>p_seq := t_parking_seq d\<rparr>],
               t_parking_seq := t_parking_seq d + 1\<rparr>)"
    then obtain r where r: "filter (\<lambda>r. j_id r = ID j \<and> j_status r = JobQueued) (t_job d) = [r]"
      "d' = d\<lparr>t_job := filter (\<lambda>s. \<not> (j_id s = ID j \<and> j_status s = JobQueued)) (t_job d),
               t_parking := t_parking d @ [(parked_of_job env r)\<lparr>p_seq := t_parking_seq d\<rparr>],
               t_parking_seq := t_parking_seq d + 1\<rparr>" by blast
    have t: "parked_triple ((parked_of_job env r)\<lparr>p_seq := t_parking_seq d\<rparr>) = job_triple r"
      using triple_parked_of_job [of env r] by (simp add: parked_triple_def)
    have o: "mset (owed d') = mset (owed d)" unfolding r(2) by (rule repark_owed [OF r(1) t])
    moreover have "number_parked (t_parking_seq d) [parked_of_job env r] = [(parked_of_job env r)\<lparr>p_seq := t_parking_seq d\<rparr>]"
      by (simp add: number_parked_def)
    ultimately show "moved d d' \<and> store_ok d'"
      using number_parked_fresh [OF assms, of "[parked_of_job env r]"] store_okD(6) [OF assms]
      by (auto simp: moved_def r(2) intro!: store_ok_same_owed [OF assms])
  qed (use assms moved_refl in auto)
  then have "moved d (snd (transactionalOperations env (repark_ops env (ID j)) False d)) \<and>
      store_ok (snd (transactionalOperations env (repark_ops env (ID j)) False d))"
    by (intro transactionalOperations_inv [where P = "\<lambda>d'. moved d d' \<and> store_ok d'"])
      (use assms moved_refl in auto)
  then show ?thesis by (auto simp: ReparkQueuedJob_def Some split: prod.splits option.splits)
qed (simp add: ReparkQueuedJob_def assms moved_refl)

lemma drain_rows_subset: "set (drain_rows c n d) \<subseteq> {p \<in> set (t_parking d). p_consumerId p = c}"
  using set_take_subset [of "nat n" "sort_key (\<lambda>p. (p_createdAt p, p_seq p)) (filter (\<lambda>p. p_consumerId p = c) (t_parking d))"]
  by (auto simp: drain_rows_def)

lemma drain_rows_distinct: "distinct (t_parking d) \<Longrightarrow> distinct (drain_rows c n d)"
  by (simp add: drain_rows_def)

lemma drain_ops_ok:
  assumes "drain_ops env c n t d = (TxOk d', rows)"
  shows "rows = drain_rows c n d \<and>
     d' = d\<lparr>t_parking := filter (\<lambda>p. p_seq p \<notin> p_seq ` set rows) (t_parking d),
            t_job := t_job d @ map (drained_job env t) rows\<rparr>"
proof -
  let ?rows = "drain_rows c n d"
  have "exec_fault env 0 = None" using assms by (auto simp: drain_ops_def split: option.splits fault.splits)
  note e = this
  show ?thesis
  proof (cases "?rows = []")
    case True
    with assms e show ?thesis by (simp add: drain_ops_def)
  next
    case False
    with assms e have r: "rows = ?rows" by (simp add: drain_ops_def Let_def)
    let ?del = "inTransactionExec env 1 (delete_parked (\<lambda>p. p_seq p \<in> set (map p_seq ?rows))) (length ?rows) d"
    obtain d1 where d1: "?del = TxOk d1"
      and i: "inTransactionExec env 2 (insert_jobs (map (drained_job env t) ?rows)) (length ?rows) d1 = TxOk d'"
      using assms e False r
      by (cases "inTransactionExec env 1 (delete_parked (\<lambda>p. p_seq p \<in> p_seq ` set ?rows)) (length ?rows) d")
        (simp_all add: drain_ops_def Let_def)
    have "d1 = d\<lparr>t_parking := filter (\<lambda>p. p_seq p \<notin> p_seq ` set ?rows) (t_parking d)\<rparr>"
      using inTransactionExec_ok [OF d1] by (auto dest!: delete_parked_ok)
    moreover have "d' = d1\<lparr>t_job := t_job d1 @ map (drained_job env t) ?rows\<rparr>"
      using inTransactionExec_ok [OF i] insert_jobs_ok by blast
    ultimately show ?thesis using r by simp
  qed
qed

lemma drained_mset:
  assumes "distinct (map p_seq ps)" "distinct rows" "set rows \<subseteq> set ps"
  shows "mset ps = mset (filter (\<lambda>p. p_seq p \<notin> p_seq ` set rows) ps) + mset rows"
proof -
  have inj: "inj_on p_seq (set ps)" "distinct ps" using assms(1) by (simp_all add: distinct_map)
  have "set (filter (\<lambda>p. p_seq p \<in> p_seq ` set rows) ps) = set rows"
    using assms(3) inj(1) by (auto dest: inj_onD)
  then have m: "mset (filter (\<lambda>p. p_seq p \<in> p_seq ` set rows) ps) = mset rows"
    using assms(2) inj(2) by (metis distinct_filter set_eq_iff_mset_eq_distinct)
  have "mset ps = mset (filter (\<lambda>p. p_seq p \<in> p_seq ` set rows) ps) + mset (filter (\<lambda>p. p_seq p \<notin> p_seq ` set rows) ps)"
    unfolding mset_filter by (rule multiset_partition)
  then show ?thesis unfolding m by (simp only: add.commute)
qed

lemma drain_ops_effect:
  assumes "store_ok d" "drain_ops env c n t d = (TxOk d', rows)"
  shows "moved d d' \<and> store_ok d'"
proof -
  have r: "rows = drain_rows c n d" and d': "d' = d\<lparr>t_parking := filter (\<lambda>p. p_seq p \<notin> p_seq ` set rows) (t_parking d),
      t_job := t_job d @ map (drained_job env t) rows\<rparr>"
    using drain_ops_ok [OF assms(2)] by simp_all
  have dp: "distinct (t_parking d)" using store_okD(3) [OF assms(1)] by (simp add: distinct_map)
  have m: "mset (t_parking d) = mset (filter (\<lambda>p. p_seq p \<notin> p_seq ` set rows) (t_parking d)) + mset rows"
    by (rule drained_mset)
      (use store_okD(3) [OF assms(1)] drain_rows_distinct [OF dp] drain_rows_subset [of c n d] r in auto)
  have "map job_triple (map (drained_job env t) rows) = map parked_triple rows"
    by (simp add: triple_drained_job)
  then have "mset (owed d') = image_mset job_triple (mset (t_job d)) + image_mset parked_triple (mset rows) +
      image_mset parked_triple (mset (filter (\<lambda>p. p_seq p \<notin> p_seq ` set rows) (t_parking d)))"
    unfolding d' owed_def by (simp add: comp_def triple_drained_job)
  also have "\<dots> = image_mset job_triple (mset (t_job d)) + image_mset parked_triple (mset (t_parking d))"
    unfolding m image_mset_union by (simp add: ac_simps)
  finally have o: "mset (owed d') = mset (owed d)" by (simp add: owed_def)
  have "store_ok d'"
  proof (rule store_ok_same_owed [OF assms(1) o])
    show "distinct (map p_seq (t_parking d'))" unfolding d' using store_okD(3) [OF assms(1)] by (simp add: distinct_map_filter)
    show "\<forall>p \<in> set (t_parking d'). p_seq p < t_parking_seq d'" unfolding d' using store_okD(4) [OF assms(1)] by simp
    show "\<forall>j \<in> set (t_job d'). j_status j \<in> job_statuses"
      unfolding d' using store_okD(6) [OF assms(1)] by (auto simp: drained_job_def job_statuses_def)
  qed (simp add: d')
  with o show ?thesis by (simp add: moved_def d')
qed

lemma DrainPage_effect:
  assumes "store_ok d"
  shows "moved d (snd (DrainPage env msgs cons c n t d)) \<and> store_ok (snd (DrainPage env msgs cons c n t d))"
proof -
  have "moved d (snd (transactionalOperations env (drain_ops env c n t) [] d)) \<and>
      store_ok (snd (transactionalOperations env (drain_ops env c n t) [] d))"
    by (rule transactionalOperations_inv [where P = "\<lambda>d'. moved d d' \<and> store_ok d'"])
      (use assms moved_refl drain_ops_effect [OF assms] in blast)+
  then show ?thesis using assms moved_refl by (auto simp: DrainPage_def split: prod.splits option.splits)
qed

subsection \<open>Dispatching\<close>

text \<open>What a committed dispatch wrote; the message must have been in status Acknowledged.\<close>

definition dispatched_db :: "dbenv \<Rightarrow> Message \<Rightarrow> DeliveryJob list \<Rightarrow> DeliveryJob list \<Rightarrow> db \<Rightarrow> db" where
  "dispatched_db env m js ps d =
     d\<lparr>t_job := t_job d @ map (job_row_of env) js,
       t_parking := t_parking d @ number_parked (t_parking_seq d) (map (parked_row_of env (now env)) ps),
       t_parking_seq := t_parking_seq d + length ps,
       t_message := snd (sql_update (env_dialect env)
          (\<lambda>r. sql_like (env_dialect env) (ID m) (m_id r) \<and> m_status r = MsgStatusAcknowledged)
          (\<lambda>r. r\<lparr>m_status := MsgStatusDispatched, m_outboxedAt := dt env (now env), m_updatedAt := dt env (now env)\<rparr>)
          (t_message d))\<rparr>"

lemma SetDispatched_ok:
  "SetDispatched env n True (Some m) d = TxOk d' \<Longrightarrow>
   d' = d\<lparr>t_message := snd (sql_update (env_dialect env)
          (\<lambda>r. sql_like (env_dialect env) (ID m) (m_id r) \<and> m_status r = MsgStatusAcknowledged)
          (\<lambda>r. r\<lparr>m_status := MsgStatusDispatched, m_outboxedAt := dt env (now env), m_updatedAt := dt env (now env)\<rparr>)
          (t_message d))\<rparr> \<and>
   (\<exists>r \<in> set (t_message d). sql_like (env_dialect env) (ID m) (m_id r) \<and> m_status r = MsgStatusAcknowledged)"
proof -
  let ?P = "\<lambda>r. sql_like (env_dialect env) (ID m) (m_id r) \<and> m_status r = MsgStatusAcknowledged"
  let ?f = "\<lambda>r. r\<lparr>m_status := MsgStatusDispatched, m_outboxedAt := dt env (now env), m_updatedAt := dt env (now env)\<rparr>"
  assume "SetDispatched env n True (Some m) d = TxOk d'"
  then have "inTransactionExec env n (update_message (env_dialect env) ?P ?f) 1 d = TxOk d'"
    by (auto simp: SetDispatched_def split: if_splits)
  then obtain k where "update_message (env_dialect env) ?P ?f d = Inr (k, d')" "k = 1"
    using inTransactionExec_ok by fastforce
  then have "d' = d\<lparr>t_message := snd (sql_update (env_dialect env) ?P ?f (t_message d))\<rparr>"
    "fst (sql_update (env_dialect env) ?P ?f (t_message d)) = 1"
    by (auto simp: update_message_def split: prod.splits)
  then show ?thesis using sql_update_count_pos [of "env_dialect env" ?P ?f "t_message d"] by simp
qed

lemma dispatch_txs_ok:
  assumes "run_ops (dispatch_txs env m js ps) d = TxOk d'"
  shows "d' = dispatched_db env m js ps d \<and>
    (\<exists>r \<in> set (t_message d). sql_like (env_dialect env) (ID m) (m_id r) \<and> m_status r = MsgStatusAcknowledged)"
proof -
  define d1 where "d1 = d\<lparr>t_job := t_job d @ map (job_row_of env) js\<rparr>"
  define d2 where "d2 = d1\<lparr>t_parking := t_parking d @ number_parked (t_parking_seq d) (map (parked_row_of env (now env)) ps),
      t_parking_seq := t_parking_seq d + length ps\<rparr>"
  have j: "inTransactionExec env 0 (insert_jobs (map (job_row_of env) js)) (length js) d = TxOk d1" if mem: "js \<noteq> []"
  proof -
    obtain x where x: "inTransactionExec env 0 (insert_jobs (map (job_row_of env) js)) (length js) d = TxOk x"
      using assms mem by (auto simp: dispatch_txs_def split: tx_outcome.splits)
    then show ?thesis using inTransactionExec_ok [OF x] insert_jobs_ok unfolding d1_def by blast
  qed
  have one: "run_ops ((if ps \<noteq> [] then [insertParkedJobsInTx env 1 ps (now env)] else []) @
      [SetDispatched env 2 True (Some m)]) d1 = TxOk d'"
    using assms j by (cases "js = []") (simp_all add: dispatch_txs_def d1_def)
  have p: "insertParkedJobsInTx env 1 ps (now env) d1 = TxOk d2" if mem: "ps \<noteq> []"
  proof -
    obtain x where x: "inTransactionExec env 1 (insert_parked (map (parked_row_of env (now env)) ps)) (length ps) d1 = TxOk x"
      using one mem by (auto simp: insertParkedJobsInTx_def split: tx_outcome.splits)
    then obtain k where "insert_parked (map (parked_row_of env (now env)) ps) d1 = Inr (k, x)"
      using inTransactionExec_ok [OF x] by auto
    from insert_parked_ok [OF this] have "x = d2" by (simp add: d2_def d1_def)
    with x mem show ?thesis by (simp add: insertParkedJobsInTx_def)
  qed
  have "d1 = d2" if "ps = []" using that by (simp add: d2_def d1_def number_parked_def)
  then have "SetDispatched env 2 True (Some m) d2 = TxOk d'"
    using one p by (cases "ps = []") (auto split: tx_outcome.splits)
  from SetDispatched_ok [OF this] show ?thesis by (simp add: dispatched_db_def d2_def d1_def)
qed

definition new_triple :: "DeliveryJob \<Rightarrow> xid \<times> xid \<times> xid" where
  "new_triple j = (ID j, job_MessageID j, job_ListenerID j)"

text \<open>What the dispatcher hands to the repository: new job ids, one job per consumer, all queued.\<close>

definition fresh_jobs :: "db \<Rightarrow> Message \<Rightarrow> DeliveryJob list \<Rightarrow> DeliveryJob list \<Rightarrow> bool" where
  "fresh_jobs d m js ps \<longleftrightarrow>
     plain (ID m) \<and> distinct (map ID (js @ ps)) \<and> distinct (map job_ListenerID (js @ ps)) \<and>
     list_all (\<lambda>j. ID j \<notin> set (map fst (owed d)) \<and> job_MessageID j = ID m) (js @ ps) \<and>
     list_all (\<lambda>j. dj_Status j = JobQueued) js"

lemma parked_new_triples:
  "map parked_triple (number_parked k (map (parked_row_of env t) ps)) = map new_triple ps"
  unfolding number_parked_sel(2) by (simp add: parked_triple_def new_triple_def parked_row_of_def)

lemma dispatched_db_owed:
  "mset (owed (dispatched_db env m js ps d)) = mset (owed d) + mset (map new_triple (js @ ps))"
proof -
  have "map job_triple (map (job_row_of env) js) = map new_triple js"
    by (simp add: job_triple_def new_triple_def job_row_of_def)
  then show ?thesis by (simp add: owed_def dispatched_db_def parked_new_triples flip: map_map)
qed

lemma dispatched_db_dispatched:
  assumes "plain (ID m)" "\<exists>r \<in> set (t_message d). m_id r = ID m \<and> m_status r = MsgStatusAcknowledged"
  shows "dispatched (dispatched_db env m js ps d) i \<longleftrightarrow> dispatched d i \<or> i = ID m"
proof -
  let ?f = "\<lambda>r. if m_id r = ID m \<and> m_status r = MsgStatusAcknowledged
    then r\<lparr>m_status := MsgStatusDispatched, m_outboxedAt := dt env (now env), m_updatedAt := dt env (now env)\<rparr> else r"
  have t: "t_message (dispatched_db env m js ps d) = map ?f (t_message d)"
    using assms(1) by (simp add: dispatched_db_def sql_update_def)
  have eq: "m_id (?f r) = i \<and> m_status (?f r) = MsgStatusDispatched \<longleftrightarrow>
      m_id r = i \<and> (m_status r = MsgStatusDispatched \<or> i = ID m \<and> m_status r = MsgStatusAcknowledged)" for r
    by auto
  have "dispatched (dispatched_db env m js ps d) i \<longleftrightarrow> (\<exists>r \<in> set (t_message d). m_id r = i \<and>
      (m_status r = MsgStatusDispatched \<or> i = ID m \<and> m_status r = MsgStatusAcknowledged))"
    unfolding dispatched_def t by (simp only: set_map bex_simps eq)
  then show ?thesis using assms(2) by (auto simp: dispatched_def)
qed

lemma dispatched_message_unique:
  assumes "store_ok d" "r \<in> set (t_message d)" "m_status r = MsgStatusAcknowledged"
  shows "\<not> dispatched d (m_id r)"
proof
  assume "dispatched d (m_id r)"
  then obtain s where s: "s \<in> set (t_message d)" "m_id s = m_id r" "m_status s = MsgStatusDispatched"
    by (auto simp: dispatched_def)
  then have "s = r" using store_okD(5) [OF assms(1)] assms(2) by (metis distinct_map inj_onD)
  with s assms(3) show False by simp
qed

lemma distinct_map_append_mset:
  assumes "mset zs = mset xs + mset ys" "distinct (map f xs)" "distinct (map f ys)" "f ` set xs \<inter> f ` set ys = {}"
  shows "distinct (map f zs)"
proof -
  have "mset (xs @ ys) = mset zs" using assms(1) by simp
  then show ?thesis by (rule distinct_map_mset) (use assms in simp)
qed

lemma image_disjointI: "(\<And>t. t \<in> B \<Longrightarrow> f t \<notin> f ` A) \<Longrightarrow> f ` A \<inter> f ` B = {}"
  unfolding disjoint_iff by (metis imageE)

lemma new_triples_fresh:
  assumes "store_ok d" "fresh_jobs d m js ps" "\<not> dispatched d (ID m)"
  shows "fst ` set (owed d) \<inter> fst ` set (map new_triple (js @ ps)) = {}"
    and "snd ` set (owed d) \<inter> snd ` set (map new_triple (js @ ps)) = {}"
proof -
  have new: "job_MessageID j = ID m" "ID j \<notin> fst ` set (owed d)" if "j \<in> set (js @ ps)" for j
    using assms(2) that by (auto simp: fresh_jobs_def list_all_iff)
  show "fst ` set (owed d) \<inter> fst ` set (map new_triple (js @ ps)) = {}"
  proof (rule image_disjointI)
    fix t assume "t \<in> set (map new_triple (js @ ps))"
    then obtain j where j: "j \<in> set (js @ ps)" "t = new_triple j" unfolding set_map by blast
    show "fst t \<notin> fst ` set (owed d)" using new(2) [OF j(1)] unfolding j(2) new_triple_def fst_conv .
  qed
  show "snd ` set (owed d) \<inter> snd ` set (map new_triple (js @ ps)) = {}"
  proof (rule image_disjointI, rule notI)
    fix t assume "t \<in> set (map new_triple (js @ ps))"
    then obtain j where j: "j \<in> set (js @ ps)" "t = new_triple j" unfolding set_map by blast
    assume "snd t \<in> snd ` set (owed d)"
    then obtain u where u: "u \<in> set (owed d)" "snd u = snd t" by (metis imageE)
    show False using store_okD(7) [OF assms(1) u(1)] u(2) new(1) [OF j(1)] assms(3) j(2)
      by (simp add: new_triple_def)
  qed
qed

lemma dispatched_db_ok:
  assumes "store_ok d" "fresh_jobs d m js ps"
    and r: "\<exists>r \<in> set (t_message d). m_id r = ID m \<and> m_status r = MsgStatusAcknowledged"
  shows "store_ok (dispatched_db env m js ps d)"
proof (rule store_okI)
  let ?d = "dispatched_db env m js ps d"
  note o = dispatched_db_owed [of env m js ps d]
  have pl: "plain (ID m)" using assms(2) by (simp add: fresh_jobs_def)
  have nodisp: "\<not> dispatched d (ID m)" using dispatched_message_unique [OF assms(1)] r by metis
  have new: "job_MessageID j = ID m" if "j \<in> set (js @ ps)" for j
    using assms(2) that by (auto simp: fresh_jobs_def list_all_iff)
  note fr = new_triples_fresh [OF assms(1,2) nodisp]
  have "map fst (map new_triple (js @ ps)) = map ID (js @ ps)" by (simp add: new_triple_def)
  then have "distinct (map fst (map new_triple (js @ ps)))"
    using assms(2) by (simp only: fresh_jobs_def)
  then show "distinct (map fst (owed ?d))"
    by (rule distinct_map_append_mset [OF o store_okD(1) [OF assms(1)] _ fr(1)])
  have "map snd (map snd (map new_triple (js @ ps))) = map job_ListenerID (js @ ps)" by (simp add: new_triple_def)
  then have "distinct (map snd (map snd (map new_triple (js @ ps))))"
    using assms(2) by (simp only: fresh_jobs_def)
  then have "distinct (map snd (map new_triple (js @ ps)))" by (simp only: distinct_map)
  then show "distinct (map snd (owed ?d))"
    by (rule distinct_map_append_mset [OF o store_okD(2) [OF assms(1)] _ fr(2)])
  show "distinct (map p_seq (t_parking ?d))" "\<And>p. p \<in> set (t_parking ?d) \<Longrightarrow> p_seq p < t_parking_seq ?d"
    using number_parked_fresh [OF assms(1), of "map (parked_row_of env (now env)) ps"]
    by (simp_all add: dispatched_db_def)
  show "distinct (map m_id (t_message ?d))"
    using store_okD(5) [OF assms(1)] by (simp add: dispatched_db_def sql_update_map)
  show "j_status j \<in> job_statuses" if "j \<in> set (t_job ?d)" for j
    using that store_okD(6) [OF assms(1)] assms(2)
    by (auto simp: dispatched_db_def job_row_of_def job_statuses_def fresh_jobs_def list_all_iff)
  have "set (owed ?d) = set (owed d) \<union> new_triple ` set (js @ ps)"
    using arg_cong [OF o, of set_mset] by (simp add: image_Un)
  then show "dispatched ?d (fst (snd t))" if mem: "t \<in> set (owed ?d)" for t
  proof -
    from mem \<open>set (owed ?d) = _\<close> consider "t \<in> set (owed d)" | j where "j \<in> set (js @ ps)" "t = new_triple j" by blast
    then show ?thesis
    proof cases
      case 1
      then show ?thesis using store_okD(7) [OF assms(1)] dispatched_db_dispatched [OF pl r] by blast
    next
      case (2 j)
      then show ?thesis using new [OF 2(1)] dispatched_db_dispatched [OF pl r] by (simp add: new_triple_def)
    qed
  qed
qed

end
