(* ===== verification/Job_Steps.thy ===== *)
theory Job_Steps
  imports Job_Invariant
begin

section \<open>Any interleaving of the repositories' operations\<close>

text \<open>
  \<open>store_op\<close> names the writing operations on messages and jobs with their arguments and the faults
  their environment brings; \<open>store_exec\<close> runs one, \<open>store_run\<close> a sequence of them, issued by any
  number of nodes in any order.  \<open>store_ok\<close> holds after every sequence, and \<open>status_edges\<close> is the
  state machine of a job that no sequence leaves.
\<close>

subsection \<open>Operations\<close>

datatype store_op =
    OpCreate dbenv dbenv chRepo prRepo Message
  | OpDispatch dbenv Message "DeliveryJob list" "DeliveryJob list"
  | OpInflight dbenv DeliveryJob
  | OpDelivered dbenv DeliveryJob
  | OpDead dbenv DeliveryJob
  | OpQueuedDead dbenv DeliveryJob
  | OpRetry dbenv DeliveryJob duration
  | OpDeadInflight dbenv DeliveryJob
  | OpRequeueConsumer dbenv Consumer
  | OpRequeueJob dbenv DeliveryJob
  | OpDeleteDeadConsumer dbenv Consumer nat
  | OpDeleteDeadJob dbenv DeliveryJob nat
  | OpRepark dbenv DeliveryJob
  | OpDrain dbenv msgByIDsRepo conByIDRepo xid int time
  | OpDeleteJobs dbenv Message
  | OpDeleteMessage dbenv Message
  | OpPrune dbenv "xid list"
  | OpOther "db \<Rightarrow> db"

fun store_exec :: "store_op \<Rightarrow> db \<Rightarrow> db" where
  "store_exec (OpCreate env env' chGet prGet m) d = snd (message_Create env env' chGet prGet m d)"
| "store_exec (OpDispatch env m js ps) d = snd (DispatchMessageWithParking env (Some m) (map Some js) (map Some ps) d)"
| "store_exec (OpInflight env job) d = snd (MarkJobInflight env job d)"
| "store_exec (OpDelivered env job) d = snd (MarkJobDelivered env job d)"
| "store_exec (OpDead env job) d = snd (MarkJobDead env job d)"
| "store_exec (OpQueuedDead env job) d = snd (MarkQueuedJobAsDead env job d)"
| "store_exec (OpRetry env job delta) d = snd (MarkJobRetry env job delta d)"
| "store_exec (OpDeadInflight env job) d = snd (MarkDeadJobAsInflight env job d)"
| "store_exec (OpRequeueConsumer env c) d = snd (RequeueDeadJobsForConsumer env c d)"
| "store_exec (OpRequeueJob env job) d = snd (RequeueDeadJob env job d)"
| "store_exec (OpDeleteDeadConsumer env c n) d = snd (DeleteDeadJobsForConsumer env c n d)"
| "store_exec (OpDeleteDeadJob env job n) d = snd (DeleteDeadJob env job n d)"
| "store_exec (OpRepark env job) d = snd (ReparkQueuedJob env (Some job) d)"
| "store_exec (OpDrain env msgs cons c n t) d = snd (DrainPage env msgs cons c n t d)"
| "store_exec (OpDeleteJobs env m) d = snd (DeleteJobsForMessage env m d)"
| "store_exec (OpDeleteMessage env m) d = snd (DeleteMessage env m d)"
| "store_exec (OpPrune env ids) d = snd (DeleteMessagesAndJobs env ids d)"
| "store_exec (OpOther f) d = f d"

text \<open>
  The obligations of the callers: a dispatch brings new jobs, and the operations on the other tables
  leave messages, jobs and parked jobs alone.
\<close>

fun op_ok :: "db \<Rightarrow> store_op \<Rightarrow> bool" where
  "op_ok d (OpDispatch env m js ps) \<longleftrightarrow> fresh_jobs d m js ps"
| "op_ok d (OpOther f) \<longleftrightarrow> t_job (f d) = t_job d \<and> t_parking (f d) = t_parking d \<and>
     t_parking_seq (f d) = t_parking_seq d \<and> t_message (f d) = t_message d"
| "op_ok d _ \<longleftrightarrow> True"

fun store_run :: "store_op list \<Rightarrow> db \<Rightarrow> db" where
  "store_run [] d = d"
| "store_run (op # ops) d = store_run ops (store_exec op d)"

fun run_ok :: "db \<Rightarrow> store_op list \<Rightarrow> bool" where
  "run_ok d [] \<longleftrightarrow> True"
| "run_ok d (op # ops) \<longleftrightarrow> op_ok d op \<and> run_ok (store_exec op d) ops"

subsection \<open>Effects of the operations on messages\<close>

lemma Dispatch_effect:
  "plain (ID m) \<Longrightarrow>
   snd (DispatchMessageWithParking env (Some m) (map Some js) (map Some ps) d) = d \<or>
   (snd (DispatchMessageWithParking env (Some m) (map Some js) (map Some ps) d) = dispatched_db env m js ps d \<and>
    (\<exists>r \<in> set (t_message d). m_id r = ID m \<and> m_status r = MsgStatusAcknowledged))"
proof -
  assume p: "plain (ID m)"
  have "snd (transactionalWrites env (dispatch_txs env m js ps) d) = d \<or>
     (snd (transactionalWrites env (dispatch_txs env m js ps) d) = dispatched_db env m js ps d \<and>
      (\<exists>r \<in> set (t_message d). m_id r = ID m \<and> m_status r = MsgStatusAcknowledged))"
    using transactionalWrites_effect [of env "dispatch_txs env m js ps" d] dispatch_txs_ok p by (metis sql_like_plain)
  then show ?thesis by (auto simp: DispatchMessageWithParking_def comp_def prod.case_eq_if)
qed

lemma Dispatch_store_ok:
  assumes "store_ok d" "fresh_jobs d m js ps"
  shows "store_ok (snd (DispatchMessageWithParking env (Some m) (map Some js) (map Some ps) d))"
proof -
  have "plain (ID m)" using assms(2) by (simp add: fresh_jobs_def)
  from Dispatch_effect [OF this, of env js ps d] show ?thesis
  proof (elim disjE conjE)
    assume r: "\<exists>r \<in> set (t_message d). m_id r = ID m \<and> m_status r = MsgStatusAcknowledged"
    assume "snd (DispatchMessageWithParking env (Some m) (map Some js) (map Some ps) d) = dispatched_db env m js ps d"
    then show ?thesis by (simp only: dispatched_db_ok [OF assms r])
  qed (simp only: assms(1))
qed

lemma store_ok_new_message:
  assumes "store_ok d" "m_id r \<notin> m_id ` set (t_message d)"
  shows "store_ok (d\<lparr>t_message := t_message d @ [r]\<rparr>)"
  using assms by (auto simp: store_ok_def owed_def dispatched_def)

lemma message_Create_effect:
  "snd (message_Create env env' chGet prGet m d) = d \<or>
   (snd (message_Create env env' chGet prGet m d) = d\<lparr>t_message := t_message d @ [message_row_of env' m]\<rparr> \<and>
    ID m \<notin> m_id ` set (t_message d))"
proof -
  let ?st = "insert_message (message_row_of env' m)"
  have "snd (transactionalSingleRowWriteExec env' ?st d) = d \<or>
     (snd (transactionalSingleRowWriteExec env' ?st d) = d\<lparr>t_message := t_message d @ [message_row_of env' m]\<rparr> \<and>
      ID m \<notin> m_id ` set (t_message d))"
  proof (rule single_write_inv)
    fix d' assume "?st d = Inr (1, d')"
    then obtain rows where i: "sql_insert message_clash (\<lambda>r. has_channel d (m_channelId r) \<and> has_producer d (m_producerId r))
        [message_row_of env' m] (t_message d) = Inr (1, rows)" and d': "d' = d\<lparr>t_message := rows\<rparr>"
      unfolding insert_message_def by (blast dest: into_table_ok)
    then show "d' = d \<or> (d' = d\<lparr>t_message := t_message d @ [message_row_of env' m]\<rparr> \<and> ID m \<notin> m_id ` set (t_message d))"
      using sql_insert_ok [OF i] sql_insert_no_clash [OF i] by (auto simp: message_clash_def message_row_of_def)
  qed simp
  then show ?thesis by (auto simp: message_Create_def split: prod.splits option.splits)
qed

lemma store_ok_fewer_messages:
  assumes "store_ok d" "\<And>m. m \<in> set (t_message d) \<Longrightarrow> P m \<Longrightarrow> m_id m \<notin> (fst \<circ> snd) ` set (owed d)"
  shows "store_ok (d\<lparr>t_message := filter (\<lambda>m. \<not> P m) (t_message d)\<rparr>)"
proof (rule store_okI)
  let ?d = "d\<lparr>t_message := filter (\<lambda>m. \<not> P m) (t_message d)\<rparr>"
  have o: "owed ?d = owed d" by (simp add: owed_def)
  show "dispatched ?d (fst (snd t))" if "t \<in> set (owed ?d)" for t
  proof -
    have t: "t \<in> set (owed d)" using that o by simp
    from store_okD(7) [OF assms(1) t] obtain m where m: "m \<in> set (t_message d)" "m_id m = fst (snd t)"
      "m_status m = MsgStatusDispatched" by (auto simp: dispatched_def)
    then have "\<not> P m" using assms(2) t by (metis comp_apply image_eqI)
    with m show ?thesis by (auto simp: dispatched_def)
  qed
qed (use store_okD [OF assms(1)] in \<open>simp_all add: owed_def distinct_map_filter\<close>)

lemma delete_message_effect:
  assumes "store_ok d" "delete_message P d = Inr (n, d')"
  shows "store_ok d' \<and> t_job d' = t_job d \<and> t_parking d' = t_parking d"
proof -
  have d': "d' = d\<lparr>t_message := filter (\<lambda>m. \<not> P m) (t_message d)\<rparr>"
    and c: "\<not> list_ex (\<lambda>m. P m \<and> (list_ex (\<lambda>j. j_messageId j = m_id m) (t_job d) \<or>
              list_ex (\<lambda>p. p_messageId p = m_id m) (t_parking d))) (t_message d)"
    using assms(2) by (auto simp: delete_message_def sql_delete_def split: if_splits)
  have "m_id m \<notin> (fst \<circ> snd) ` set (owed d)" if "m \<in> set (t_message d)" "P m" for m
    using c that by (fastforce simp: owed_def job_triple_def parked_triple_def list_ex_iff)
  then show ?thesis using store_ok_fewer_messages [OF assms(1)] d' by auto
qed

lemma message_delete_effects:
  assumes "store_ok d"
  shows DeleteMessage_effect: "store_ok (snd (DeleteMessage env m d)) \<and>
      t_job (snd (DeleteMessage env m d)) = t_job d \<and> t_parking (snd (DeleteMessage env m d)) = t_parking d"
    and DeleteJobsForMessage_effect: "job_deleted d (snd (DeleteJobsForMessage env m d))
      (\<lambda>r. sql_like (env_dialect env) (ID m) (j_messageId r))"
proof -
  show "store_ok (snd (DeleteMessage env m d)) \<and>
      t_job (snd (DeleteMessage env m d)) = t_job d \<and> t_parking (snd (DeleteMessage env m d)) = t_parking d"
    unfolding DeleteMessage_def
    by (rule transactionalWrites_inv [where P = "\<lambda>d'. store_ok d' \<and> t_job d' = t_job d \<and> t_parking d' = t_parking d"])
      (use assms in \<open>auto simp del: run_ops.simps(2) dest!: inTransactionExec_ok delete_message_effect [OF assms]\<close>)
  show "job_deleted d (snd (DeleteJobsForMessage env m d)) (\<lambda>r. sql_like (env_dialect env) (ID m) (j_messageId r))"
    unfolding DeleteJobsForMessage_def
    by (rule transactionalWrites_inv [where P = "\<lambda>d'. job_deleted d d' (\<lambda>r. sql_like (env_dialect env) (ID m) (j_messageId r))"])
      (auto simp del: run_ops.simps(2) dest!: inTransactionExec_ok intro: job_deleted_refl job_deletedI)
qed

lemma tx_Exec_ok: "tx_Exec env n st d = TxOk (k, d') \<Longrightarrow> st d = Inr (k, d')"
  by (auto simp: tx_Exec_def split: option.splits fault.splits sum.splits)

lemma delete_batches_ok:
  assumes "store_ok d" "delete_batches env n bs d = TxOk d'"
  shows "store_ok d' \<and> t_parking d' = t_parking d \<and>
    t_job d' = filter (\<lambda>j. j_messageId j \<notin> set (concat bs)) (t_job d)"
  using assms
proof (induction env n bs d rule: delete_batches.induct)
  case (2 env n b bs d)
  obtain k1 d1 k2 d2 where e1: "tx_Exec env n (delete_job (\<lambda>j. j_messageId j \<in> set b)) d = TxOk (k1, d1)"
    and e2: "tx_Exec env (Suc n) (delete_message (\<lambda>m. m_id m \<in> set b)) d1 = TxOk (k2, d2)"
    and e3: "delete_batches env (n + 2) bs d2 = TxOk d'"
    using 2(3) by (auto split: tx_outcome.splits prod.splits)
  have d1: "d1 = d\<lparr>t_job := filter (\<lambda>r. \<not> j_messageId r \<in> set b) (t_job d)\<rparr>"
    using tx_Exec_ok [OF e1] by (auto dest: delete_job_ok)
  have "store_ok d1" unfolding d1 by (rule store_ok_delete [OF 2(2)])
  then have d2: "store_ok d2" "t_job d2 = t_job d1" "t_parking d2 = t_parking d1"
    using delete_message_effect tx_Exec_ok [OF e2] by blast+
  from 2(1) [OF e1 refl e2 refl d2(1) e3] d2(2,3) d1 show ?case by (auto intro: filter_cong)
qed simp

lemma batches_concat: "0 < k \<Longrightarrow> concat (batches k xs) = xs"
  by (induction k xs rule: batches.induct) (subst batches.simps, auto)

lemma Prune_effect:
  assumes "store_ok d"
  shows "store_ok (snd (DeleteMessagesAndJobs env ids d)) \<and>
    t_parking (snd (DeleteMessagesAndJobs env ids d)) = t_parking d \<and>
    (t_job (snd (DeleteMessagesAndJobs env ids d)) = t_job d \<or>
     t_job (snd (DeleteMessagesAndJobs env ids d)) = filter (\<lambda>j. j_messageId j \<notin> set ids) (t_job d))"
proof -
  let ?P = "\<lambda>d'. store_ok d' \<and> t_parking d' = t_parking d \<and>
    (t_job d' = t_job d \<or> t_job d' = filter (\<lambda>j. j_messageId j \<notin> set ids) (t_job d))"
  have "?P (snd (transactionalWrites env [delete_batches env 0 (batches 100 ids)] d))"
  proof (rule transactionalWrites_inv)
    fix d' assume "run_ops [delete_batches env 0 (batches 100 ids)] d = TxOk d'"
    then have "delete_batches env 0 (batches 100 ids) d = TxOk d'" by (simp only: run_ops_single)
    from delete_batches_ok [OF assms this] show "?P d'" by (simp only: batches_concat) simp
  qed (use assms in simp)
  then show ?thesis using assms
    by (cases "transactionalWrites env [delete_batches env 0 (batches 100 ids)] d")
      (auto simp: DeleteMessagesAndJobs_def split: option.splits)
qed

subsection \<open>The invariant along every run\<close>

lemma store_exec_ok:
  assumes "store_ok d" "op_ok d op"
  shows "store_ok (store_exec op d)"
proof (cases op)
  case (OpCreate env env' chGet prGet m)
  then show ?thesis using message_Create_effect [of env env' chGet prGet m d] store_ok_new_message [OF assms(1)] assms(1)
    by (auto simp: message_row_of_def)
next
  case (OpDispatch env m js ps)
  then show ?thesis using assms Dispatch_store_ok by simp
next
  case (OpInflight env job)
  then show ?thesis using job_update_ok [OF MarkJobInflight_effect] assms(1) by (simp add: job_statuses_def)
next
  case (OpDelivered env job)
  then show ?thesis using job_update_ok [OF updateJobStatus_effect] assms(1) by (simp add: MarkJobDelivered_def job_statuses_def)
next
  case (OpDead env job)
  then show ?thesis using job_update_ok [OF updateJobStatus_effect] assms(1) by (simp add: MarkJobDead_def job_statuses_def)
next
  case (OpQueuedDead env job)
  then show ?thesis using job_update_ok [OF updateJobStatus_effect] assms(1) by (simp add: MarkQueuedJobAsDead_def job_statuses_def)
next
  case (OpRetry env job delta)
  then show ?thesis using job_update_ok [OF MarkJobRetry_effect] assms(1) by (simp add: job_statuses_def)
next
  case (OpDeadInflight env job)
  then show ?thesis using job_update_ok [OF MarkDeadJobAsInflight_effect] assms(1) by (simp add: job_statuses_def)
next
  case (OpRequeueConsumer env c)
  then show ?thesis using job_update_ok [OF RequeueDeadJobsForConsumer_effect] assms(1) by (simp add: job_statuses_def)
next
  case (OpRequeueJob env job)
  then show ?thesis using job_update_ok [OF RequeueDeadJob_effect] assms(1) by (simp add: job_statuses_def)
next
  case (OpDeleteDeadConsumer env c n)
  then show ?thesis using job_deleted_ok [OF DeleteDeadJobsForConsumer_effect assms(1)] by simp
next
  case (OpDeleteDeadJob env job n)
  then show ?thesis using job_deleted_ok [OF DeleteDeadJob_effect assms(1)] by simp
next
  case (OpRepark env job)
  then show ?thesis using ReparkQueuedJob_effect [OF assms(1)] by simp
next
  case (OpDrain env msgs cons c n t)
  then show ?thesis using DrainPage_effect [OF assms(1)] by simp
next
  case (OpDeleteJobs env m)
  then show ?thesis using job_deleted_ok [OF DeleteJobsForMessage_effect [OF assms(1)] assms(1)] by simp
next
  case (OpDeleteMessage env m)
  then show ?thesis using DeleteMessage_effect [OF assms(1)] by simp
next
  case (OpPrune env ids)
  then show ?thesis using Prune_effect [OF assms(1)] by simp
next
  case (OpOther f)
  then show ?thesis using assms store_ok_frame [of "f d" d] by simp
qed

lemma store_run_ok: "store_ok d \<Longrightarrow> run_ok d ops \<Longrightarrow> store_ok (store_run ops d)"
  by (induction ops arbitrary: d) (auto intro: store_exec_ok)

lemma empty_store_ok: "store_ok empty_db"
  by (simp add: store_ok_def owed_def empty_db_def)

subsection \<open>Conservation of deliveries\<close>

fun deletes :: "store_op \<Rightarrow> bool" where
  "deletes (OpDeleteDeadConsumer env c n) = True"
| "deletes (OpDeleteDeadJob env job n) = True"
| "deletes (OpDeleteJobs env m) = True"
| "deletes (OpPrune env ids) = True"
| "deletes _ = False"

fun op_new :: "store_op \<Rightarrow> (xid \<times> xid \<times> xid) list" where
  "op_new (OpDispatch env m js ps) = map new_triple (js @ ps)"
| "op_new _ = []"

lemma store_exec_owed:
  assumes "store_ok d" "op_ok d op" "\<not> deletes op"
  shows "mset (owed (store_exec op d)) = mset (owed d) \<or>
    mset (owed (store_exec op d)) = mset (owed d) + mset (op_new op)"
proof (cases op)
  case (OpCreate env env' chGet prGet m)
  then show ?thesis using message_Create_effect [of env env' chGet prGet m d] by (auto simp: owed_def)
next
  case (OpDispatch env m js ps)
  then have p: "plain (ID m)" using assms(2) by (simp add: fresh_jobs_def)
  from Dispatch_effect [OF p, of env js ps d] show ?thesis
    using OpDispatch dispatched_db_owed [of env m js ps d] by auto
next
  case (OpRepark env job)
  then show ?thesis using ReparkQueuedJob_effect [OF assms(1), of env "Some job"] by (simp add: moved_def)
next
  case (OpDrain env msgs cons c n t)
  then show ?thesis using DrainPage_effect [OF assms(1), of env msgs cons c n t] by (simp add: moved_def)
next
  case (OpDeleteMessage env m)
  then show ?thesis using DeleteMessage_effect [OF assms(1), of env m] by (simp add: owed_def)
next
  case (OpOther f)
  then show ?thesis using assms(2) by (simp add: owed_def)
qed (use assms(3) in \<open>simp_all add: MarkJobDelivered_def MarkJobDead_def MarkQueuedJobAsDead_def
       job_update_owed [OF MarkJobInflight_effect] job_update_owed [OF updateJobStatus_effect]
       job_update_owed [OF MarkJobRetry_effect] job_update_owed [OF MarkDeadJobAsInflight_effect]
       job_update_owed [OF RequeueDeadJobsForConsumer_effect] job_update_owed [OF RequeueDeadJob_effect]\<close>)

lemma store_run_owed:
  assumes "store_ok d" "run_ok d ops" "\<not> list_ex deletes ops"
  shows "mset (owed d) \<subseteq># mset (owed (store_run ops d)) \<and>
    set (owed (store_run ops d)) \<subseteq> set (owed d) \<union> set (concat (map op_new ops))"
  using assms
proof (induction ops arbitrary: d)
  case (Cons op ops)
  let ?d = "store_exec op d"
  have s: "mset (owed ?d) = mset (owed d) \<or> mset (owed ?d) = mset (owed d) + mset (op_new op)"
    by (rule store_exec_owed) (use Cons.prems in simp_all)
  have "store_ok ?d" by (rule store_exec_ok) (use Cons.prems in simp_all)
  then have IH: "mset (owed ?d) \<subseteq># mset (owed (store_run ops ?d))"
    "set (owed (store_run ops ?d)) \<subseteq> set (owed ?d) \<union> set (concat (map op_new ops))"
    using Cons.IH [of ?d] Cons.prems by simp_all
  have "mset (owed d) \<subseteq># mset (owed ?d)" using s by auto
  moreover have "set (owed ?d) \<subseteq> set (owed d) \<union> set (op_new op)"
    using s by (metis Un_upper1 set_eq_subset set_mset_mset set_mset_union)
  ultimately show ?case using IH by (auto intro: subset_mset.order_trans)
qed simp

subsection \<open>The state machine of a job\<close>

definition status_edges :: "(JobStatus \<times> JobStatus) set" where
  "status_edges =
     {(JobQueued, JobInflight), (JobInflight, JobDelivered), (JobInflight, JobDead), (JobInflight, JobQueued),
      (JobQueued, JobDead), (JobDead, JobInflight), (JobDead, JobQueued)}"

text \<open>
  \<open>row_ok d j j'\<close>: what one operation may do to the row \<open>j\<close> of a job that is still there as \<open>j'\<close>.  A job
  is handed out (set to Inflight) only while its consumer is not paused.
\<close>

definition row_ok :: "db \<Rightarrow> job_row \<Rightarrow> job_row \<Rightarrow> bool" where
  "row_ok d j j' \<longleftrightarrow>
     (j_status j, j_status j') \<in> status_edges\<^sup>= \<and>
     (j_status j \<noteq> JobInflight \<longrightarrow> j_status j' = JobInflight \<longrightarrow> \<not> effectively_paused d (j_consumerId j)) \<and>
     j_messageId j' = j_messageId j \<and> j_consumerId j' = j_consumerId j"

lemma row_ok_refl: "row_ok d j j"
  by (simp add: row_ok_def)

lemma row_ok_kept:
  assumes "store_ok d" "j \<in> set (t_job d)" "j' \<in> set (t_job d')" "j_id j' = j_id j"
    "\<And>r. r \<in> set (t_job d') \<Longrightarrow> r \<in> set (t_job d) \<or> j_id r \<notin> j_id ` set (t_job d)"
  shows "row_ok d j j'"
proof -
  have "j' \<in> set (t_job d)" using assms(2-5) by (metis image_eqI)
  then have "j' = j" using job_by_id [OF assms(1)] assms(2,4) by blast
  then show ?thesis by (simp add: row_ok_refl)
qed

lemma row_ok_update:
  assumes "store_ok d" "job_update d d' Q to" "j \<in> set (t_job d)" "j' \<in> set (t_job d')" "j_id j' = j_id j"
    and "Q j \<Longrightarrow> (j_status j, to) \<in> status_edges"
    and "Q j \<Longrightarrow> to = JobInflight \<Longrightarrow> \<not> effectively_paused d (j_consumerId j)"
  shows "row_ok d j j'"
proof -
  obtain f di P where u: "d' = d\<lparr>t_job := snd (sql_update di P f (t_job d))\<rparr>" "\<And>r. P r \<Longrightarrow> Q r"
    "\<And>r. job_triple (f r) = job_triple r" "\<And>r. j_status (f r) = to"
    using assms(2) unfolding job_update_def by blast
  have t: "j_id (f r) = j_id r" "j_messageId (f r) = j_messageId r" "j_consumerId (f r) = j_consumerId r" for r
    using u(3) [of r] by (simp_all add: job_triple_def)
  have "t_job d' = map (\<lambda>r. if P r then f r else r) (t_job d)" using u(1) by (simp add: sql_update_def)
  then obtain r where r: "r \<in> set (t_job d)" "j' = (if P r then f r else r)" using assms(4) by auto
  then have "j_id r = j_id j" using assms(5) t(1) by (auto split: if_splits)
  then have "r = j" using job_by_id [OF assms(1) r(1) assms(3)] by blast
  then show ?thesis
    using r(2) u(2) [of j] u(4) t assms(6,7) by (cases "P j") (auto simp: row_ok_def)
qed

lemma drain_parked_ids:
  assumes "store_ok d"
  shows "r \<in> set (t_job (snd (DrainPage env msgs cons c n t d))) \<Longrightarrow>
    r \<in> set (t_job d) \<or> j_id r \<notin> j_id ` set (t_job d)"
proof -
  let ?P = "\<lambda>d'. \<forall>r \<in> set (t_job d'). r \<in> set (t_job d) \<or> j_id r \<notin> j_id ` set (t_job d)"
  have dis: "p_id p \<notin> j_id ` set (t_job d)" if "p \<in> set (t_parking d)" for p
    using store_okD(1) [OF assms] that by (auto simp: owed_def job_triple_def parked_triple_def comp_def image_iff)
  have "?P (snd (transactionalOperations env (drain_ops env c n t) [] d))"
  proof (rule transactionalOperations_inv [where P = ?P])
    fix d' rows assume "drain_ops env c n t d = (TxOk d', rows)"
    from drain_ops_ok [OF this] have t: "t_job d' = t_job d @ map (drained_job env t) (drain_rows c n d)" by simp
    have "j_id (drained_job env t p) \<notin> j_id ` set (t_job d)" if "p \<in> set (drain_rows c n d)" for p
      using dis [of p] drain_rows_subset [of c n d] that by (auto simp: drained_job_def)
    then show "?P d'" unfolding t by auto
  qed simp
  then show "r \<in> set (t_job (snd (DrainPage env msgs cons c n t d))) \<Longrightarrow>
    r \<in> set (t_job d) \<or> j_id r \<notin> j_id ` set (t_job d)"
    by (auto simp: DrainPage_def split: prod.splits option.splits if_splits)
qed

lemma repark_rows_kept:
  assumes "store_ok d"
  shows "set (t_job (snd (ReparkQueuedJob env job d))) \<subseteq> set (t_job d)"
proof (cases job)
  case (Some j)
  have "set (t_job (snd (transactionalOperations env (repark_ops env (ID j)) False d))) \<subseteq> set (t_job d)"
  proof (rule transactionalOperations_inv [where P = "\<lambda>d'. set (t_job d') \<subseteq> set (t_job d)"])
    fix d' y assume "repark_ops env (ID j) d = (TxOk d', y)"
    from repark_ops_ok [OF assms this] show "set (t_job d') \<subseteq> set (t_job d)" by auto
  qed simp
  then show ?thesis using Some by (auto simp: ReparkQueuedJob_def split: prod.splits option.splits)
qed (simp add: ReparkQueuedJob_def)

lemma dispatch_rows_kept:
  assumes "store_ok d" "fresh_jobs d m js ps"
    and "r \<in> set (t_job (snd (DispatchMessageWithParking env (Some m) (map Some js) (map Some ps) d)))"
  shows "r \<in> set (t_job d) \<or> j_id r \<notin> j_id ` set (t_job d)"
proof -
  have p: "plain (ID m)" using assms(2) by (simp add: fresh_jobs_def)
  have new: "j_id (job_row_of env j) \<notin> j_id ` set (t_job d)" if "j \<in> set js" for j
    using assms(2) that by (auto simp: fresh_jobs_def list_all_iff owed_def job_triple_def image_iff job_row_of_def)
  have "r \<in> set (t_job d) \<or> (\<exists>j \<in> set js. r = job_row_of env j)"
    using Dispatch_effect [OF p, of env js ps d] assms(3) by (auto simp: dispatched_db_def)
  then show ?thesis using new by blast
qed

lemma job_deleted_kept: "job_deleted d d' Q \<Longrightarrow> set (t_job d') \<subseteq> set (t_job d)"
  by (auto simp: job_deleted_def)

lemma store_exec_row:
  assumes "store_ok d" "op_ok d op" "j \<in> set (t_job d)" "j' \<in> set (t_job (store_exec op d))" "j_id j' = j_id j"
  shows "row_ok d j j'"
proof -
  note up = row_ok_update [OF assms(1) _ assms(3) _ assms(5)]
  have kept: "row_ok d j j'" if "set (t_job (store_exec op d)) \<subseteq> set (t_job d)"
    by (rule row_ok_kept [OF assms(1,3,4,5)]) (use that in blast)
  show ?thesis
  proof (cases op)
    case (OpCreate env env' chGet prGet m)
    show ?thesis by (rule kept) (use OpCreate message_Create_effect [of env env' chGet prGet m d] in auto)
  next
    case (OpDispatch env m js ps)
    then show ?thesis
      using row_ok_kept [OF assms(1,3,4,5)] dispatch_rows_kept [OF assms(1)] assms(2) by simp
  next
    case (OpInflight env job)
    show ?thesis by (rule up [OF MarkJobInflight_effect]) (use OpInflight assms(4) in \<open>auto simp: status_edges_def\<close>)
  next
    case (OpDelivered env job)
    show ?thesis by (rule up [OF updateJobStatus_effect])
        (use OpDelivered assms(4) in \<open>auto simp: status_edges_def MarkJobDelivered_def\<close>)
  next
    case (OpDead env job)
    show ?thesis by (rule up [OF updateJobStatus_effect])
        (use OpDead assms(4) in \<open>auto simp: status_edges_def MarkJobDead_def\<close>)
  next
    case (OpQueuedDead env job)
    show ?thesis by (rule up [OF updateJobStatus_effect])
        (use OpQueuedDead assms(4) in \<open>auto simp: status_edges_def MarkQueuedJobAsDead_def\<close>)
  next
    case (OpRetry env job delta)
    show ?thesis by (rule up [OF MarkJobRetry_effect]) (use OpRetry assms(4) in \<open>auto simp: status_edges_def\<close>)
  next
    case (OpDeadInflight env job)
    show ?thesis by (rule up [OF MarkDeadJobAsInflight_effect])
        (use OpDeadInflight assms(4) in \<open>auto simp: status_edges_def\<close>)
  next
    case (OpRequeueConsumer env c)
    show ?thesis by (rule up [OF RequeueDeadJobsForConsumer_effect])
        (use OpRequeueConsumer assms(4) in \<open>auto simp: status_edges_def\<close>)
  next
    case (OpRequeueJob env job)
    show ?thesis by (rule up [OF RequeueDeadJob_effect]) (use OpRequeueJob assms(4) in \<open>auto simp: status_edges_def\<close>)
  next
    case (OpDeleteDeadConsumer env c n)
    show ?thesis by (rule kept) (use OpDeleteDeadConsumer job_deleted_kept [OF DeleteDeadJobsForConsumer_effect] in simp)
  next
    case (OpDeleteDeadJob env job n)
    show ?thesis by (rule kept) (use OpDeleteDeadJob job_deleted_kept [OF DeleteDeadJob_effect] in simp)
  next
    case (OpRepark env job)
    show ?thesis by (rule kept) (use OpRepark repark_rows_kept [OF assms(1)] in simp)
  next
    case (OpDrain env msgs cons c n t)
    then show ?thesis using row_ok_kept [OF assms(1,3,4,5)] drain_parked_ids [OF assms(1)] by simp
  next
    case (OpDeleteJobs env m)
    show ?thesis by (rule kept) (use OpDeleteJobs job_deleted_kept [OF DeleteJobsForMessage_effect [OF assms(1)]] in simp)
  next
    case (OpDeleteMessage env m)
    show ?thesis by (rule kept) (use OpDeleteMessage DeleteMessage_effect [OF assms(1), of env m] in simp)
  next
    case (OpPrune env ids)
    show ?thesis by (rule kept) (use OpPrune Prune_effect [OF assms(1), of env ids] in auto)
  next
    case (OpOther f)
    show ?thesis by (rule kept) (use OpOther assms(2) in simp)
  qed
qed

end
