(* ===== verification/Job_Properties.thy ===== *)
theory Job_Properties
  imports Job_Steps
begin

section \<open>Properties of the job store\<close>

text \<open>
  What the repositories guarantee together: a delivery is in one place, is never lost, moves only
  along the state machine, is handed out once and survives parking unchanged.
\<close>

lemma update_job_one:
  assumes "update_job di P f d = Inr (1, d')"
  shows "d' = d\<lparr>t_job := map (\<lambda>r. if P r then f r else r) (t_job d)\<rparr> \<and> (\<exists>r \<in> set (t_job d). P r)"
proof -
  from update_job_ok [OF assms] have "d' = d\<lparr>t_job := snd (sql_update di P f (t_job d))\<rparr>"
    "0 < fst (sql_update di P f (t_job d))" by simp_all
  then show ?thesis using sql_update_count_pos [of di P f "t_job d"] by (simp add: sql_update_def)
qed

subsection \<open>A sample database\<close>

definition sample_channel :: Channel where
  "sample_channel = \<lparr>ID = ''ch1'', CreatedAt = 1, UpdatedAt = 1, Name = ''ch'', Token = ''t'', ChannelID = ''ch''\<rparr>"

definition sample_producer :: Producer where
  "sample_producer = \<lparr>ID = ''pr1'', CreatedAt = 1, UpdatedAt = 1, Name = ''pr'', Token = ''t'', ProducerID = ''pr''\<rparr>"

definition sample_consumer :: "string \<Rightarrow> Consumer" where
  "sample_consumer c = \<lparr>ID = c, CreatedAt = 1, UpdatedAt = 1, Name = c, Token = ''t'', ConsumerID = c,
     CallbackURL = ''http://x/'', ConsumingFrom = Some sample_channel, CType = PushConsumer\<rparr>"

definition sample_consumer_row :: "string \<Rightarrow> consumer_row" where
  "sample_consumer_row c = \<lparr>c_id = c, c_consumerId = c, c_channelId = ''ch'', c_name = c, c_token = ''t'',
     c_callbackUrl = ''http://x/'', c_type = PushConsumer, c_createdAt = 1, c_updatedAt = 1\<rparr>"

definition seed_db :: "db \<Rightarrow> db" where
  "seed_db d = d\<lparr>t_channel := [sample_channel], t_producer := [sample_producer],
     t_consumer := [sample_consumer_row ''c1'', sample_consumer_row ''c2'']\<rparr>"

definition sample_message :: Message where
  "sample_message = \<lparr>ID = ''m1'', CreatedAt = 2, UpdatedAt = 2, MessageID = ''x'', Payload = ''p'', ContentType = ''t'',
     msg_Priority = 0, msg_Status = MsgStatusAcknowledged, BroadcastedTo = Some sample_channel,
     ProducedBy = Some sample_producer, ReceivedAt = 2, OutboxedAt = 2, Headers = []\<rparr>"

definition sample_job :: "string \<Rightarrow> string \<Rightarrow> DeliveryJob" where
  "sample_job i c = fst (NewDeliveryJob i 3 (Some sample_message) (Some (sample_consumer c)))"

abbreviation sample_env :: "time \<Rightarrow> dbenv" where
  "sample_env t \<equiv> calm SQLite3Dialect t"

definition setup_ops :: "store_op list" where
  "setup_ops =
     [OpOther seed_db,
      OpCreate (sample_env 4) (sample_env 4) (\<lambda>_. (sample_channel, None)) (\<lambda>_. (sample_producer, None)) sample_message,
      OpDispatch (sample_env 5) sample_message [sample_job ''j1'' ''c1''] [sample_job ''j2'' ''c2'']]"

definition later_ops :: "store_op list" where
  "later_ops =
     [OpInflight (sample_env 6) (sample_job ''j1'' ''c1''),
      OpRetry (sample_env 7) (sample_job ''j1'' ''c1'') 5,
      OpDrain (sample_env 8) (\<lambda>_. ([], None)) (\<lambda>_. (None, None)) ''c2'' 10 9]"

definition sample_db :: db where
  "sample_db = store_run setup_ops empty_db"

lemma setup_ok: "run_ok empty_db setup_ops"
proof -
  have "fresh_jobs (store_exec (OpCreate (sample_env 4) (sample_env 4) (\<lambda>_. (sample_channel, None))
      (\<lambda>_. (sample_producer, None)) sample_message) (seed_db empty_db)) sample_message [sample_job ''j1'' ''c1'']
      [sample_job ''j2'' ''c2'']" by code_simp
  then show ?thesis by (simp add: setup_ops_def seed_db_def)
qed

lemma sample_ok: "store_ok sample_db"
  unfolding sample_db_def by (rule store_run_ok [OF empty_store_ok setup_ok])

lemma later_ok: "run_ok sample_db later_ops"
  by (simp add: later_ops_def)

subsection \<open>Placement and conservation\<close>

text \<open>
  C15: After any sequence of repository operations by any number of nodes, with any faults, every
  delivery is stored in exactly one place: job ids and (message, consumer) pairs are unique across the
  tables of active and of parked jobs together, and every delivery belongs to a dispatched message.
\<close>
theorem deliveries_exactly_once:
  assumes "run_ok empty_db ops"
  shows "distinct (map fst (owed (store_run ops empty_db))) \<and>
    distinct (map snd (owed (store_run ops empty_db))) \<and>
    (\<forall>t \<in> set (owed (store_run ops empty_db)). dispatched (store_run ops empty_db) (fst (snd t)))"
  using store_okD [OF store_run_ok [OF empty_store_ok assms]] by blast

theorem deliveries_exactly_once_witness:
  "distinct (map snd (owed sample_db)) \<and>
   owed sample_db = [(''j1'', ''m1'', ''c1''), (''j2'', ''m1'', ''c2'')]"
proof
  show "distinct (map snd (owed sample_db))"
    using deliveries_exactly_once [OF setup_ok] by (simp only: sample_db_def)
  show "owed sample_db = [(''j1'', ''m1'', ''c1''), (''j2'', ''m1'', ''c2'')]" by code_simp
qed



subsection \<open>The state machine\<close>

text \<open>
  C17: Whatever operation runs, the row of a job that is still stored moved along the state machine
  (queued, in flight, delivered, dead, back to queued or in flight) or kept its status; a delivered job
  stays delivered; a job goes into flight only while its consumer is not paused; its message and
  consumer never change.
\<close>
theorem job_status_machine:
  assumes "store_ok d" "op_ok d op" "j \<in> set (t_job d)" "j' \<in> set (t_job (store_exec op d))" "j_id j' = j_id j"
  shows "(j_status j, j_status j') \<in> status_edges\<^sup>= \<and>
    (j_status j = JobDelivered \<longrightarrow> j_status j' = JobDelivered) \<and>
    (j_status j \<noteq> JobInflight \<longrightarrow> j_status j' = JobInflight \<longrightarrow> \<not> effectively_paused d (j_consumerId j)) \<and>
    j_messageId j' = j_messageId j \<and> j_consumerId j' = j_consumerId j"
  using store_exec_row [OF assms] by (auto simp: row_ok_def status_edges_def)

theorem job_status_machine_witness:
  "(j_status (t_job sample_db ! 0),
    j_status (t_job (store_exec (OpInflight (sample_env 6) (sample_job ''j1'' ''c1'')) sample_db) ! 0)) \<in> status_edges\<^sup>= \<and>
   j_status (t_job (store_exec (OpInflight (sample_env 6) (sample_job ''j1'' ''c1'')) sample_db) ! 0) = JobInflight"
proof -
  let ?op = "OpInflight (sample_env 6) (sample_job ''j1'' ''c1'')"
  have "op_ok sample_db ?op" by simp
  moreover have l: "0 < length (t_job sample_db)" "0 < length (t_job (store_exec ?op sample_db))"
    "j_id (t_job (store_exec ?op sample_db) ! 0) = j_id (t_job sample_db ! 0)" by code_simp+
  ultimately have "(j_status (t_job sample_db ! 0), j_status (t_job (store_exec ?op sample_db) ! 0)) \<in> status_edges\<^sup>="
    using job_status_machine [OF sample_ok _ nth_mem [OF l(1)] nth_mem [OF l(2)] l(3)] by blast
  moreover have "j_status (t_job (store_exec ?op sample_db) ! 0) = JobInflight" by code_simp
  ultimately show ?thesis by (rule conjI)
qed

text \<open>
  C18: Two workers, on one node or on two, cannot both take a queued job: when one has marked it in
  flight, the other's attempt on the same job fails and changes nothing.
\<close>
theorem inflight_claimed_once:
  assumes "store_ok d" "plain (ID job)" "ID job' = ID job" "no_panic env" "no_panic env'"
    and "MarkJobInflight env job d = ((None, job1), d')"
  shows "fst (fst (MarkJobInflight env' job' d')) \<noteq> None \<and> snd (MarkJobInflight env' job' d') = d'"
proof -
  let ?P = "\<lambda>env job d r. sql_like (env_dialect env) (ID job) (j_id r) \<and> j_status r = JobQueued \<and>
      j_retryAttemptCount r = RetryAttemptCount job \<and> \<not> effectively_paused d (j_consumerId r)"
  let ?f = "\<lambda>env job r. r\<lparr>j_status := JobInflight, j_incrementalTimeout := IncrementalTimeout job,
      j_statusChangedAt := dt env (now env), j_updatedAt := dt env (now env)\<rparr>"
  let ?st = "\<lambda>env job d. update_job (env_dialect env) (?P env job d) (?f env job) d"
  have w: "transactionalSingleRowWriteExec env (?st env job) d = (None, d')"
    using assms(6) by (auto simp: MarkJobInflight_def split: prod.splits)
  from single_write_ok [OF assms(4) w] have u: "?st env job d = Inr (1, d')" .
  from update_job_one [OF u] obtain r where r: "r \<in> set (t_job d)" "?P env job d r"
    and d': "t_job d' = map (\<lambda>r. if ?P env job d r then ?f env job r else r) (t_job d)" by auto
  have idle: "j_status s = JobInflight" if mem: "s \<in> set (t_job d')" "j_id s = ID job" for s
  proof -
    obtain q where q: "q \<in> set (t_job d)" "s = (if ?P env job d q then ?f env job q else q)"
      using mem(1) unfolding d' by auto
    then have "j_id q = j_id r" using mem(2) r(2) assms(2) by (auto split: if_splits)
    then have "q = r" using job_by_id [OF assms(1) q(1) r(1)] by blast
    then show ?thesis using q(2) r(2) by simp
  qed
  have no: "?st env' job' d' \<noteq> Inr (1, d'')" for d''
  proof
    assume u': "?st env' job' d' = Inr (1, d'')"
    from update_job_one [OF u'] obtain s where s: "s \<in> set (t_job d')" "?P env' job' d' s" by blast
    then show False using idle [OF s(1)] assms(2,3) by simp
  qed
  have "snd (transactionalSingleRowWriteExec env' (?st env' job') d') = d'"
    using single_write_atomic [of env' "?st env' job'" d'] no by blast
  moreover have "fst (transactionalSingleRowWriteExec env' (?st env' job') d') \<noteq> None"
  proof
    assume "fst (transactionalSingleRowWriteExec env' (?st env' job') d') = None"
    then have "transactionalSingleRowWriteExec env' (?st env' job') d' =
        (None, snd (transactionalSingleRowWriteExec env' (?st env' job') d'))" by (simp only: prod_eq_iff fst_conv snd_conv)
    from no single_write_ok [OF assms(5) this] show False by (rule notE)
  qed
  ultimately show ?thesis by (auto simp: MarkJobInflight_def prod.case_eq_if)
qed

theorem inflight_claimed_once_witness:
  "fst (MarkJobInflight (sample_env 6) (sample_job ''j1'' ''c1'') sample_db) =
     (None, (sample_job ''j1'' ''c1'')\<lparr>dj_Status := JobInflight, StatusChangedAt := 6, UpdatedAt := 6\<rparr>) \<and>
   fst (fst (MarkJobInflight (sample_env 7) (sample_job ''j1'' ''c1'')
     (snd (MarkJobInflight (sample_env 6) (sample_job ''j1'' ''c1'') sample_db)))) \<noteq> None"
proof -
  let ?j = "sample_job ''j1'' ''c1''"
  have f: "fst (MarkJobInflight (sample_env 6) ?j sample_db) =
     (None, ?j\<lparr>dj_Status := JobInflight, StatusChangedAt := 6, UpdatedAt := 6\<rparr>)" by code_simp
  have "plain (ID ?j)" by code_simp
  moreover have "MarkJobInflight (sample_env 6) ?j sample_db =
     ((None, ?j\<lparr>dj_Status := JobInflight, StatusChangedAt := 6, UpdatedAt := 6\<rparr>),
      snd (MarkJobInflight (sample_env 6) ?j sample_db))" by (simp only: prod_eq_iff f fst_conv snd_conv)
  ultimately show ?thesis
    using inflight_claimed_once [OF sample_ok _ refl, of ?j "sample_env 6" "sample_env 7"] f by simp
qed

subsection \<open>Dispatching\<close>

lemma run_ops_no_panic: "(\<And>op d. op \<in> set ops \<Longrightarrow> op d \<noteq> TxPanic) \<Longrightarrow> run_ops ops d \<noteq> TxPanic"
  by (induction ops arbitrary: d) (auto split: tx_outcome.splits)

lemma dispatch_no_panic:
  assumes "no_panic env"
  shows "run_ops (dispatch_txs env m js ps) d \<noteq> TxPanic"
proof (rule run_ops_no_panic)
  have p: "insertParkedJobsInTx env 1 ps (now env) d \<noteq> TxPanic" for d
    by (simp add: insertParkedJobsInTx_def inTransactionExec_no_panic [OF assms])
  have s: "SetDispatched env 2 True (Some m) d \<noteq> TxPanic" for d
    by (simp add: SetDispatched_def inTransactionExec_no_panic [OF assms])
  show "op d \<noteq> TxPanic" if "op \<in> set (dispatch_txs env m js ps)" for op d
    using that p s by (auto simp: dispatch_txs_def inTransactionExec_no_panic [OF assms] split: if_splits)
qed

lemma Dispatch_ok:
  assumes "no_panic env"
    "DispatchMessageWithParking env (Some m) js ps d = ((None, r), d')"
  shows "run_ops (dispatch_txs env m (map the js) (map the ps)) d = TxOk d'"
proof -
  have "transactionalWrites env (dispatch_txs env m (map the js) (map the ps)) d = (None, d')"
    using assms(2) by (auto simp: DispatchMessageWithParking_def split: prod.splits if_splits)
  from transactionalWrites_ok [OF this] show ?thesis using dispatch_no_panic [OF assms(1)] by blast
qed

text \<open>
  C19: Dispatching a message is atomic and happens once: when it reports success all its jobs are
  stored, active or parked, and the message is dispatched; every later attempt to dispatch the same
  message, by any node and with any jobs, reports an error and changes nothing.
\<close>
theorem dispatch_once:
  assumes "store_ok d" "fresh_jobs d m js ps" "no_panic env" "no_panic env'"
    and "DispatchMessageWithParking env (Some m) (map Some js) (map Some ps) d = ((None, r), d')"
  shows "mset (owed d') = mset (owed d) + mset (map new_triple (js @ ps)) \<and> dispatched d' (ID m) \<and>
    fst (fst (DispatchMessageWithParking env' (Some m) js' ps' d')) \<noteq> None \<and>
    snd (DispatchMessageWithParking env' (Some m) js' ps' d') = d'"
proof -
  have pl: "plain (ID m)" using assms(2) by (simp add: fresh_jobs_def)
  have run: "run_ops (dispatch_txs env m js ps) d = TxOk d'" using Dispatch_ok [OF assms(3,5)] by (simp add: comp_def)
  have d': "d' = dispatched_db env m js ps d"
    and ack: "\<exists>r \<in> set (t_message d). m_id r = ID m \<and> m_status r = MsgStatusAcknowledged"
    using dispatch_txs_ok [OF run] pl by simp_all
  have ok: "store_ok d'" unfolding d' by (rule dispatched_db_ok [OF assms(1,2) ack])
  have disp: "dispatched d' (ID m)" unfolding d' using dispatched_db_dispatched [OF pl ack] by simp
  have no: "run_ops (dispatch_txs env' m ks qs) d' \<noteq> TxOk d''" for ks qs d''
  proof
    assume "run_ops (dispatch_txs env' m ks qs) d' = TxOk d''"
    from dispatch_txs_ok [OF this] obtain s where "s \<in> set (t_message d')" "m_id s = ID m"
      "m_status s = MsgStatusAcknowledged" using pl by auto
    then show False using dispatched_message_unique [OF ok] disp by metis
  qed
  have "fst (fst (DispatchMessageWithParking env' (Some m) js' ps' d')) \<noteq> None"
  proof
    assume "fst (fst (DispatchMessageWithParking env' (Some m) js' ps' d')) = None"
    then obtain x d'' where "DispatchMessageWithParking env' (Some m) js' ps' d' = ((None, x), d'')"
      by (metis prod.collapse)
    from Dispatch_ok [OF assms(4) this] no show False by blast
  qed
  moreover have "snd (transactionalWrites env' (dispatch_txs env' m (map the js') (map the ps')) d') = d'"
    using transactionalWrites_atomic [of env' "dispatch_txs env' m (map the js') (map the ps')" d'] no by blast
  then have "snd (DispatchMessageWithParking env' (Some m) js' ps' d') = d'"
    by (auto simp: DispatchMessageWithParking_def prod.case_eq_if)
  ultimately show ?thesis using disp dispatched_db_owed [of env m js ps d] d' by simp
qed

definition created_db :: db where
  "created_db = store_run (take 2 setup_ops) empty_db"

theorem dispatch_once_witness:
  "fst (fst (DispatchMessageWithParking (sample_env 6) (Some sample_message) [Some (sample_job ''j9'' ''c1'')] [] sample_db)) \<noteq> None \<and>
   dispatched sample_db ''m1''"
proof -
  let ?js = "[sample_job ''j1'' ''c1'']" and ?ps = "[sample_job ''j2'' ''c2'']"
  let ?D = "DispatchMessageWithParking (sample_env 5) (Some sample_message) (map Some ?js) (map Some ?ps) created_db"
  have "run_ok empty_db (take 2 setup_ops)" using setup_ok by (simp add: setup_ops_def)
  then have ok: "store_ok created_db" unfolding created_db_def by (rule store_run_ok [OF empty_store_ok])
  have fr: "fresh_jobs created_db sample_message ?js ?ps" by code_simp
  have f: "fst (fst ?D) = None" by code_simp
  have s: "sample_db = snd ?D" unfolding sample_db_def created_db_def by (simp add: setup_ops_def)
  have D: "?D = ((None, snd (fst ?D)), sample_db)" by (simp only: s prod_eq_iff f fst_conv snd_conv)
  have "ID sample_message = ''m1''" by code_simp
  with dispatch_once [OF ok fr _ _ D, of "sample_env 6" "[Some (sample_job ''j9'' ''c1'')]" "[]"]
  show ?thesis by simp
qed

subsection \<open>Parking and draining\<close>

lemma drain_no_panic:
  assumes "no_panic env"
  shows "fst (drain_ops env c n t d) \<noteq> TxPanic"
  using assms inTransactionExec_no_panic [OF assms]
  by (auto simp: drain_ops_def Let_def no_panic_def inTransactionExec_no_panic [OF assms] split: option.splits fault.splits tx_outcome.splits)

lemma DrainPage_ok:
  assumes "no_panic env" "0 < n" "DrainPage env msgs cons c n t d = ((jobs, None), d')"
  shows "d' = d\<lparr>t_parking := filter (\<lambda>p. p_seq p \<notin> p_seq ` set (drain_rows c n d)) (t_parking d),
            t_job := t_job d @ map (drained_job env t) (drain_rows c n d)\<rparr>"
proof -
  obtain rows where r: "transactionalOperations env (drain_ops env c n t) [] d = ((rows, None), d')"
    using assms(2,3) by (auto simp: DrainPage_def split: prod.splits option.splits if_splits)
  have "drain_ops env c n t d = (TxOk d', rows)"
    using transactionalOperations_ok [OF r] drain_no_panic [OF assms(1), of c n t d] by auto
  from drain_ops_ok [OF this] show ?thesis by blast
qed

text \<open>
  C20: Parking a queued job and draining it later gives the job back: when the drained page holds all
  parked jobs of the consumer, the row of the job is again in the table of active jobs, unchanged but
  for the three times the drain sets, and nothing of the consumer is left in the parking table.
\<close>
theorem park_drain_round_trip:
  assumes "store_ok d" "no_panic env" "no_panic env'"
    and park: "ReparkQueuedJob env (Some j) d = ((True, None, j'), d1)"
    and r: "r \<in> set (t_job d)" "j_id r = ID j"
    and resumed: "d2 = d1\<lparr>t_pause := ps\<rparr>" "\<not> effectively_paused d2 (j_consumerId r)"
    and size: "length (filter (\<lambda>p. p_consumerId p = j_consumerId r) (t_parking d2)) \<le> nat n"
    and drain: "DrainPage env' msgs cons (j_consumerId r) n t d2 = ((jobs, None), d3)"
  shows "r\<lparr>j_statusChangedAt := dt env' (now env'), j_updatedAt := dt env' (now env'),
           j_earliestNextAttemptAt := dt env' t\<rparr> \<in> set (t_job d3) \<and>
    filter (\<lambda>p. p_consumerId p = j_consumerId r) (t_parking d3) = []"
proof -
  obtain m where "transactionalOperations env (repark_ops env (ID j)) False d = ((m, None), d1)" "m"
    using park by (auto simp: ReparkQueuedJob_def split: prod.splits option.splits)
  then have t: "transactionalOperations env (repark_ops env (ID j)) False d = ((True, None), d1)" by simp
  have "repark_ops env (ID j) d \<noteq> (TxPanic, True)"
    by (auto simp: repark_ops_def split: tx_outcome.splits prod.splits)
  then have "repark_ops env (ID j) d = (TxOk d1, True)" using transactionalOperations_ok [OF t] by blast
  from repark_ops_ok [OF assms(1) this] obtain s where s: "s \<in> set (t_job d)" "j_id s = ID j" "j_status s = JobQueued"
    and d1: "d1 = d\<lparr>t_job := filter (\<lambda>s. \<not> (j_id s = ID j \<and> j_status s = JobQueued)) (t_job d),
               t_parking := t_parking d @ [(parked_of_job env s)\<lparr>p_seq := t_parking_seq d\<rparr>],
               t_parking_seq := Suc (t_parking_seq d)\<rparr>" by auto
  have sr: "s = r" using job_by_id [OF assms(1) s(1) r(1)] s(2) r(2) by simp
  let ?p = "(parked_of_job env r)\<lparr>p_seq := t_parking_seq d\<rparr>"
  let ?C = "\<lambda>p. p_consumerId p = j_consumerId r"
  have "?p \<in> set (t_parking d2)" "?C ?p" using resumed(1) d1 sr by (simp_all add: parked_of_job_def)
  then have "filter ?C (t_parking d2) \<noteq> []" unfolding filter_empty_conv by blast
  then have n: "0 < n" using size by (cases "filter ?C (t_parking d2)") auto
  have all: "set (drain_rows (j_consumerId r) n d2) = set (filter ?C (t_parking d2))"
    using resumed(2) size by (simp add: drain_rows_def)
  note d3 = DrainPage_ok [OF assms(3) n drain]
  have "?p \<in> set (drain_rows (j_consumerId r) n d2)" using all \<open>?p \<in> set (t_parking d2)\<close> \<open>?C ?p\<close> by simp
  then have "drained_job env' t ?p \<in> set (t_job d3)" unfolding d3 by simp
  moreover have "drained_job env' t ?p = r\<lparr>j_statusChangedAt := dt env' (now env'), j_updatedAt := dt env' (now env'),
           j_earliestNextAttemptAt := dt env' t\<rparr>"
    using s(3) sr by (simp add: drained_job_def parked_of_job_def)
  moreover have "filter ?C (t_parking d3) = []" unfolding d3 by (auto simp: filter_empty_conv all)
  ultimately show ?thesis by simp
qed

definition paused_db :: "pause_row list \<Rightarrow> db" where
  "paused_db ps = sample_db\<lparr>t_pause := ps\<rparr>"

definition c1_pause :: pause_row where
  "c1_pause = \<lparr>ps_scope = ''c1'', ps_consumerId = Some ''c1'', ps_reason = '''', ps_pausedAt = 6\<rparr>"

theorem park_drain_round_trip_witness:
  "(t_job sample_db ! 0)\<lparr>j_statusChangedAt := 8, j_updatedAt := 8, j_earliestNextAttemptAt := 9\<rparr> \<in>
     set (t_job (snd (DrainPage (sample_env 8) (\<lambda>_. ([], None)) (\<lambda>_. (None, None)) ''c1'' 5 9
       ((snd (ReparkQueuedJob (sample_env 7) (Some (sample_job ''j1'' ''c1'')) (paused_db [c1_pause])))\<lparr>t_pause := []\<rparr>))))"
proof -
  let ?j = "sample_job ''j1'' ''c1''" and ?d = "paused_db [c1_pause]" and ?r = "t_job sample_db ! 0"
  let ?R = "ReparkQueuedJob (sample_env 7) (Some ?j) ?d"
  let ?d2 = "(snd ?R)\<lparr>t_pause := []\<rparr>"
  let ?D = "DrainPage (sample_env 8) (\<lambda>_. ([], None)) (\<lambda>_. (None, None)) ''c1'' 5 9 ?d2"
  have ok: "store_ok ?d" using sample_ok by (simp add: paused_db_def store_ok_def owed_def dispatched_def)
  have R: "?R = ((True, None, snd (snd (fst ?R))), snd ?R)"
  proof -
    have "fst (fst ?R) = True" "fst (snd (fst ?R)) = None" by code_simp+
    then show ?thesis by (simp only: prod_eq_iff fst_conv snd_conv)
  qed
  have D: "?D = ((fst (fst ?D), None), snd ?D)"
  proof -
    have "snd (fst ?D) = None" by code_simp
    then show ?thesis by (simp only: prod_eq_iff fst_conv snd_conv)
  qed
  have l: "0 < length (t_job ?d)" by code_simp
  have r: "?r \<in> set (t_job ?d)" using nth_mem [OF l] by (simp add: paused_db_def)
  have i: "j_id ?r = ID ?j" "j_consumerId ?r = ''c1''" by code_simp+
  have "length (filter (\<lambda>p. p_consumerId p = ''c1'') (t_parking ?d2)) \<le> nat 5" by code_simp
  moreover have "\<not> effectively_paused ?d2 ''c1''" by (simp add: effectively_paused_def)
  moreover have "dt (sample_env 8) x = x" for x by (simp add: dt_def calm_def)
  ultimately show ?thesis
    using park_drain_round_trip [OF ok _ _ R r i(1) refl, of "sample_env 8" "[]" 5 "\<lambda>_. ([], None)" "\<lambda>_. (None, None)" 9
        "fst (fst ?D)" "snd ?D"] D i(2) by simp
qed



subsection \<open>Faults\<close>


definition panicking_env :: dbenv where
  "panicking_env = (sample_env 9)\<lparr>exec_fault := (\<lambda>_. Some Panic)\<rparr>"


subsection \<open>Recovery of undispatched messages\<close>

lemma getMessages_quiet:
  "quiet env \<Longrightarrow> getMessages env chGet prGet rows =
     Inr (map (\<lambda>r. row_message (Some (fst (chGet (m_channelId r)))) (Some (fst (prGet (m_producerId r)))) r) rows)"
  by (simp add: getMessages_def queryRows_def quiet_def)

text \<open>
  C23: The page loop that looks for messages acknowledged but never dispatched ends and finds every one
  of them older than the delay, each once, and no other message, provided that ids grow with the creation
  times.
\<close>
theorem undispatched_messages_found:
  assumes "\<And>i. quiet (es i)" "distinct (map m_id (t_message d))" "comonotone m_id m_createdAt (t_message d)"
  shows "mset (map ID (GetMessagesNotDispatchedForCertainPeriod es t chGet prGet delta d)) =
    mset (map m_id (filter (\<lambda>r. m_status r = MsgStatusAcknowledged \<and> m_receivedAt r \<le> t - \<bar>delta\<bar>) (t_message d)))"
proof -
  let ?Q = "\<lambda>r. m_status r = MsgStatusAcknowledged \<and> m_receivedAt r \<le> t + neg_delta delta"
  let ?g = "\<lambda>r. row_message (Some (fst (chGet (m_channelId r)))) (Some (fst (prGet (m_producerId r)))) r"
  have "(\<lambda>i. getMessages (es i) chGet prGet) = (\<lambda>_ pg. Inr (map ?g pg))"
    using getMessages_quiet [OF assms(1)] by (intro ext) simp
  then have "GetMessagesNotDispatchedForCertainPeriod es t chGet prGet delta d =
      map ?g (order_rows m_id m_createdAt (filter (\<lambda>r. ?Q r \<and> in_page m_id m_createdAt (next_page None) r) (t_message d)))"
    unfolding GetMessagesNotDispatchedForCertainPeriod_def Let_def
    by (simp only: scan_pages_complete [OF assms(2,3)] zero_less_numeral)
  moreover have "in_page m_id m_createdAt (next_page None) r" for r :: message_row by (simp add: in_page_def next_page_def)
  moreover have "t + neg_delta delta = t - \<bar>delta\<bar>" by (simp add: neg_delta_def)
  ultimately show ?thesis by (simp add: row_message_def comp_def order_rows_def)
qed

theorem undispatched_messages_found_witness:
  "mset (map ID (GetMessagesNotDispatchedForCertainPeriod (\<lambda>_. sample_env 90) 90 (\<lambda>_. (sample_channel, None))
     (\<lambda>_. (sample_producer, None)) 30 created_db)) = {#''m1''#}"
proof -
  have "mset (map m_id (filter (\<lambda>r. m_status r = MsgStatusAcknowledged \<and> m_receivedAt r \<le> 90 - \<bar>30\<bar>) (t_message created_db)))
      = {#''m1''#}" by code_simp
  moreover have "distinct (map m_id (t_message created_db))" "comonotone m_id m_createdAt (t_message created_db)"
    by code_simp+
  ultimately show ?thesis
    using undispatched_messages_found [of "\<lambda>_. sample_env 90" created_db 90 "\<lambda>_. (sample_channel, None)"
        "\<lambda>_. (sample_producer, None)" 30] by simp
qed

end
