(* ===== verification/Worker.thy ===== *)
theory Worker
  imports Config Lanes Job_Properties
begin

section \<open>Delivering one job: dispatcher/worker.go\<close>

text \<open>
  The HTTP transport is the parameter \<open>http_Do\<close>: it answers a request with a status code, fails, or
  panics.  Header names are canonical as in \<^verbatim>\<open>net/http\<close>, and the metadata headers of a message are
  given in the order in which the map iteration yields them.  \<open>computeEarliestDelta\<close> of
  \<^verbatim>\<open>msgdispatcher.go\<close> is here because the worker uses it; \<open>None\<close> is an index panic.
\<close>

subsection \<open>HTTP headers\<close>

definition is_tchar :: "char \<Rightarrow> bool" where
  "is_tchar c \<longleftrightarrow> is_alpha c \<or> is_digit c \<or> c \<in> set ''!#$%&*+-.^_`|~'' \<or> ord c = 39"

definition upper :: "char \<Rightarrow> char" where
  "upper c = (if 97 \<le> ord c \<and> ord c \<le> 122 then char_of (ord c - 32) else c)"

definition lower :: "char \<Rightarrow> char" where
  "lower c = (if 65 \<le> ord c \<and> ord c \<le> 90 then char_of (ord c + 32) else c)"

fun canonical_from :: "bool \<Rightarrow> string \<Rightarrow> string" where
  "canonical_from up [] = []"
| "canonical_from up (c # s) = (if up then upper c else lower c) # canonical_from (c = CHR ''-'') s"

definition CanonicalHeaderKey :: "string \<Rightarrow> string" where
  "CanonicalHeaderKey s = (if list_all is_tchar s then canonical_from True s else s)"

type_synonym http_header = "(string, string list) gomap"

definition header_Set :: "string \<Rightarrow> string \<Rightarrow> http_header \<Rightarrow> http_header" where
  "header_Set k v h = mput (CanonicalHeaderKey k) [v] h"

definition header_Add :: "string \<Rightarrow> string \<Rightarrow> http_header \<Rightarrow> http_header" where
  "header_Add k v h =
     (let key = CanonicalHeaderKey k; old = (case mget h key of None \<Rightarrow> [] | Some vs \<Rightarrow> vs) in mput key (old @ [v]) h)"

definition header_Get :: "string \<Rightarrow> http_header \<Rightarrow> string" where
  "header_Get k h = (case mget h (CanonicalHeaderKey k) of Some (v # _) \<Rightarrow> v | _ \<Rightarrow> '''')"

record http_request =
  req_Method :: string
  req_URL :: string
  req_Body :: string
  req_Header :: http_header

datatype http_outcome = HttpStatus nat | HttpError error | HttpPanic

type_synonym http_client = "http_request \<Rightarrow> http_outcome"

subsection \<open>Calling the consumer\<close>

fun dec_digits :: "nat \<Rightarrow> string" where
  "dec_digits n = (if n < 10 then [char_of (48 + n)] else dec_digits (n div 10) @ [char_of (48 + n mod 10)])"

declare dec_digits.simps [simp del]

fun join_with :: "string \<Rightarrow> string list \<Rightarrow> string" where
  "join_with sep [] = []"
| "join_with sep [x] = x"
| "join_with sep (x # y # xs) = x @ sep @ join_with sep (y # xs)"

definition build_request :: "Config \<Rightarrow> string \<Rightarrow> Job \<Rightarrow> Message \<Rightarrow> Channel \<Rightarrow> Consumer \<Rightarrow> http_request" where
  "build_request cfg requestID job message channel listener =
     (let h0 = [];
          h1 = header_Set ''Content-Type'' (ContentType message) h0;
          h2 = header_Set ''X-Broker-Message-Priority'' (dec_digits (Priority job)) h1;
          h3 = header_Set ''X-Broker-Channel-ID'' (ChannelID channel) h2;
          h4 = header_Set ''X-Broker-Consumer-ID'' (ConsumerID listener) h3;
          h5 = header_Set (TokenRequestHeaderName cfg) (Token listener) h4;
          h6 = header_Set ''User-Agent'' (UserAgent cfg) h5;
          h7 = header_Set ''X-Request-ID'' requestID h6;
          h8 = header_Set ''X-Broker-Message-ID'' (MessageID message) h7;
          h9 = fold (\<lambda>(k, v). header_Set k v) (Headers message) h8;
          h10 = header_Add ''X-Broker-Metadata-Headers'' (join_with '','' (sort (map fst (Headers message)))) h9
      in \<lparr>req_Method = ''POST'', req_URL = CallbackURL listener, req_Body = Payload message, req_Header = h10\<rparr>)"

text \<open>
  A result of \<open>None\<close> is a panic: a nil listener, message or channel, or a panic of the client.
\<close>

definition callConsumer :: "http_client \<Rightarrow> Config \<Rightarrow> string \<Rightarrow> Job \<Rightarrow> error option option" where
  "callConsumer http_Do cfg requestID job =
     (case (Listener (Data job), dj_Message (Data job)) of
        (Some listener, Some message) \<Rightarrow>
          if url_Parse (CallbackURL listener) = None then Some (Some (IOError ''parse''))
          else
            (case BroadcastedTo message of
               None \<Rightarrow> None
             | Some channel \<Rightarrow>
                 (case http_Do (build_request cfg requestID job message channel listener) of
                    HttpPanic \<Rightarrow> None
                  | HttpError e \<Rightarrow> Some (Some e)
                  | HttpStatus code \<Rightarrow> Some (if code < 200 \<or> code > 299 then Some ErrConsumer else None)))
      | _ \<Rightarrow> None)"

definition executeJob :: "http_client \<Rightarrow> Config \<Rightarrow> string \<Rightarrow> Job \<Rightarrow> error option" where
  "executeJob http_Do cfg requestID job =
     (case callConsumer http_Do cfg requestID job of None \<Rightarrow> Some ErrPanicInExecuteJob | Some err \<Rightarrow> err)"

subsection \<open>Back-off\<close>

definition computeEarliestDelta :: "nat \<Rightarrow> Config \<Rightarrow> duration option" where
  "computeEarliestDelta retryAttempt cfg =
     (let delays = RetryBackoffDelays cfg; backoffsCount = length delays
      in if retryAttempt < backoffsCount then
           (if retryAttempt = 0 then None else Some (delays ! (retryAttempt - 1)))
         else if backoffsCount = 0 then None
         else Some (wrap64 ((int retryAttempt - int backoffsCount + 1) * delays ! (backoffsCount - 1))))"

subsection \<open>deliverJob\<close>

text \<open>
  The job parking repository and the counter of parked jobs; \<open>reparkJob\<close> is a function of
  \<^verbatim>\<open>msgdispatcher.go\<close>.
\<close>

definition count_parked :: "string \<Rightarrow> nat \<Rightarrow> (string, nat) gomap \<Rightarrow> (string, nat) gomap" where
  "count_parked reason n m = mput reason ((case mget m reason of None \<Rightarrow> 0 | Some k \<Rightarrow> k) + n) m"

definition reparkJob ::
  "dbenv \<Rightarrow> DeliveryJob \<Rightarrow> string \<Rightarrow> (string, nat) gomap \<Rightarrow> db \<Rightarrow> bool \<times> (string, nat) gomap \<times> db" where
  "reparkJob env job reason parked d =
     (case ReparkQueuedJob env (Some job) d of
        ((_, Some e, _), d') \<Rightarrow> (False, parked, d')
      | ((mv, None, _), d') \<Rightarrow> (mv, if mv then count_parked reason 1 parked else parked, d'))"

definition ParkReasonWorker :: string where
  "ParkReasonWorker = ''worker''"

text \<open>
  \<open>es i\<close> is the environment of the \<open>i\<close>-th call to the database.  \<open>None\<close> is a panic, which nothing
  recovers here: \<open>computeEarliestDelta\<close> out of range, or the log lines of a failed delivery, which read
  the message, its channel and the listener.
\<close>

definition loggable :: "DeliveryJob \<Rightarrow> bool" where
  "loggable job \<longleftrightarrow> Listener job \<noteq> None \<and>
     (case dj_Message job of None \<Rightarrow> False | Some m \<Rightarrow> BroadcastedTo m \<noteq> None)"

definition deliverJob ::
  "(nat \<Rightarrow> dbenv) \<Rightarrow> http_client \<Rightarrow> Config \<Rightarrow> string \<Rightarrow> Job \<Rightarrow> (string, nat) gomap \<Rightarrow> db \<Rightarrow>
   (((string, nat) gomap) \<times> db) option" where
  "deliverJob es http_Do cfg reqID job parked d =
     (case MarkJobInflight (es 0) (Data job) d of
        ((Some _, _), d1) \<Rightarrow>
          (case reparkJob (es 1) (Data job) ParkReasonWorker parked d1 of (_, parked', d2) \<Rightarrow> Some (parked', d2))
      | ((None, job1), d1) \<Rightarrow>
          let job' = job\<lparr>Data := job1\<rparr>
          in (case executeJob http_Do cfg reqID job' of
                None \<Rightarrow> Some (parked, snd (MarkJobDelivered (es 1) job1 d1))
              | Some _ \<Rightarrow>
                  if \<not> loggable job1 then None
                  else if RetryAttemptCount job1 \<ge> MaxRetry cfg then Some (parked, snd (MarkJobDead (es 1) job1 d1))
                  else map_option (\<lambda>delta. (parked, snd (MarkJobRetry (es 1) job1 delta d1)))
                         (computeEarliestDelta (RetryAttemptCount job1 + 1) cfg)))"

subsection \<open>What a delivery attempt does to the row of its job\<close>

lemma update_one_row:
  assumes "distinct (map key rows)" "r \<in> set rows" "P r" "\<And>s. P s \<Longrightarrow> key s = key r" "f r \<noteq> r"
  shows "sql_update di P f rows = (1, map (\<lambda>s. if s = r then f r else s) rows)"
proof -
  have eq: "P s \<longleftrightarrow> s = r" if "s \<in> set rows" for s
    using assms(1-4) that by (auto simp: distinct_map dest: inj_onD)
  have "filter (\<lambda>s. P s \<and> (di = MySQLDialect \<longrightarrow> f s \<noteq> s)) rows = filter (\<lambda>s. key s = key r) rows"
    by (rule filter_cong) (use eq assms(1,2,5) in \<open>auto simp: distinct_map dest: inj_onD\<close>)
  also have "\<dots> = [r]" by (rule filter_key_unique [OF assms(1,2)])
  finally show ?thesis by (simp add: sql_update_def eq cong: map_cong)
qed

lemma single_job_update:
  assumes "quiet env" "store_ok d" "r \<in> set (t_job d)" "P d r" "\<And>s. P d s \<Longrightarrow> j_id s = j_id r"
    "j_status (f r) \<noteq> j_status r"
  shows "transactionalSingleRowWriteExec env (\<lambda>d. update_job (env_dialect env) (P d) f d) d =
    (None, d\<lparr>t_job := map (\<lambda>s. if s = r then f r else s) (t_job d)\<rparr>)"
proof -
  have "sql_update (env_dialect env) (P d) f (t_job d) = (1, map (\<lambda>s. if s = r then f r else s) (t_job d))"
    using update_one_row [where key = j_id and P = "P d" and f = f, OF store_ok_job_ids [OF assms(2)] assms(3,4,5)] assms(6)
    by fastforce
  then show ?thesis by (simp add: single_write_quiet [OF assms(1)] update_job_def)
qed

definition job_row_is :: "db \<Rightarrow> job_row \<Rightarrow> bool" where
  "job_row_is d r \<longleftrightarrow> store_ok d \<and> r \<in> set (t_job d)"

lemma job_row_replaced:
  assumes "job_row_is d r" "job_triple r' = job_triple r" "j_status r' \<in> job_statuses"
  shows "job_row_is (d\<lparr>t_job := map (\<lambda>s. if s = r then r' else s) (t_job d)\<rparr>) r'"
proof -
  have u: "map (\<lambda>s. if s = r then r' else s) (t_job d) =
      snd (sql_update MySQLDialect (\<lambda>s. s = r) (\<lambda>s. if s = r then r' else s\<lparr>j_status := JobQueued\<rparr>) (t_job d))"
    by (auto simp: sql_update_def)
  have "store_ok (d\<lparr>t_job := snd (sql_update MySQLDialect (\<lambda>s. s = r)
      (\<lambda>s. if s = r then r' else s\<lparr>j_status := JobQueued\<rparr>) (t_job d))\<rparr>)"
    by (rule store_ok_update) (use assms in \<open>auto simp: job_row_is_def job_triple_def job_statuses_def\<close>)
  then have "store_ok (d\<lparr>t_job := map (\<lambda>s. if s = r then r' else s) (t_job d)\<rparr>)" by (simp only: u)
  moreover have "r' \<in> set (map (\<lambda>s. if s = r then r' else s) (t_job d))" using assms(1) by (auto simp: job_row_is_def)
  ultimately show ?thesis by (simp add: job_row_is_def)
qed

lemma MarkJobInflight_row:
  assumes "quiet env" "job_row_is d r" "plain (ID job)" "j_id r = ID job" "j_status r = JobQueued"
    "j_retryAttemptCount r = RetryAttemptCount job" "\<not> effectively_paused d (j_consumerId r)"
  shows "\<exists>d'. MarkJobInflight env job d =
      ((None, job\<lparr>dj_Status := JobInflight, StatusChangedAt := now env, UpdatedAt := now env\<rparr>), d') \<and>
    job_row_is d' (r\<lparr>j_status := JobInflight, j_incrementalTimeout := IncrementalTimeout job,
      j_statusChangedAt := dt env (now env), j_updatedAt := dt env (now env)\<rparr>)"
proof -
  let ?f = "\<lambda>r. r\<lparr>j_status := JobInflight, j_incrementalTimeout := IncrementalTimeout job,
      j_statusChangedAt := dt env (now env), j_updatedAt := dt env (now env)\<rparr>"
  let ?P = "\<lambda>d r. sql_like (env_dialect env) (ID job) (j_id r) \<and> j_status r = JobQueued \<and>
      j_retryAttemptCount r = RetryAttemptCount job \<and> \<not> effectively_paused d (j_consumerId r)"
  have "transactionalSingleRowWriteExec env (\<lambda>d. update_job (env_dialect env) (?P d) ?f d) d =
      (None, d\<lparr>t_job := map (\<lambda>s. if s = r then ?f r else s) (t_job d)\<rparr>)"
    by (rule single_job_update [where P = ?P and f = ?f and r = r]) (use assms in \<open>auto simp: job_row_is_def\<close>)
  then have "MarkJobInflight env job d =
      ((None, job\<lparr>dj_Status := JobInflight, StatusChangedAt := now env, UpdatedAt := now env\<rparr>),
       d\<lparr>t_job := map (\<lambda>s. if s = r then ?f r else s) (t_job d)\<rparr>)"
    by (simp add: MarkJobInflight_def)
  moreover have "job_row_is (d\<lparr>t_job := map (\<lambda>s. if s = r then ?f r else s) (t_job d)\<rparr>) (?f r)"
    by (rule job_row_replaced [OF assms(2)]) (simp_all add: job_triple_def job_statuses_def)
  ultimately show ?thesis by blast
qed

lemma updateJobStatus_row:
  assumes "quiet env" "job_row_is d r" "plain (ID job)" "j_id r = ID job" "j_status r = from" "to \<noteq> from"
    "to \<in> job_statuses"
  shows "job_row_is (snd (updateJobStatus env job from to d)) (r\<lparr>j_status := to,
    j_incrementalTimeout := IncrementalTimeout job, j_statusChangedAt := dt env (now env), j_updatedAt := dt env (now env)\<rparr>)"
proof -
  let ?f = "\<lambda>r. r\<lparr>j_status := to, j_incrementalTimeout := IncrementalTimeout job,
      j_statusChangedAt := dt env (now env), j_updatedAt := dt env (now env)\<rparr>"
  let ?P = "\<lambda>d r. sql_like (env_dialect env) (ID job) (j_id r) \<and> j_status r = from \<and> True"
  have "transactionalSingleRowWriteExec env (\<lambda>d. update_job (env_dialect env) (?P d) ?f d) d =
      (None, d\<lparr>t_job := map (\<lambda>s. if s = r then ?f r else s) (t_job d)\<rparr>)"
    by (rule single_job_update [where P = ?P and f = ?f and r = r]) (use assms in \<open>auto simp: job_row_is_def\<close>)
  moreover have "job_row_is (d\<lparr>t_job := map (\<lambda>s. if s = r then ?f r else s) (t_job d)\<rparr>) (?f r)"
    by (rule job_row_replaced [OF assms(2)]) (simp_all add: job_triple_def assms(7))
  ultimately show ?thesis by (simp add: updateJobStatus_def updateJobStatusWithQuery_def)
qed

lemma MarkJobRetry_row:
  assumes "quiet env" "job_row_is d r" "plain (ID job)" "j_id r = ID job" "j_status r = JobInflight"
  shows "job_row_is (snd (MarkJobRetry env job delta d)) (r\<lparr>j_status := JobQueued,
    j_statusChangedAt := dt env (now env), j_updatedAt := dt env (now env),
    j_earliestNextAttemptAt := dt env (now env + delta), j_retryAttemptCount := RetryAttemptCount job + 1\<rparr>)"
proof -
  let ?f = "\<lambda>r. r\<lparr>j_status := JobQueued, j_statusChangedAt := dt env (now env), j_updatedAt := dt env (now env),
      j_earliestNextAttemptAt := dt env (now env + delta), j_retryAttemptCount := RetryAttemptCount job + 1\<rparr>"
  let ?P = "\<lambda>d r. sql_like (env_dialect env) (ID job) (j_id r) \<and> j_status r = JobInflight"
  have "transactionalSingleRowWriteExec env (\<lambda>d. update_job (env_dialect env) (?P d) ?f d) d =
      (None, d\<lparr>t_job := map (\<lambda>s. if s = r then ?f r else s) (t_job d)\<rparr>)"
    by (rule single_job_update [where P = ?P and f = ?f and r = r]) (use assms in \<open>auto simp: job_row_is_def\<close>)
  moreover have "job_row_is (d\<lparr>t_job := map (\<lambda>s. if s = r then ?f r else s) (t_job d)\<rparr>) (?f r)"
    by (rule job_row_replaced [OF assms(2)]) (simp_all add: job_triple_def job_statuses_def)
  ultimately show ?thesis by (simp add: MarkJobRetry_def Let_def)
qed

lemma executeJob_status:
  "executeJob http_Do cfg rid (job\<lparr>Data := (Data job)\<lparr>dj_Status := st, StatusChangedAt := t, UpdatedAt := u\<rparr>\<rparr>) =
   executeJob http_Do cfg rid job"
proof -
  let ?job = "job\<lparr>Data := (Data job)\<lparr>dj_Status := st, StatusChangedAt := t, UpdatedAt := u\<rparr>\<rparr>"
  have "build_request cfg rid ?job m ch c = build_request cfg rid job m ch c" for m ch c
    unfolding build_request_def by simp
  then have "callConsumer http_Do cfg rid ?job = callConsumer http_Do cfg rid job"
    unfolding callConsumer_def by (cases "Listener (Data job)"; cases "dj_Message (Data job)") (auto split: option.splits)
  then show ?thesis by (simp add: executeJob_def)
qed


definition sample_client :: "nat \<Rightarrow> http_client" where
  "sample_client code = (\<lambda>_. HttpStatus code)"

definition sample_cfg :: Config where
  "sample_cfg = zero_config\<lparr>MaxRetry := 3, RetryBackoffDelays := [5, 30], TokenRequestHeaderName := ''X-Token''\<rparr>"

abbreviation sample_envs :: "nat \<Rightarrow> dbenv" where
  "sample_envs \<equiv> (\<lambda>i. sample_env (int i + 10))"

definition j1_row :: job_row where
  "j1_row = t_job sample_db ! 0"

lemma j1_row:
  "j1_row \<in> set (t_job sample_db)" "j_id j1_row = ''j1''" "j_status j1_row = JobQueued"
  "j_retryAttemptCount j1_row = 0" "j_consumerId j1_row = ''c1''"
proof -
  have "0 < length (t_job sample_db)" by code_simp
  then show "j1_row \<in> set (t_job sample_db)" unfolding j1_row_def by (rule nth_mem)
qed (code_simp+)

definition j1_job :: Job where
  "j1_job = NewJob (Job_Properties.sample_job ''j1'' ''c1'')"


subsection \<open>Paused consumers\<close>

lemma MarkJobInflight_paused:
  assumes "no_panic env" "store_ok d" "plain (ID job)" "r \<in> set (t_job d)" "j_id r = ID job"
    "effectively_paused d (j_consumerId r)"
  shows "\<exists>e. MarkJobInflight env job d = ((Some e, job), d)"
proof -
  let ?P = "\<lambda>d r. sql_like (env_dialect env) (ID job) (j_id r) \<and> j_status r = JobQueued \<and>
      j_retryAttemptCount r = RetryAttemptCount job \<and> \<not> effectively_paused d (j_consumerId r)"
  let ?f = "\<lambda>r. r\<lparr>j_status := JobInflight, j_incrementalTimeout := IncrementalTimeout job,
      j_statusChangedAt := dt env (now env), j_updatedAt := dt env (now env)\<rparr>"
  let ?st = "\<lambda>d. update_job (env_dialect env) (?P d) ?f d"
  have no: "?st d \<noteq> Inr (1, d')" for d'
  proof
    assume "?st d = Inr (1, d')"
    from update_job_one [OF this] obtain s where s: "s \<in> set (t_job d)" "?P d s" by blast
    then have "s = r" using job_by_id [OF assms(2) s(1) assms(4)] assms(3,5) by simp
    with s(2) assms(6) show False by blast
  qed
  obtain err d' where w: "transactionalSingleRowWriteExec env ?st d = (err, d')" by fastforce
  have "err \<noteq> None"
  proof
    assume "err = None"
    with w have "transactionalSingleRowWriteExec env ?st d = (None, d')" by simp
    from single_write_ok [OF assms(1) this] no show False by blast
  qed
  moreover have "d' = d" using single_write_atomic [of env ?st d] w no by auto
  ultimately show ?thesis using w by (auto simp: MarkJobInflight_def)
qed



subsection \<open>Back-off\<close>



text \<open>Beyond that the product wraps around: the third retry with a single delay of 4294967295 seconds.\<close>

lemma backoff_overflow:
  "RetryBackoffDelays cfg = [4294967295 * second] \<Longrightarrow>
   \<exists>delta < 0. computeEarliestDelta 3 cfg = Some delta"
  by (simp add: computeEarliestDelta_def Let_def wrap64_def)

subsection \<open>The request\<close>

lemma metadata_keeps:
  "list_all (\<lambda>(k, v). CanonicalHeaderKey k \<noteq> key) hs \<Longrightarrow>
   mget (fold (\<lambda>(k, v). header_Set k v) hs h) key = mget h key"
  by (induction hs arbitrary: h) (auto simp: header_Set_def)

lemma broker_header_names:
  "CanonicalHeaderKey ''Content-Type'' = ''Content-Type''"
  "CanonicalHeaderKey ''X-Broker-Message-Priority'' = ''X-Broker-Message-Priority''"
  "CanonicalHeaderKey ''X-Broker-Channel-ID'' = ''X-Broker-Channel-Id''"
  "CanonicalHeaderKey ''X-Broker-Consumer-ID'' = ''X-Broker-Consumer-Id''"
  "CanonicalHeaderKey ''User-Agent'' = ''User-Agent''"
  "CanonicalHeaderKey ''X-Request-ID'' = ''X-Request-Id''"
  "CanonicalHeaderKey ''X-Broker-Message-ID'' = ''X-Broker-Message-Id''"
  "CanonicalHeaderKey ''X-Broker-Metadata-Headers'' = ''X-Broker-Metadata-Headers''"
  by code_simp+

text \<open>
  C28: The request a worker sends goes to the consumer's callback URL with the message's payload, and its
  message id, channel id and content type headers are the message's own, provided that no metadata header
  of the message has one of these names.
\<close>
theorem request_identifies_message:
  assumes "list_all (\<lambda>(k, v). CanonicalHeaderKey k \<notin> {''X-Broker-Message-Id'', ''X-Broker-Channel-Id'', ''Content-Type''})
      (Headers message)"
    and "CanonicalHeaderKey (TokenRequestHeaderName cfg) \<notin> {''X-Broker-Message-Id'', ''X-Broker-Channel-Id'', ''Content-Type''}"
  shows "req_URL (build_request cfg rid job message channel listener) = CallbackURL listener \<and>
    req_Body (build_request cfg rid job message channel listener) = Payload message \<and>
    header_Get ''X-Broker-Message-ID'' (req_Header (build_request cfg rid job message channel listener)) = MessageID message \<and>
    header_Get ''X-Broker-Channel-ID'' (req_Header (build_request cfg rid job message channel listener)) = ChannelID channel \<and>
    header_Get ''Content-Type'' (req_Header (build_request cfg rid job message channel listener)) = ContentType message"
proof -
  have k: "list_all (\<lambda>(k, v). CanonicalHeaderKey k \<noteq> ''X-Broker-Message-Id'') (Headers message)"
    "list_all (\<lambda>(k, v). CanonicalHeaderKey k \<noteq> ''X-Broker-Channel-Id'') (Headers message)"
    "list_all (\<lambda>(k, v). CanonicalHeaderKey k \<noteq> ''Content-Type'') (Headers message)"
    using assms(1) by (auto simp: list_all_iff)
  show ?thesis
    using assms(2)
    by (simp add: build_request_def header_Add_def header_Get_def Let_def broker_header_names metadata_keeps [OF k(1)]
        metadata_keeps [OF k(2)] metadata_keeps [OF k(3)])
      (auto simp: header_Set_def broker_header_names)
qed

theorem request_identifies_message_witness:
  "header_Get ''X-Broker-Message-ID'' (req_Header (build_request sample_cfg ''r'' j1_job
     (sample_message\<lparr>Headers := [(''x-trace'', ''7'')]\<rparr>) sample_channel (sample_consumer ''c1''))) = ''x''"
proof -
  let ?m = "sample_message\<lparr>Headers := [(''x-trace'', ''7'')]\<rparr>"
  have "list_all (\<lambda>(k, v). CanonicalHeaderKey k \<notin> {''X-Broker-Message-Id'', ''X-Broker-Channel-Id'', ''Content-Type''}) (Headers ?m)"
    "CanonicalHeaderKey (TokenRequestHeaderName sample_cfg) \<notin> {''X-Broker-Message-Id'', ''X-Broker-Channel-Id'', ''Content-Type''}"
    "MessageID ?m = ''x''" by code_simp+
  with request_identifies_message [of ?m sample_cfg "''r''" j1_job sample_channel "sample_consumer ''c1''"]
  show ?thesis by simp
qed

end
