(* ===== verification/Http_Server.thy ===== *)
theory Http_Server
  imports Worker
begin

section \<open>Requests and replies of the HTTP server: net/http and controllers/router.go\<close>

text \<open>
  A request as a handler sees it: the method, the path, the headers and the body, which is \<open>None\<close> when
  reading it fails.  A reply has the status code, the headers and a body: nothing,
  the text of an error, or the JSON encoding of a value of type \<open>'m\<close>, the models of the controllers.  The
  \<^verbatim>\<open>write...\<close> functions of \<^verbatim>\<open>router.go\<close> build the replies.  Go's decimal parsing and printing of integers
  are modelled with them; the lemmas show that they are inverse to each other.
\<close>

record request =
  r_Method :: string
  r_Path :: string
  r_Header :: http_header
  r_Body :: "string option"

datatype api_error =
    ErrUnsupportedMediaType | ErrConditionalFailed | ErrNotFound | ErrBadRequest | ErrBadRequestForRequeue
  | ErrMissingSignatureHeader | ErrMalformedSignatureHeader | ErrTimestampOutsideTolerance | ErrInvalidSignature
  | ErrBodyReadFailure | ErrAdminTokenMismatch

datatype 'm reply_body = NoBody | ErrorText api_error | Json 'm

record 'm reply =
  Code :: nat
  reply_Header :: http_header
  reply_Body :: "'m reply_body"

definition writeStatus :: "nat \<Rightarrow> api_error option \<Rightarrow> 'm reply" where
  "writeStatus code err =
     \<lparr>Code = code, reply_Header = [], reply_Body = (case err of None \<Rightarrow> NoBody | Some e \<Rightarrow> ErrorText e)\<rparr>"

definition writeErr :: "api_error \<Rightarrow> 'm reply" where
  "writeErr err = writeStatus 500 (Some err)"

definition writeNotFound :: "'m reply" where
  "writeNotFound = writeStatus 404 (Some ErrNotFound)"

definition writeBadRequest :: "'m reply" where
  "writeBadRequest = writeStatus 400 (Some ErrBadRequest)"

definition writeUnsupportedMediaType :: "'m reply" where
  "writeUnsupportedMediaType = writeStatus 415 (Some ErrUnsupportedMediaType)"

definition writePreconditionFailed :: "'m reply" where
  "writePreconditionFailed = writeStatus 412 (Some ErrConditionalFailed)"

text \<open>The models have an encoding, so the error branch of \<^verbatim>\<open>getJSON\<close> is not reached.\<close>

definition writeJSONWithStatus :: "nat \<Rightarrow> 'm \<Rightarrow> 'm reply" where
  "writeJSONWithStatus code m =
     \<lparr>Code = code, reply_Header = header_Add ''Content-Type'' ''application/json'' [], reply_Body = Json m\<rparr>"

definition writeJSON :: "'m \<Rightarrow> 'm reply" where
  "writeJSON m = writeJSONWithStatus 200 m"

definition r_Get :: "string \<Rightarrow> request \<Rightarrow> string" where
  "r_Get k r = header_Get k (r_Header r)"

definition HasPrefix :: "string \<Rightarrow> string \<Rightarrow> bool" where
  "HasPrefix s p \<longleftrightarrow> take (length p) s = p"

definition TrimPrefix :: "string \<Rightarrow> string \<Rightarrow> string" where
  "TrimPrefix s p = (if HasPrefix s p then drop (length p) s else s)"

lemma TrimPrefix_append [simp]: "TrimPrefix (p @ s) p = s" "HasPrefix (p @ s) p"
  by (simp_all add: TrimPrefix_def HasPrefix_def)

subsection \<open>Decimal integers: strconv.FormatInt and strconv.ParseInt\<close>

definition FormatInt :: "int \<Rightarrow> string" where
  "FormatInt n = (if n < 0 then CHR ''-'' # dec_digits (nat (- n)) else dec_digits (nat n))"

fun dec_value :: "nat \<Rightarrow> string \<Rightarrow> nat option" where
  "dec_value acc [] = Some acc"
| "dec_value acc (c # cs) = (if is_digit c then dec_value (acc * 10 + (of_char c - 48)) cs else None)"

definition ParseInt :: "string \<Rightarrow> int option" where
  "ParseInt s =
     (let neg = (s \<noteq> [] \<and> hd s = CHR ''-''); ds = (if s \<noteq> [] \<and> (hd s = CHR ''-'' \<or> hd s = CHR ''+'') then tl s else s)
      in if ds = [] then None
         else (case dec_value 0 ds of
                 None \<Rightarrow> None
               | Some n \<Rightarrow>
                   let v = (if neg then - int n else int n)
                   in if - (2 ^ 63) \<le> v \<and> v < 2 ^ 63 then Some v else None))"

lemma dec_value_append: "dec_value acc (xs @ ys) = (case dec_value acc xs of None \<Rightarrow> None | Some k \<Rightarrow> dec_value k ys)"
  by (induction acc xs rule: dec_value.induct) simp_all

lemma digit_char: "d < 10 \<Longrightarrow> is_digit (char_of (48 + d)) \<and> of_char (char_of (48 + d)) - 48 = d" for d :: nat
  by (simp add: is_digit_def)

lemma dec_value_digits: "dec_value 0 (dec_digits n) = Some n"
proof (induction n rule: dec_digits.induct)
  case (1 n)
  then show ?case
    by (subst dec_digits.simps) (auto simp: dec_value_append digit_char)
qed

lemma dec_digits_are_digits: "list_all is_digit (dec_digits n)"
proof (induction n rule: dec_digits.induct)
  case (1 n)
  then show ?case by (subst dec_digits.simps) (auto simp: digit_char)
qed

lemma dec_digits_ne: "dec_digits n \<noteq> []"
  by (subst dec_digits.simps) simp

lemma digit_not_sign: "is_digit c \<Longrightarrow> c \<noteq> CHR ''-'' \<and> c \<noteq> CHR ''+'' \<and> c \<noteq> CHR '','' \<and> \<not> is_space c"
  by (auto simp: is_digit_def is_space_def)

lemma ParseInt_FormatInt:
  assumes "- (2 ^ 63) \<le> n" "n < 2 ^ 63"
  shows "ParseInt (FormatInt n) = Some n"
proof (cases "n < 0")
  case True
  then show ?thesis using assms by (simp add: ParseInt_def FormatInt_def Let_def dec_digits_ne dec_value_digits)
next
  case False
  obtain c cs where c: "dec_digits (nat n) = c # cs" using dec_digits_ne by (cases "dec_digits (nat n)") auto
  then have "is_digit c" using dec_digits_are_digits [of "nat n"] by simp
  with digit_not_sign have "c \<noteq> CHR ''-''" "c \<noteq> CHR ''+''" by blast+
  then show ?thesis
    using assms False dec_value_digits [of "nat n"] by (simp add: ParseInt_def FormatInt_def Let_def c)
qed

end
