(* ===== verification/Gateway_Auth.thy ===== *)
theory Gateway_Auth
  imports Http_Server Sha256
begin

section \<open>Authentication of requests: controllers/hmac_middleware.go, parking/handoff.go\<close>

text \<open>
  The middleware that checks the signature of every request, the function with which a node signs the
  requests it sends to its peers, and the check of the admin token.  A handler behind the middleware is a
  function on requests; the middleware either rejects a request with a status and an error or gives the
  handler's result.  The clock is the Unix time in seconds.  \<^verbatim>\<open>math.Abs(float64(now-timestamp))\<close> is compared with
  a whole number of seconds below 2 ^ 53, so the rounding of the conversion cannot change the comparison
  and the model compares integers; the subtraction wraps around at 64 bits as in Go.
\<close>

datatype 'r served = Rejected nat api_error | Served 'r

definition headerBrokerSignature :: string where
  "headerBrokerSignature = ''X-Broker-Signature''"

definition AdminTokenHeader :: string where
  "AdminTokenHeader = ''X-Broker-Admin-Token''"

definition InternalEnqueuePath :: string where
  "InternalEnqueuePath = ''/_internal/jobs/enqueue''"

fun parse_parts :: "string list \<Rightarrow> int option \<Rightarrow> string option \<Rightarrow> (int option \<times> string option) option" where
  "parse_parts [] timestamp signature = Some (timestamp, signature)"
| "parse_parts (part # rest) timestamp signature =
     (let part = TrimSpace part
      in if HasPrefix part ''t='' then
           (case ParseInt (TrimPrefix part ''t='') of
              None \<Rightarrow> None
            | Some t \<Rightarrow> parse_parts rest (Some t) signature)
         else if HasPrefix part ''v1='' then parse_parts rest timestamp (Some (TrimPrefix part ''v1=''))
         else parse_parts rest timestamp signature)"

definition parseSignatureHeader :: "string \<Rightarrow> (int \<times> string) option" where
  "parseSignatureHeader header =
     (let parts = split_on (CHR '','') header
      in if length parts \<noteq> 2 then None
         else (case parse_parts parts None None of
                 Some (Some timestamp, Some signature) \<Rightarrow> Some (timestamp, signature)
               | _ \<Rightarrow> None))"

definition signature_of :: "byte list \<Rightarrow> int \<Rightarrow> string \<Rightarrow> string" where
  "signature_of secret timestamp body =
     hex_EncodeToString (hmac_sha256 secret (string_bytes (FormatInt timestamp @ ''.'' @ body)))"

definition outside_tolerance :: "duration \<Rightarrow> int \<Rightarrow> int \<Rightarrow> bool" where
  "outside_tolerance tolerance unixNow timestamp \<longleftrightarrow> \<bar>wrap64 (unixNow - timestamp)\<bar> * second > tolerance"

definition NewHMACMiddleware :: "Config \<Rightarrow> (request \<Rightarrow> 'r) \<Rightarrow> int \<Rightarrow> request \<Rightarrow> 'r served" where
  "NewHMACMiddleware authConfig nxt unixNow r =
     (if \<not> IsGatewayAuthEnabled authConfig then Served (nxt r)
      else if list_ex (HasPrefix (r_Path r)) (GetAuthExemptPaths authConfig) then Served (nxt r)
      else
        (let secret = (case GetHMACSharedSecret authConfig of None \<Rightarrow> [] | Some s \<Rightarrow> s);
             sigHeader = r_Get headerBrokerSignature r
         in if sigHeader = '''' then Rejected 401 ErrMissingSignatureHeader
            else (case parseSignatureHeader sigHeader of
                    None \<Rightarrow> Rejected 401 ErrMalformedSignatureHeader
                  | Some (timestamp, signature) \<Rightarrow>
                      if outside_tolerance (GetHMACTimestampTolerance authConfig) unixNow timestamp
                      then Rejected 403 ErrTimestampOutsideTolerance
                      else (case r_Body r of
                              None \<Rightarrow> Rejected 500 ErrBodyReadFailure
                            | Some body \<Rightarrow>
                                if signature_of secret timestamp body \<noteq> signature then Rejected 403 ErrInvalidSignature
                                else Served (nxt r)))))"

text \<open>The signing side, in \<^verbatim>\<open>parking/handoff.go\<close>.\<close>

definition SignPayload :: "byte list \<Rightarrow> int \<Rightarrow> string \<Rightarrow> string" where
  "SignPayload secret timestamp body = ''t='' @ FormatInt timestamp @ '',v1='' @ signature_of secret timestamp body"

definition BuildEnqueueEndpoint :: "string \<Rightarrow> string" where
  "BuildEnqueueEndpoint retriggerBaseEndpoint =
     rev (dropWhile (\<lambda>c. c = CHR ''/'') (rev retriggerBaseEndpoint)) @ InternalEnqueuePath"

text \<open>The admin token: \<^verbatim>\<open>subtle.ConstantTimeCompare\<close> is equality.\<close>

definition isAdminAuthorized :: "Config \<Rightarrow> request \<Rightarrow> bool" where
  "isAdminAuthorized pauseConfig r \<longleftrightarrow>
     length (DispatchPauseAdminToken pauseConfig) > 0 \<and> DispatchPauseAdminToken pauseConfig = r_Get AdminTokenHeader r"

definition checkAdminToken :: "Config \<Rightarrow> request \<Rightarrow> 'm reply option" where
  "checkAdminToken pauseConfig r =
     (if \<not> IsAdminTokenConfigured pauseConfig then Some writeNotFound
      else if \<not> isAdminAuthorized pauseConfig r then Some (writeStatus 401 (Some ErrAdminTokenMismatch))
      else None)"

subsection \<open>Hexadecimal signatures\<close>

lemma be_bytes_range: "b \<in> set (be_bytes n x) \<Longrightarrow> b < 256"
  by (auto simp: be_bytes_def)

lemma sha256_range: "b \<in> set (sha256 m) \<Longrightarrow> b < 256"
  by (auto simp: sha256_def dest: be_bytes_range)

definition plain_char :: "char \<Rightarrow> bool" where
  "plain_char c \<longleftrightarrow> c \<noteq> CHR '','' \<and> \<not> is_space c"

lemma hex_digits_plain: "list_all plain_char ''0123456789abcdef''"
  by (simp add: plain_char_def is_space_def)

lemma hex_plain: "(\<And>b. b \<in> set bs \<Longrightarrow> b < 256) \<Longrightarrow> list_all plain_char (hex_EncodeToString bs)"
proof -
  have d: "plain_char (hex_digit k)" if "k < 16" for k
    using hex_digits_plain that unfolding hex_digit_def list_all_length by simp
  assume "\<And>b. b \<in> set bs \<Longrightarrow> b < 256"
  then have "b div 16 < 16" if "b \<in> set bs" for b using that by (simp add: less_mult_imp_div_less)
  then show ?thesis by (auto simp: hex_EncodeToString_def list_all_iff intro!: d)
qed

lemma signature_plain: "list_all plain_char (signature_of secret t body)"
  unfolding signature_of_def hmac_sha256_def Let_def by (rule hex_plain) (rule sha256_range)

lemma digit_plain: "is_digit c \<Longrightarrow> plain_char c"
  by (drule digit_not_sign) (simp add: plain_char_def)

lemma FormatInt_plain: "list_all plain_char (FormatInt t)"
proof -
  have "list_all plain_char (dec_digits n)" for n
    using dec_digits_are_digits by (rule list.pred_mono_strong) (rule digit_plain)
  then show ?thesis by (simp add: FormatInt_def plain_char_def [of "CHR ''-''"] is_space_def)
qed

lemma dropWhile_none: "list_all (\<lambda>c. \<not> P c) s \<Longrightarrow> dropWhile P s = s"
  by (cases s) simp_all

lemma TrimSpace_plain: "list_all plain_char s \<Longrightarrow> TrimSpace s = s"
  by (simp add: TrimSpace_def dropWhile_none plain_char_def list_all_iff)

lemma split_plain: "list_all (\<lambda>c. c \<noteq> x) s \<Longrightarrow> split_on x s = [s]"
  by (induction s) simp_all

lemma split_two: "list_all (\<lambda>c. c \<noteq> x) s \<Longrightarrow> split_on x (s @ x # u) = s # split_on x u"
proof (induction s)
  case (Cons a s)
  then show ?case by simp
qed simp

lemma parse_signed:
  assumes "- (2 ^ 63) \<le> t" "t < 2 ^ 63"
  shows "parseSignatureHeader (SignPayload secret t body) = Some (t, signature_of secret t body)"
proof -
  let ?a = "''t='' @ FormatInt t" and ?b = "''v1='' @ signature_of secret t body"
  have p: "list_all plain_char ?a" "list_all plain_char ?b"
    using FormatInt_plain [of t] signature_plain [of secret t body] by (simp_all add: plain_char_def is_space_def)
  then have nc: "list_all (\<lambda>c. c \<noteq> CHR '','') ?a" "list_all (\<lambda>c. c \<noteq> CHR '','') ?b"
    by (auto simp: list_all_iff plain_char_def)
  have "SignPayload secret t body = ?a @ CHR '','' # ?b" by (simp add: SignPayload_def)
  then have s: "split_on (CHR '','') (SignPayload secret t body) = [?a, ?b]"
    using split_two [OF nc(1), of ?b] split_plain [OF nc(2)] by simp
  have h: "HasPrefix ?a ''t=''" "\<not> HasPrefix ?b ''t=''" "HasPrefix ?b ''v1=''"
    "TrimPrefix ?a ''t='' = FormatInt t" "TrimPrefix ?b ''v1='' = signature_of secret t body"
    using TrimPrefix_append [of "''t=''" "FormatInt t"] TrimPrefix_append [of "''v1=''" "signature_of secret t body"]
    by (simp_all add: HasPrefix_def)
  show ?thesis
    unfolding parseSignatureHeader_def s
    using TrimSpace_plain [OF p(1)] TrimSpace_plain [OF p(2)] ParseInt_FormatInt [OF assms] h
    by (simp only: Let_def list.size parse_parts.simps if_True if_False) simp
qed

lemma ParseInt_range: "ParseInt s = Some t \<Longrightarrow> - (2 ^ 63) \<le> t \<and> t < 2 ^ 63"
  by (auto simp: ParseInt_def Let_def split: if_splits option.splits)

lemma parse_parts_range:
  "parse_parts ps t0 sg = Some (Some t, x) \<Longrightarrow> t0 = None \<or> (\<exists>u. t0 = Some u \<and> - (2 ^ 63) \<le> u \<and> u < 2 ^ 63) \<Longrightarrow>
   - (2 ^ 63) \<le> t \<and> t < 2 ^ 63"
proof (induction ps t0 sg rule: parse_parts.induct)
  case (2 part rest t0 sg)
  then show ?case by (auto simp: Let_def split: if_splits option.splits dest: ParseInt_range)
qed auto

lemma parseSignatureHeader_range:
  assumes "parseSignatureHeader h = Some (t, s)"
  shows "- (2 ^ 63) \<le> t \<and> t < 2 ^ 63"
proof -
  obtain x where "parse_parts (split_on (CHR '','') h) None None = Some (Some t, x)"
    using assms by (auto simp: parseSignatureHeader_def Let_def split: if_splits option.splits)
  then show ?thesis by (rule parse_parts_range) simp
qed

text \<open>The wrap-around of the subtraction cannot make an old timestamp look recent.\<close>

lemma wrap64_small:
  assumes "- (2 ^ 63) \<le> ts" "ts < 2 ^ 63" "0 \<le> t" "t < 2 ^ 62" "\<bar>wrap64 (t - ts)\<bar> < 2 ^ 61"
  shows "wrap64 (t - ts) = t - ts"
proof -
  have "(t - ts + 2 ^ 63) div 2 ^ 64 \<in> {0, 1}" using assms(1-4) by (auto simp: div_eq_0_iff)
  moreover have "(t - ts + 2 ^ 63) div 2 ^ 64 \<noteq> 1"
  proof
    assume "(t - ts + 2 ^ 63) div 2 ^ 64 = 1"
    then have "wrap64 (t - ts) = t - ts - 2 ^ 64" unfolding wrap64_def by (simp flip: minus_div_mult_eq_mod)
    then show False using assms by (simp add: abs_if split: if_splits)
  qed
  ultimately have "(t - ts + 2 ^ 63) div 2 ^ 64 = 0" by simp
  then show ?thesis unfolding wrap64_def by (simp flip: minus_div_mult_eq_mod)
qed

lemma tolerance_fits: "GetHMACTimestampTolerance cfg < 2 ^ 63"
proof -
  have "wrap64 x < 2 ^ 63" for x by (simp add: wrap64_def)
  then show ?thesis by (simp add: GetHMACTimestampTolerance_def seconds_def)
qed

definition shared_secret :: "Config \<Rightarrow> byte list" where
  "shared_secret cfg = (case GetHMACSharedSecret cfg of None \<Rightarrow> [] | Some s \<Rightarrow> s)"

text \<open>
  C32: With gateway authentication on, a request reaches the handler only when its path is exempt, or its
  signature header carries a timestamp within the tolerance of the clock and the HMAC of that timestamp
  and the request's own body under the shared secret; the handler then sees the request unchanged.
\<close>
theorem only_signed_requests_pass:
  assumes "IsGatewayAuthEnabled cfg" "NewHMACMiddleware cfg nxt t r = Served x" "0 \<le> t" "t < 2 ^ 62"
  shows "x = nxt r \<and>
    (list_ex (HasPrefix (r_Path r)) (GetAuthExemptPaths cfg) \<or>
     (\<exists>ts body. parseSignatureHeader (r_Get headerBrokerSignature r) = Some (ts, signature_of (shared_secret cfg) ts body) \<and>
        r_Body r = Some body \<and> \<bar>t - ts\<bar> * second \<le> GetHMACTimestampTolerance cfg))"
proof (cases "list_ex (HasPrefix (r_Path r)) (GetAuthExemptPaths cfg)")
  case True
  then show ?thesis using assms(1,2) by (simp add: NewHMACMiddleware_def)
next
  case False
  with assms(1,2) obtain ts body where s:
    "parseSignatureHeader (r_Get headerBrokerSignature r) = Some (ts, signature_of (shared_secret cfg) ts body)"
    "r_Body r = Some body" "\<not> outside_tolerance (GetHMACTimestampTolerance cfg) t ts" "x = nxt r"
    by (auto simp: NewHMACMiddleware_def shared_secret_def Let_def split: if_splits option.splits prod.splits)
  have w: "\<bar>wrap64 (t - ts)\<bar> * second \<le> GetHMACTimestampTolerance cfg" using s(3) by (simp add: outside_tolerance_def)
  then have "\<bar>wrap64 (t - ts)\<bar> < 2 ^ 61" using tolerance_fits [of cfg] by simp
  with parseSignatureHeader_range [OF s(1)] assms(3,4) have "wrap64 (t - ts) = t - ts" by (blast intro: wrap64_small)
  with s w show ?thesis by simp
qed

definition hmac_cfg :: Config where
  "hmac_cfg = zero_config\<lparr>GatewayAuthMode := ''hmac'', HMACSharedSecret := ''a2V5''\<rparr>"

lemma hmac_cfg_ok: "IsGatewayAuthEnabled hmac_cfg" "GetHMACTimestampTolerance hmac_cfg = 300 * second"
  "\<not> list_ex (HasPrefix ''/channel/c/broadcast'') (GetAuthExemptPaths hmac_cfg)"
  "shared_secret hmac_cfg = [107, 101, 121]"
  by code_simp+

definition signed_request :: "byte list \<Rightarrow> int \<Rightarrow> string \<Rightarrow> string \<Rightarrow> request" where
  "signed_request secret ts body path =
     \<lparr>r_Method = ''POST'', r_Path = path, r_Header = header_Set headerBrokerSignature (SignPayload secret ts body) [],
      r_Body = Some body\<rparr>"

text \<open>
  C33: What one node signs, another accepts: a request whose header is the value of \<open>SignPayload\<close> for a body
  is served when that is the body of the request and the timestamp is within the tolerance, rejected as too
  old or too new when it is not, and rejected as forged when the body it arrives with has another HMAC.
\<close>
theorem signature_round_trip:
  assumes "IsGatewayAuthEnabled cfg" "\<not> list_ex (HasPrefix (r_Path r)) (GetAuthExemptPaths cfg)"
    and "- (2 ^ 63) \<le> ts" "ts < 2 ^ 63" "r_Body r = Some body'"
    and "r_Get headerBrokerSignature r = SignPayload (shared_secret cfg) ts body"
  shows "NewHMACMiddleware cfg nxt t r =
    (if outside_tolerance (GetHMACTimestampTolerance cfg) t ts then Rejected 403 ErrTimestampOutsideTolerance
     else if signature_of (shared_secret cfg) ts body' = signature_of (shared_secret cfg) ts body then Served (nxt r)
     else Rejected 403 ErrInvalidSignature)"
proof -
  have "SignPayload (shared_secret cfg) ts body \<noteq> ''''" by (simp add: SignPayload_def)
  then show ?thesis
    using assms(1,2,5,6) parse_signed [OF assms(3,4), of "shared_secret cfg" body]
    by (simp add: NewHMACMiddleware_def shared_secret_def Let_def)
qed

lemma signed_request_header: "r_Get headerBrokerSignature (signed_request secret ts body path) = SignPayload secret ts body"
  by (simp add: r_Get_def signed_request_def header_Get_def header_Set_def)

theorem signature_round_trip_witness:
  "NewHMACMiddleware hmac_cfg (\<lambda>r. r_Body r) 1000 (signed_request [107, 101, 121] 900 ''hi'' ''/channel/c/broadcast'') =
     Served (Some ''hi'') \<and>
   NewHMACMiddleware hmac_cfg (\<lambda>r. r_Body r) 1201 (signed_request [107, 101, 121] 900 ''hi'' ''/channel/c/broadcast'') =
     Rejected 403 ErrTimestampOutsideTolerance"
proof -
  let ?r = "signed_request [107, 101, 121] 900 ''hi'' ''/channel/c/broadcast''"
  have b: "r_Body ?r = Some ''hi''" "r_Path ?r = ''/channel/c/broadcast''" by (simp_all add: signed_request_def)
  have h: "r_Get headerBrokerSignature ?r = SignPayload (shared_secret hmac_cfg) 900 ''hi''"
    by (simp only: signed_request_header hmac_cfg_ok(4))
  show ?thesis
    using signature_round_trip [OF hmac_cfg_ok(1) _ _ _ b(1) h, of r_Body 1000]
      signature_round_trip [OF hmac_cfg_ok(1) _ _ _ b(1) h, of r_Body 1201] hmac_cfg_ok(2,3)
    by (simp add: b outside_tolerance_def wrap64_def)
qed

theorem only_signed_requests_pass_witness:
  "\<exists>ts. parseSignatureHeader (r_Get headerBrokerSignature (signed_request [107, 101, 121] 900 ''hi'' ''/channel/c/broadcast'')) =
      Some (ts, signature_of [107, 101, 121] ts ''hi'') \<and> \<bar>1000 - ts\<bar> * second \<le> 300 * second"
proof -
  let ?r = "signed_request [107, 101, 121] 900 ''hi'' ''/channel/c/broadcast''"
  have b: "r_Body ?r = Some ''hi''" "r_Path ?r = ''/channel/c/broadcast''" by (simp_all add: signed_request_def)
  have p: "parseSignatureHeader (r_Get headerBrokerSignature ?r) = Some (900, signature_of [107, 101, 121] 900 ''hi'')"
    unfolding signed_request_header by (rule parse_signed) simp_all
  have "SignPayload [107, 101, 121] 900 ''hi'' \<noteq> ''''" by (simp add: SignPayload_def)
  then have "NewHMACMiddleware hmac_cfg (\<lambda>r. r_Body r) 1000 ?r = Served (Some ''hi'')"
    using hmac_cfg_ok p unfolding NewHMACMiddleware_def b Let_def
    by (simp add: signed_request_header shared_secret_def outside_tolerance_def wrap64_def split: option.splits)
  from only_signed_requests_pass [OF hmac_cfg_ok(1) this] hmac_cfg_ok(2-4) b show ?thesis by auto
qed

end
