(* ===== verification/Scheduled_Repo.thy ===== *)
theory Scheduled_Repo
  imports Message_Repo
begin

section \<open>Scheduled messages: storage/scheduledmessagerepo.go\<close>

text \<open>
  The repository of messages that wait for their time.  As in the message repository, the channel and
  producer repositories are the parameters \<open>chGet\<close> and \<open>prGet\<close>.  The order of rows with equal schedules
  is the order of the table.
\<close>

definition zero_scheduled :: ScheduledMessage where
  "zero_scheduled = \<lparr>ID = nil_xid, CreatedAt = 0, UpdatedAt = 0, sm_MessageID = '''', sm_Payload = '''',
     sm_ContentType = '''', sm_Priority = 0, sm_Status = ScheduledMsgStatusOther 0, sm_BroadcastedTo = None,
     sm_ProducedBy = None, DispatchSchedule = 0, DispatchedAt = 0, sm_Headers = []\<rparr>"

definition row_scheduled :: "Channel option \<Rightarrow> Producer option \<Rightarrow> scheduled_row \<Rightarrow> ScheduledMessage" where
  "row_scheduled ch pr r =
     \<lparr>ID = s_id r, CreatedAt = s_createdAt r, UpdatedAt = s_updatedAt r, sm_MessageID = s_messageId r,
      sm_Payload = s_payload r, sm_ContentType = s_contentType r, sm_Priority = s_priority r, sm_Status = s_status r,
      sm_BroadcastedTo = ch, sm_ProducedBy = pr, DispatchSchedule = s_dispatchSchedule r,
      DispatchedAt = (case s_dispatchedAt r of None \<Rightarrow> 0 | Some t \<Rightarrow> t), sm_Headers = s_headers r\<rparr>"

definition scheduled_row_of :: "dbenv \<Rightarrow> ScheduledMessage \<Rightarrow> scheduled_row" where
  "scheduled_row_of env m =
     \<lparr>s_id = ID m, s_messageId = sm_MessageID m,
      s_producerId = (case sm_ProducedBy m of Some p \<Rightarrow> ProducerID p | None \<Rightarrow> ''''),
      s_channelId = scheduled_GetChannelIDSafely m, s_payload = sm_Payload m, s_contentType = sm_ContentType m,
      s_priority = sm_Priority m, s_status = sm_Status m, s_dispatchSchedule = dt env (DispatchSchedule m),
      s_dispatchedAt = (if IsZero (DispatchedAt m) then None else Some (dt env (DispatchedAt m))),
      s_headers = sm_Headers m, s_createdAt = dt env (CreatedAt m), s_updatedAt = dt env (UpdatedAt m)\<rparr>"

definition scheduledMessageMysqlErrorMap :: "(nat, error) gomap" where
  "scheduledMessageMysqlErrorMap = [(1062, ErrDuplicateScheduledMessageIDForChannel)]"

definition scheduled_getSingleMessage ::
  "dbenv \<Rightarrow> chRepo \<Rightarrow> prRepo \<Rightarrow> (scheduled_row \<Rightarrow> bool) \<Rightarrow> bool \<Rightarrow> db \<Rightarrow> ScheduledMessage \<times> error option" where
  "scheduled_getSingleMessage env chGet prGet P loadChannel d =
     (case querySingleRow env 0 (filter P (t_scheduled d)) of
        Inl e \<Rightarrow> (zero_scheduled, Some e)
      | Inr r \<Rightarrow>
          (case prGet (s_producerId r) of
             (pr, Some e) \<Rightarrow> (row_scheduled None (Some pr) r, Some e)
           | (pr, None) \<Rightarrow>
               if loadChannel then
                 (case chGet (s_channelId r) of (ch, err) \<Rightarrow> (row_scheduled (Some ch) (Some pr) r, err))
               else (row_scheduled None (Some pr) r, None)))"

definition scheduled_Get ::
  "dbenv \<Rightarrow> chRepo \<Rightarrow> prRepo \<Rightarrow> string \<Rightarrow> string \<Rightarrow> db \<Rightarrow> ScheduledMessage \<times> error option" where
  "scheduled_Get env chGet prGet channelID messageID d =
     (case chGet channelID of
        (_, Some e) \<Rightarrow> (zero_scheduled, Some e)
      | (channel, None) \<Rightarrow>
          (case scheduled_getSingleMessage env chGet prGet
                  (\<lambda>r. sql_like (env_dialect env) channelID (s_channelId r) \<and>
                       sql_like (env_dialect env) messageID (s_messageId r)) False d of
             (message, None) \<Rightarrow> (message\<lparr>sm_BroadcastedTo := Some channel\<rparr>, None)
           | (message, Some e) \<Rightarrow> (message, Some e)))"

definition scheduled_GetByID :: "dbenv \<Rightarrow> chRepo \<Rightarrow> prRepo \<Rightarrow> xid \<Rightarrow> db \<Rightarrow> ScheduledMessage \<times> error option" where
  "scheduled_GetByID env chGet prGet i d =
     scheduled_getSingleMessage env chGet prGet (\<lambda>r. sql_like (env_dialect env) i (s_id r)) True d"

definition scheduled_Create ::
  "dbenv \<Rightarrow> dbenv \<Rightarrow> chRepo \<Rightarrow> prRepo \<Rightarrow> ScheduledMessage \<Rightarrow> db \<Rightarrow> error option \<times> db" where
  "scheduled_Create env env' chGet prGet message d =
     (if \<not> scheduled_IsInValidState message then (Some ErrInsufficientInformationForCreating, d)
      else (case scheduled_Get env chGet prGet (scheduled_GetChannelIDSafely message) (sm_MessageID message) d of
              (_, None) \<Rightarrow> (Some ErrDuplicateScheduledMessageIDForChannel, d)
            | (_, Some _) \<Rightarrow>
                (case transactionalSingleRowWriteExec env' (insert_scheduled (scheduled_row_of env' message)) d of
                   (err, d') \<Rightarrow> (normalizeDBError err scheduledMessageMysqlErrorMap, d'))))"

definition MarkDispatched :: "dbenv \<Rightarrow> ScheduledMessage \<Rightarrow> db \<Rightarrow> error option \<times> db" where
  "MarkDispatched env message d =
     (if sm_Status message \<noteq> ScheduledMsgStatusDispatched then (Some ErrScheduledNotDispatched, d)
      else transactionalSingleRowWriteExec env
             (update_scheduled (env_dialect env) (\<lambda>r. s_id r = ID message)
                (\<lambda>r. r\<lparr>s_status := sm_Status message, s_dispatchedAt := Some (dt env (DispatchedAt message)),
                       s_updatedAt := dt env (now env)\<rparr>)) d)"

definition ready_rows :: "time \<Rightarrow> int \<Rightarrow> db \<Rightarrow> scheduled_row list" where
  "ready_rows t limit d =
     take (nat limit) (sort_key s_dispatchSchedule
       (filter (\<lambda>r. s_status r = ScheduledMsgStatusScheduled \<and> s_dispatchSchedule r \<le> t) (t_scheduled d)))"

definition GetMessagesReadyForDispatch :: "dbenv \<Rightarrow> chRepo \<Rightarrow> prRepo \<Rightarrow> int \<Rightarrow> db \<Rightarrow> ScheduledMessage list" where
  "GetMessagesReadyForDispatch env chGet prGet limit d =
     (case queryRows env 0 (ready_rows (now env) limit d) of
        Inl e \<Rightarrow> []
      | Inr rows \<Rightarrow>
          concat (map (\<lambda>r. case prGet (s_producerId r) of
                             (_, Some e) \<Rightarrow> []
                           | (pr, None) \<Rightarrow>
                               (case chGet (s_channelId r) of
                                  (_, Some e) \<Rightarrow> []
                                | (ch, None) \<Rightarrow> [row_scheduled (Some ch) (Some pr) r])) rows))"

text \<open>An empty producer or channel id leaves the field nil; an empty channel id falls back to the query's.\<close>

definition getScheduledMessages ::
  "dbenv \<Rightarrow> chRepo \<Rightarrow> prRepo \<Rightarrow> string \<Rightarrow> scheduled_row list \<Rightarrow> (ScheduledMessage list \<times> Pagination) \<times> error option" where
  "getScheduledMessages env chGet prGet channelIDArg rows =
     (case queryRows env 0 rows of
        Inl e \<Rightarrow> (([], no_page), Some e)
      | Inr rs \<Rightarrow>
          ((map (\<lambda>r. row_scheduled
                   (if s_channelId r \<noteq> '''' then Some (fst (chGet (s_channelId r)))
                    else if channelIDArg \<noteq> '''' then Some (fst (chGet channelIDArg)) else None)
                   (if s_producerId r \<noteq> '''' then Some (fst (prGet (s_producerId r))) else None) r) rs,
            page_links s_id s_createdAt rs), None))"

definition GetScheduledMessagesForChannel ::
  "dbenv \<Rightarrow> chRepo \<Rightarrow> prRepo \<Rightarrow> string \<Rightarrow> Pagination option \<Rightarrow> ScheduledMsgStatus list \<Rightarrow> db \<Rightarrow>
   (ScheduledMessage list \<times> Pagination) \<times> error option" where
  "GetScheduledMessagesForChannel env chGet prGet channelID page statusFilters d =
     (if bad_page page then (([], no_page), Some ErrPaginationDeadlock)
      else
        (case chGet channelID of
           (_, Some e) \<Rightarrow> (([], no_page), Some e)
         | (_, None) \<Rightarrow>
             getScheduledMessages env chGet prGet channelID
               (select_page s_id s_createdAt 25 (the page)
                  (filter (\<lambda>r. s_channelId r = channelID \<and>
                     (length statusFilters > 0 \<longrightarrow>
                        ScheduledMsgStatus_GetValue (s_status r) \<in> set (map ScheduledMsgStatus_GetValue statusFilters)))
                     (t_scheduled d)))))"

definition GetScheduledMessageStatusCountsByChannel ::
  "dbenv \<Rightarrow> string \<Rightarrow> db \<Rightarrow> ScheduledMsgStatus StatusCount list result" where
  "GetScheduledMessageStatusCountsByChannel env channelID d =
     (let rows = filter (\<lambda>r. s_channelId r = channelID) (t_scheduled d)
      in queryRows env 0
           (map (\<lambda>st. \<lparr>sc_Status = st, sc_Count = length (filter (\<lambda>r. s_status r = st) rows),
                        OldestItemTimestamp = 0, NewestItemTimestamp = 0\<rparr>) (remdups (map s_status rows))))"

definition GetNextScheduledMessageTime :: "dbenv \<Rightarrow> string \<Rightarrow> db \<Rightarrow> time option result" where
  "GetNextScheduledMessageTime env channelID d =
     (case querySingleRow env 0 (sort_key s_dispatchSchedule
             (filter (\<lambda>r. s_channelId r = channelID \<and> s_status r = ScheduledMsgStatusScheduled) (t_scheduled d))) of
        Inl e \<Rightarrow> if e = ErrNoRows then Inr None else Inl e
      | Inr r \<Rightarrow> Inr (Some (s_dispatchSchedule r)))"

end
