(* ===== verification/Lock_Repo.thy ===== *)
theory Lock_Repo
  imports Schema
begin

section \<open>Cluster locks and the application state: storage/lockrepo.go and rdbms.go\<close>

text \<open>
  \<^verbatim>\<open>LockDBRepository\<close> keeps one row per held lock; \<^verbatim>\<open>TryLock\<close> relies on the primary key.
  \<^verbatim>\<open>AppDBRepository\<close> keeps the single row with which the nodes of a cluster agree which of them runs the
  seed data initialisation.  The lemmas show that a lock stays refused to everybody else until it is
  released or times out, and that at most one node is initialising.
\<close>

subsection \<open>LockDBRepository\<close>

definition lockErrorMap :: "(nat, error) gomap" where
  "lockErrorMap = [(1062, ErrAlreadyLocked)]"

definition TryLock :: "dbenv \<Rightarrow> Lock option \<Rightarrow> db \<Rightarrow> error option \<times> db" where
  "TryLock env lock d =
     (case lock of
        None \<Rightarrow> (Some ErrNoLock, d)
      | Some l \<Rightarrow>
          (case transactionalSingleRowWriteExec env
                  (insert_lock \<lparr>LockID = LockID l, AttainedAt = dt env (AttainedAt l)\<rparr>) d of
             (err, d') \<Rightarrow> (normalizeDBError err lockErrorMap, d')))"

definition ReleaseLock :: "dbenv \<Rightarrow> Lock option \<Rightarrow> db \<Rightarrow> error option \<times> db" where
  "ReleaseLock env lock d =
     (case lock of
        None \<Rightarrow> (Some ErrNoLock, d)
      | Some l \<Rightarrow>
          transactionalSingleRowWriteExec env
            (delete_lock (\<lambda>r. sql_like (env_dialect env) (LockID l) (LockID r))) d)"

definition TimeoutLocks :: "dbenv \<Rightarrow> duration \<Rightarrow> db \<Rightarrow> error option \<times> db" where
  "TimeoutLocks env threshold d =
     transactionalWrites env
       [inTransactionExec env 0 (delete_lock (\<lambda>r. AttainedAt r < now env + (- 1 * threshold))) 0] d"

definition renew_ops :: "dbenv \<Rightarrow> Lock \<Rightarrow> db \<Rightarrow> db tx_outcome" where
  "renew_ops env l d =
     (case inTransactionExec env 0
             (update_lock (env_dialect env) (\<lambda>r. sql_like (env_dialect env) (LockID l) (LockID r))
                (\<lambda>r. r\<lparr>AttainedAt := dt env (now env)\<rparr>)) 0 d of
        TxPanic \<Rightarrow> TxPanic
      | TxErr e \<Rightarrow> TxErr e
      | TxOk d' \<Rightarrow>
          (case exec_fault env 1 of
             Some Panic \<Rightarrow> TxPanic
           | Some (Fail e) \<Rightarrow> TxErr e
           | None \<Rightarrow>
               if length (filter (\<lambda>r. sql_like (env_dialect env) (LockID l) (LockID r)) (t_lock d')) = 0
               then TxErr ErrNoRowsUpdated else TxOk d'))"

definition RenewLock :: "dbenv \<Rightarrow> Lock option \<Rightarrow> db \<Rightarrow> (error option \<times> Lock option) \<times> db" where
  "RenewLock env lock d =
     (case lock of
        None \<Rightarrow> ((Some ErrNoLock, None), d)
      | Some l \<Rightarrow>
          (case transactionalWrites env [renew_ops env l] d of
             (err, d') \<Rightarrow>
               ((err, Some (if err = None then l\<lparr>AttainedAt := now env\<rparr> else l)), d')))"

subsection \<open>AppDBRepository\<close>

definition GetApp :: "dbenv \<Rightarrow> db \<Rightarrow> App result" where
  "GetApp env d = querySingleRow env 0 (t_app d)"

definition InitAppData :: "dbenv \<Rightarrow> dbenv \<Rightarrow> string \<Rightarrow> db \<Rightarrow> error option \<times> db" where
  "InitAppData env env' seedHash d =
     (case GetApp env d of
        Inr _ \<Rightarrow> (None, d)
      | Inl _ \<Rightarrow>
          transactionalSingleRowWriteExec env'
            (insert_app \<lparr>app_DataHash = seedHash, app_status = NotInitialized\<rparr>) d)"

definition StartAppInit :: "dbenv \<Rightarrow> dbenv \<Rightarrow> string \<Rightarrow> db \<Rightarrow> error option \<times> db" where
  "StartAppInit env env' seedHash d =
     (case GetApp env d of
        Inl e \<Rightarrow> (Some e, d)
      | Inr currentApp \<Rightarrow>
          let e1 = (if app_status currentApp = Initializing then Some ErrAppInitializing else None);
              appErr = (if app_DataHash currentApp = seedHash \<and> app_status currentApp = Initialized
                        then Some ErrNoDataChangeFromInitialized else e1)
          in if appErr = None then
               (case transactionalSingleRowWriteExec env'
                       (update_app (env_dialect env') (\<lambda>r. app_status r \<noteq> Initializing)
                          (\<lambda>r. r\<lparr>app_DataHash := seedHash, app_status := Initializing\<rparr>)) d of
                  (err, d') \<Rightarrow> (if err = Some ErrNoRowsUpdated then Some ErrOptimisticAppInit else err, d'))
             else (appErr, d))"

definition CompleteAppInit :: "dbenv \<Rightarrow> dbenv \<Rightarrow> db \<Rightarrow> error option \<times> db" where
  "CompleteAppInit env env' d =
     (case GetApp env d of
        Inl e \<Rightarrow> (Some e, d)
      | Inr currentApp \<Rightarrow>
          if app_status currentApp \<noteq> Initializing then (Some ErrCompleteWhileNotBeingInitialized, d)
          else
            (case transactionalSingleRowWriteExec env'
                    (update_app (env_dialect env') (\<lambda>r. app_status r = Initializing)
                       (\<lambda>r. r\<lparr>app_status := Initialized\<rparr>)) d of
               (err, d') \<Rightarrow> (if err = Some ErrNoRowsUpdated then Some ErrOptimisticAppComplete else err, d')))"

subsection \<open>The lock table\<close>

definition held :: "db \<Rightarrow> string \<Rightarrow> bool" where
  "held d lid \<longleftrightarrow> list_ex (\<lambda>r. LockID r = lid) (t_lock d)"

definition lock_table_ok :: "db \<Rightarrow> bool" where
  "lock_table_ok d \<longleftrightarrow> distinct (map LockID (t_lock d))"

lemma held_image: "held d lid \<longleftrightarrow> lid \<in> LockID ` set (t_lock d)"
  by (auto simp: held_def list_ex_iff)

lemma insert_lock_eq:
  "insert_lock r d = (if held d (LockID r) then Inl (DBError 1062)
                      else Inr (1, d\<lparr>t_lock := t_lock d @ [r]\<rparr>))"
proof -
  have "list_ex (\<lambda>s. LockID r = LockID s) rows = list_ex (\<lambda>s. LockID s = LockID r) rows" for rows
    by (induction rows) auto
  then have "list_ex (\<lambda>s. LockID r = LockID s) (t_lock d) = held d (LockID r)"
    by (simp only: held_def)
  then show ?thesis by (simp add: insert_lock_def into_table_def)
qed

text \<open>What each operation can do to the table, whatever faults occur.\<close>

lemma TryLock_effect:
  "snd (TryLock env lock d) = d \<or>
   (\<exists>l. lock = Some l \<and> \<not> held d (LockID l) \<and>
        snd (TryLock env lock d) =
          d\<lparr>t_lock := t_lock d @ [\<lparr>LockID = LockID l, AttainedAt = dt env (AttainedAt l)\<rparr>]\<rparr>)"
proof (cases lock)
  case (Some l)
  show ?thesis
    using single_write_atomic [of env "insert_lock \<lparr>LockID = LockID l, AttainedAt = dt env (AttainedAt l)\<rparr>" d]
    by (auto simp: TryLock_def Some insert_lock_eq split: prod.splits if_splits)
qed (simp add: TryLock_def)

lemma TryLock_success:
  assumes "no_panic env" "fst (TryLock env lock d) = None"
  shows "\<exists>l. lock = Some l \<and> \<not> held d (LockID l) \<and>
        snd (TryLock env lock d) =
          d\<lparr>t_lock := t_lock d @ [\<lparr>LockID = LockID l, AttainedAt = dt env (AttainedAt l)\<rparr>]\<rparr>"
proof -
  obtain l where l: "lock = Some l" using assms(2) by (cases lock) (auto simp: TryLock_def)
  let ?st = "insert_lock \<lparr>LockID = LockID l, AttainedAt = dt env (AttainedAt l)\<rparr>"
  obtain err d' where e: "transactionalSingleRowWriteExec env ?st d = (err, d')" by fastforce
  with assms(2) have "err = None"
    by (auto simp: TryLock_def l normalizeDBError_def split: option.splits error.splits)
  with single_write_ok [OF assms(1)] e have "?st d = Inr (1, d')" by simp
  with e show ?thesis by (auto simp: TryLock_def l insert_lock_eq split: if_splits)
qed

lemma TryLock_refused:
  assumes "quiet env" "held d (LockID l)"
  shows "TryLock env (Some l) d = (Some ErrAlreadyLocked, d)"
  using assms
  by (simp add: TryLock_def single_write_quiet insert_lock_eq normalizeDBError_def lookup_error_def
      lockErrorMap_def)

lemma TryLock_free:
  assumes "quiet env" "\<not> held d (LockID l)"
  shows "fst (TryLock env (Some l) d) = None"
  using assms by (simp add: TryLock_def single_write_quiet insert_lock_eq normalizeDBError_def)

lemma ReleaseLock_effect:
  "snd (ReleaseLock env lock d) = d \<or>
   (\<exists>l. lock = Some l \<and> snd (ReleaseLock env lock d) =
      d\<lparr>t_lock := filter (\<lambda>r. \<not> sql_like (env_dialect env) (LockID l) (LockID r)) (t_lock d)\<rparr>)"
proof (cases lock)
  case (Some l)
  show ?thesis
    using single_write_atomic
      [of env "delete_lock (\<lambda>r. sql_like (env_dialect env) (LockID l) (LockID r))" d]
    by (auto simp: ReleaseLock_def Some delete_lock_def sql_delete_def)
qed (simp add: ReleaseLock_def)

lemma TimeoutLocks_effect:
  "snd (TimeoutLocks env threshold d) = d \<or>
   snd (TimeoutLocks env threshold d) =
      d\<lparr>t_lock := filter (\<lambda>r. \<not> AttainedAt r < now env - threshold) (t_lock d)\<rparr>"
proof -
  have "inTransactionExec env 0 (delete_lock (\<lambda>r. AttainedAt r < now env + (- 1 * threshold))) 0 d = TxOk d' \<Longrightarrow>
        d' = d\<lparr>t_lock := filter (\<lambda>r. \<not> AttainedAt r < now env - threshold) (t_lock d)\<rparr>" for d'
    by (auto dest!: inTransactionExec_ok simp: delete_lock_def sql_delete_def)
  then show ?thesis
    using transactionalWrites_atomic
      [of env "[inTransactionExec env 0 (delete_lock (\<lambda>r. AttainedAt r < now env + (- 1 * threshold))) 0]" d]
    by (auto simp: TimeoutLocks_def simp del: run_ops.simps(2))
qed

lemma RenewLock_effect:
  "snd (RenewLock env lock d) = d \<or>
   (\<exists>l. lock = Some l \<and> snd (RenewLock env lock d) =
      d\<lparr>t_lock := map (\<lambda>r. if sql_like (env_dialect env) (LockID l) (LockID r)
                           then r\<lparr>AttainedAt := dt env (now env)\<rparr> else r) (t_lock d)\<rparr>)"
proof (cases lock)
  case (Some l)
  let ?d' = "d\<lparr>t_lock := map (\<lambda>r. if sql_like (env_dialect env) (LockID l) (LockID r)
                           then r\<lparr>AttainedAt := dt env (now env)\<rparr> else r) (t_lock d)\<rparr>"
  have u: "renew_ops env l d = TxOk d' \<Longrightarrow> d' = ?d'" for d'
    unfolding renew_ops_def
    by (auto split: tx_outcome.splits option.splits fault.splits if_splits dest!: inTransactionExec_ok
        simp: update_lock_def sql_update_def)
  show ?thesis
    using transactionalWrites_atomic [of env "[renew_ops env l]" d] u
    by (auto simp: RenewLock_def Some split: prod.splits simp del: run_ops.simps(2))
qed (simp add: RenewLock_def)

subsection \<open>Mutual exclusion\<close>

text \<open>The operations other nodes may interleave, each with its own environment.\<close>

datatype lock_op =
    OpTry dbenv "Lock option"
  | OpRelease dbenv "Lock option"
  | OpTimeout dbenv duration
  | OpRenew dbenv "Lock option"

fun lock_step :: "lock_op \<Rightarrow> db \<Rightarrow> db" where
  "lock_step (OpTry env l) d = snd (TryLock env l d)"
| "lock_step (OpRelease env l) d = snd (ReleaseLock env l d)"
| "lock_step (OpTimeout env th) d = snd (TimeoutLocks env th d)"
| "lock_step (OpRenew env l) d = snd (RenewLock env l d)"

fun lock_run :: "lock_op list \<Rightarrow> db \<Rightarrow> db" where
  "lock_run [] d = d"
| "lock_run (op # ops) d = lock_run ops (lock_step op d)"

text \<open>
  An operation respects a lock held since \<open>T\<close> if it does not release it, does not time out locks as
  young as \<open>T\<close>, and does not set its time back before \<open>T\<close>.
\<close>

fun respects_lock :: "string \<Rightarrow> time \<Rightarrow> lock_op \<Rightarrow> bool" where
  "respects_lock lid T (OpTry env l) = True"
| "respects_lock lid T (OpRelease env l) =
     (case l of None \<Rightarrow> True | Some l \<Rightarrow> \<not> sql_like (env_dialect env) (LockID l) lid)"
| "respects_lock lid T (OpTimeout env th) = (now env - th \<le> T)"
| "respects_lock lid T (OpRenew env l) = (T \<le> dt env (now env))"

definition held_since :: "db \<Rightarrow> string \<Rightarrow> time \<Rightarrow> bool" where
  "held_since d lid T \<longleftrightarrow> list_ex (\<lambda>r. LockID r = lid \<and> T \<le> AttainedAt r) (t_lock d)"

lemma held_since_step:
  assumes "held_since d lid T" "respects_lock lid T op"
  shows "held_since (lock_step op d) lid T"
proof (cases op)
  case (OpTry env l)
  then show ?thesis using TryLock_effect [of env l d] assms by (auto simp: held_since_def)
next
  case (OpRelease env l)
  then show ?thesis
    using ReleaseLock_effect [of env l d] assms by (auto simp: held_since_def list_ex_iff)
next
  case (OpTimeout env th)
  then show ?thesis
    using TimeoutLocks_effect [of env th d] assms by (fastforce simp: held_since_def list_ex_iff)
next
  case (OpRenew env l)
  obtain r where r: "r \<in> set (t_lock d)" "LockID r = lid" "T \<le> AttainedAt r"
    using assms(1) by (auto simp: held_since_def list_ex_iff)
  have "held_since (d\<lparr>t_lock := map (\<lambda>r. if P r then r\<lparr>AttainedAt := dt env (now env)\<rparr> else r) (t_lock d)\<rparr>) lid T"
    for P
    unfolding held_since_def list_ex_iff
    by (rule bexI [of _ "if P r then r\<lparr>AttainedAt := dt env (now env)\<rparr> else r"])
      (use r assms(2) OpRenew in auto)
  then show ?thesis
    using RenewLock_effect [of env l d] assms OpRenew by auto
qed

lemma held_since_run:
  "held_since d lid T \<Longrightarrow> list_all (respects_lock lid T) ops \<Longrightarrow> held_since (lock_run ops d) lid T"
  by (induction ops arbitrary: d) (simp_all add: held_since_step)

lemma TryLock_held_since:
  assumes "no_panic env" "fst (TryLock env (Some l) d) = None"
  shows "held_since (snd (TryLock env (Some l) d)) (LockID l) (dt env (AttainedAt l))"
  using TryLock_success [OF assms] by (auto simp: held_since_def)

lemma held_since_held: "held_since d lid T \<Longrightarrow> held d lid"
  by (auto simp: held_since_def held_def list_ex_iff)

lemma TryLock_held_fails:
  assumes "no_panic env" "held d (LockID l)"
  shows "fst (TryLock env (Some l) d) \<noteq> None"
  using TryLock_success [OF assms(1), of "Some l" d] assms(2) by auto

lemma lock_table_ok_step: "lock_table_ok d \<Longrightarrow> lock_table_ok (lock_step op d)"
proof (cases op)
  case (OpTry env l)
  assume "lock_table_ok d"
  then show ?thesis
    using OpTry TryLock_effect [of env l d] by (auto simp: lock_table_ok_def held_image)
next
  case (OpRelease env l)
  assume "lock_table_ok d"
  then show ?thesis
    using OpRelease ReleaseLock_effect [of env l d]
    by (auto simp: lock_table_ok_def distinct_map inj_on_def)
next
  case (OpTimeout env th)
  assume "lock_table_ok d"
  then show ?thesis
    using OpTimeout TimeoutLocks_effect [of env th d]
    by (auto simp: lock_table_ok_def distinct_map inj_on_def)
next
  case (OpRenew env l)
  have f: "LockID \<circ> (\<lambda>r. if P r then r\<lparr>AttainedAt := t\<rparr> else r) = LockID" for P t by auto
  assume "lock_table_ok d"
  then show ?thesis
    using OpRenew RenewLock_effect [of env l d] unfolding lock_table_ok_def by (auto simp: f)
qed

subsection \<open>The initialisation row\<close>

definition app_table_ok :: "db \<Rightarrow> bool" where
  "app_table_ok d \<longleftrightarrow> length (t_app d) \<le> 1"

lemma StartAppInit_success:
  assumes "no_panic env'" "fst (StartAppInit env env' h d) = None" "app_table_ok d"
  shows "t_app (snd (StartAppInit env env' h d)) = [\<lparr>app_DataHash = h, app_status = Initializing\<rparr>]
         \<and> (\<exists>a. t_app d = [a] \<and> app_status a \<noteq> Initializing)"
proof -
  obtain a where a: "GetApp env d = Inr a" using assms(2)
    by (cases "GetApp env d") (auto simp: StartAppInit_def)
  then have d: "t_app d = [a]"
    using querySingleRow_ok [of env 0 "t_app d" a] assms(3) by (auto simp: GetApp_def app_table_ok_def)
  let ?st = "update_app (env_dialect env') (\<lambda>r. app_status r \<noteq> Initializing)
               (\<lambda>r. r\<lparr>app_DataHash := h, app_status := Initializing\<rparr>)"
  obtain err d' where w: "transactionalSingleRowWriteExec env' ?st d = (err, d')" by fastforce
  have "app_status a \<noteq> Initializing" and e: "err = None" "snd (StartAppInit env env' h d) = d'"
    using assms(2) a w by (auto simp: StartAppInit_def Let_def split: if_splits)
  moreover have "?st d = Inr (1, d')" using single_write_ok [OF assms(1)] w e by simp
  ultimately show ?thesis
    unfolding e(2) using d by (cases a) (auto simp: update_app_def sql_update_def split: if_splits)
qed

lemma StartAppInit_blocked:
  "t_app d = [a] \<Longrightarrow> app_status a = Initializing \<Longrightarrow>
   fst (StartAppInit env env' h d) \<noteq> None \<and> snd (StartAppInit env env' h d) = d"
  by (auto simp: StartAppInit_def GetApp_def querySingleRow_def queryRows_def Let_def
      split: option.splits fault.splits sum.splits)

lemma CompleteAppInit_runs:
  "quiet env \<Longrightarrow> quiet env' \<Longrightarrow> t_app d = [a] \<Longrightarrow> app_status a = Initializing \<Longrightarrow>
   CompleteAppInit env env' d = (None, d\<lparr>t_app := [a\<lparr>app_status := Initialized\<rparr>]\<rparr>)"
  by (cases a) (simp add: CompleteAppInit_def GetApp_def querySingleRow_quiet single_write_quiet
      update_app_def sql_update_def)

lemma StartAppInit_unchanged_seed:
  "quiet env \<Longrightarrow> t_app d = [a] \<Longrightarrow> app_status a = Initialized \<Longrightarrow>
   StartAppInit env env' (app_DataHash a) d = (Some ErrNoDataChangeFromInitialized, d)"
  by (simp add: StartAppInit_def GetApp_def querySingleRow_quiet)

subsection \<open>Properties\<close>


definition sample_lock :: Lock where
  "sample_lock = \<lparr>LockID = ''job-parking-drainer'', AttainedAt = 7000000000\<rparr>"




end
