(* ===== verification/Pause_Registry.thy ===== *)
theory Pause_Registry
  imports Pause_Repo
begin

section \<open>The in-memory pause snapshot: dispatcher/pause.go\<close>

text \<open>
  \<^verbatim>\<open>PauseRegistryImpl\<close> publishes an immutable snapshot of the pauses and rebuilds the
  \<^verbatim>\<open>dispatch_paused\<close> gauge with it.  \<open>getByID\<close> is the consumer repository it resolves labels with.
  The operations hold \<^verbatim>\<open>writeMutex\<close>, so each is one step.  The registry implements the same contract as
  the stored pauses (\<open>pause_store\<close>), from which follows that a registry that was refreshed and then
  received every pause and resume as a write-through answers like the database.
\<close>

record pauseSnapshot =
  snap_global :: "DispatchPause option"
  snap_consumers :: "(string, DispatchPause) gomap"

record PauseRegistry =
  state :: pauseSnapshot
  DispatchPaused :: "(string \<times> string, int) gomap"

definition globalPauseMetricLabel :: string where
  "globalPauseMetricLabel = ''*''"

definition add_to_snapshot :: "DispatchPause \<Rightarrow> pauseSnapshot \<Rightarrow> pauseSnapshot" where
  "add_to_snapshot pause snapshot =
     (if IsGlobal pause then snapshot\<lparr>snap_global := Some pause\<rparr>
      else snapshot\<lparr>snap_consumers := mput (Scope pause) pause (snap_consumers snapshot)\<rparr>)"

definition newPauseSnapshot :: "DispatchPause list \<Rightarrow> pauseSnapshot" where
  "newPauseSnapshot pauses =
     fold add_to_snapshot pauses \<lparr>snap_global = None, snap_consumers = []\<rparr>"

definition snapshot_all :: "pauseSnapshot \<Rightarrow> DispatchPause list" where
  "snapshot_all snapshot =
     (case snap_global snapshot of None \<Rightarrow> [] | Some p \<Rightarrow> [p]) @ map snd (snap_consumers snapshot)"

definition pause_labels :: "(string \<Rightarrow> Consumer result) \<Rightarrow> string \<Rightarrow> string \<times> string" where
  "pause_labels getByID i =
     (case getByID i of
        Inr consumer \<Rightarrow> (consumer_GetChannelIDSafely consumer, ConsumerID consumer)
      | Inl _ \<Rightarrow> (i, i))"

definition publish ::
  "(string \<Rightarrow> Consumer result) \<Rightarrow> pauseSnapshot \<Rightarrow> PauseRegistry \<Rightarrow> PauseRegistry" where
  "publish getByID snapshot registry =
     (let g0 = [];
          g1 = (if snap_global snapshot \<noteq> None
                then mput (globalPauseMetricLabel, globalPauseMetricLabel) 1 g0 else g0)
      in registry\<lparr>state := snapshot,
                  DispatchPaused := fold (\<lambda>i g. mput (pause_labels getByID i) 1 g)
                                      (map fst (snap_consumers snapshot)) g1\<rparr>)"

definition IsGloballyPaused :: "PauseRegistry \<Rightarrow> bool" where
  "IsGloballyPaused registry \<longleftrightarrow> snap_global (state registry) \<noteq> None"

definition IsEffectivelyPaused :: "PauseRegistry \<Rightarrow> string \<Rightarrow> bool" where
  "IsEffectivelyPaused registry i =
     (if snap_global (state registry) \<noteq> None then True
      else mget (snap_consumers (state registry)) i \<noteq> None)"

definition Snapshot :: "PauseRegistry \<Rightarrow> DispatchPause list" where
  "Snapshot registry = snapshot_all (state registry)"

fun replace_pause :: "DispatchPause \<Rightarrow> DispatchPause list \<Rightarrow> bool \<times> DispatchPause list" where
  "replace_pause pause [] = (False, [])"
| "replace_pause pause (existing # rest) =
     (case replace_pause pause rest of
        (replaced, rest') \<Rightarrow>
          if Scope existing = Scope pause then (True, pause # rest') else (replaced, existing # rest'))"

definition Apply ::
  "(string \<Rightarrow> Consumer result) \<Rightarrow> DispatchPause option \<Rightarrow> PauseRegistry \<Rightarrow> PauseRegistry" where
  "Apply getByID pause registry =
     (case pause of
        None \<Rightarrow> registry
      | Some p \<Rightarrow>
          (case replace_pause p (snapshot_all (state registry)) of
             (replaced, pauses) \<Rightarrow>
               publish getByID (newPauseSnapshot (if \<not> replaced then pauses @ [p] else pauses)) registry))"

definition Remove :: "(string \<Rightarrow> Consumer result) \<Rightarrow> string \<Rightarrow> PauseRegistry \<Rightarrow> PauseRegistry" where
  "Remove getByID scope registry =
     (let remaining = filter (\<lambda>p. Scope p \<noteq> scope) (snapshot_all (state registry))
      in publish getByID (newPauseSnapshot remaining) registry)"

definition Refresh ::
  "(string \<Rightarrow> Consumer result) \<Rightarrow> dbenv \<Rightarrow> db \<Rightarrow> PauseRegistry \<Rightarrow> error option \<times> PauseRegistry" where
  "Refresh getByID env d registry =
     (case pause_GetAll env d of
        Inl e \<Rightarrow> (Some e, registry)
      | Inr pauses \<Rightarrow> (None, publish getByID (newPauseSnapshot pauses) registry))"

definition NewPauseRegistry :: "(string \<Rightarrow> Consumer result) \<Rightarrow> dbenv \<Rightarrow> db \<Rightarrow> PauseRegistry" where
  "NewPauseRegistry getByID env d =
     snd (Refresh getByID env d \<lparr>state = newPauseSnapshot [], DispatchPaused = []\<rparr>)"

subsection \<open>The registry keeps a set of scopes\<close>

definition snap_ok :: "pauseSnapshot \<Rightarrow> bool" where
  "snap_ok s \<longleftrightarrow> (\<forall>p. snap_global s = Some p \<longrightarrow> IsGlobal p) \<and> wf_map (snap_consumers s) \<and>
     (\<forall>(k, p) \<in> set (snap_consumers s). k = Scope p \<and> \<not> IsGlobal p)"

definition snap_scopes :: "pauseSnapshot \<Rightarrow> string set" where
  "snap_scopes s = Scope ` set (snapshot_all s)"

definition registry_ok :: "PauseRegistry \<Rightarrow> bool" where
  "registry_ok reg \<longleftrightarrow> snap_ok (state reg)"

definition registry_scopes :: "PauseRegistry \<Rightarrow> string set" where
  "registry_scopes reg = snap_scopes (state reg)"

lemma publish_state [simp]: "state (publish g s reg) = s"
  by (simp add: publish_def Let_def)

lemma add_to_snapshot_ok: "snap_ok s \<Longrightarrow> snap_ok (add_to_snapshot p s)"
  by (auto simp: snap_ok_def add_to_snapshot_def set_mput)

lemma snap_scopes_iff:
  assumes ok: "snap_ok s"
  shows "x \<in> snap_scopes s \<longleftrightarrow>
     (if x = GlobalDispatchPauseScope then snap_global s \<noteq> None else mget (snap_consumers s) x \<noteq> None)"
proof -
  let ?m = "snap_consumers s"
  have k: "k = Scope p \<and> k \<noteq> GlobalDispatchPauseScope" if "(k, p) \<in> set ?m" for k p
    using ok that by (auto simp: snap_ok_def IsGlobal_def)
  have "x \<in> Scope ` snd ` set ?m \<longleftrightarrow> x \<in> mkeys ?m" using k by force
  also have "\<dots> \<longleftrightarrow> mget ?m x \<noteq> None" by (rule mkeys_mget)
  finally have m: "x \<in> Scope ` snd ` set ?m \<longleftrightarrow> mget ?m x \<noteq> None" .
  have n: "x \<noteq> GlobalDispatchPauseScope" if "x \<in> Scope ` snd ` set ?m" using that k by force
  show ?thesis
  proof (cases "snap_global s")
    case None
    then show ?thesis using m n by (auto simp: snap_scopes_def snapshot_all_def)
  next
    case (Some p)
    then have "Scope p = GlobalDispatchPauseScope" using ok by (simp add: snap_ok_def IsGlobal_def)
    with Some m show ?thesis by (auto simp: snap_scopes_def snapshot_all_def)
  qed
qed

lemma snap_no_global: "snap_ok s \<Longrightarrow> mget (snap_consumers s) GlobalDispatchPauseScope = None"
  using mkeys_mget [of GlobalDispatchPauseScope "snap_consumers s"]
  by (force simp: snap_ok_def IsGlobal_def)

lemma add_to_snapshot_scopes:
  assumes "snap_ok s"
  shows "snap_scopes (add_to_snapshot p s) = insert (Scope p) (snap_scopes s)"
proof (rule set_eqI)
  fix x
  show "x \<in> snap_scopes (add_to_snapshot p s) \<longleftrightarrow> x \<in> insert (Scope p) (snap_scopes s)"
    using assms add_to_snapshot_ok [OF assms, of p]
    by (simp add: snap_scopes_iff) (auto simp: add_to_snapshot_def IsGlobal_def)
qed

lemma fold_snapshot:
  "snap_ok s \<Longrightarrow> snap_ok (fold add_to_snapshot ps s) \<and>
   snap_scopes (fold add_to_snapshot ps s) = snap_scopes s \<union> Scope ` set ps"
  by (induction ps arbitrary: s) (auto simp: add_to_snapshot_ok add_to_snapshot_scopes)

lemma newPauseSnapshot_ok [simp]: "snap_ok (newPauseSnapshot ps)"
  using fold_snapshot [of "\<lparr>snap_global = None, snap_consumers = []\<rparr>" ps]
  by (simp add: newPauseSnapshot_def snap_ok_def)

lemma newPauseSnapshot_scopes [simp]: "snap_scopes (newPauseSnapshot ps) = Scope ` set ps"
proof -
  have "snap_scopes \<lparr>snap_global = None, snap_consumers = []\<rparr> = {}"
    by (simp add: snap_scopes_def snapshot_all_def)
  moreover have "snap_ok \<lparr>snap_global = None, snap_consumers = []\<rparr>" by (simp add: snap_ok_def)
  ultimately show ?thesis
    using fold_snapshot [of "\<lparr>snap_global = None, snap_consumers = []\<rparr>" ps] by (simp add: newPauseSnapshot_def)
qed

lemma replace_pause_scopes:
  "replace_pause p ps = (r, ps') \<Longrightarrow> Scope ` set ps' = Scope ` set ps \<and> (r \<longleftrightarrow> Scope p \<in> Scope ` set ps)"
  by (induction ps arbitrary: r ps') (auto split: prod.splits if_splits)

lemma IsEffectivelyPaused_iff:
  "registry_ok reg \<Longrightarrow> IsEffectivelyPaused reg c \<longleftrightarrow> paused_in (registry_scopes reg) c"
  by (auto simp: IsEffectivelyPaused_def paused_in_def registry_scopes_def registry_ok_def snap_scopes_iff
      snap_no_global split: if_splits)

lemma Apply_scopes:
  "registry_scopes (Apply g (Some p) reg) = insert (Scope p) (registry_scopes reg)"
proof -
  obtain r ps where rp: "replace_pause p (snapshot_all (state reg)) = (r, ps)" by fastforce
  show ?thesis
    using replace_pause_scopes [OF rp]
    by (auto simp: Apply_def rp registry_scopes_def snap_scopes_def [of "state reg"])
qed

lemma Apply_ok: "registry_ok reg \<Longrightarrow> registry_ok (Apply g p reg)"
  by (auto simp: Apply_def registry_ok_def split: option.splits prod.splits)

lemma Remove_ok: "registry_ok (Remove g x reg)"
  by (simp add: Remove_def registry_ok_def Let_def)

lemma Remove_scopes: "registry_scopes (Remove g x reg) = registry_scopes reg - {x}"
  by (auto simp: Remove_def registry_scopes_def snap_scopes_def [of "state reg"] Let_def)

interpretation registry: pause_store registry_scopes registry_ok "\<lambda>_ _. True"
  "\<lambda>p reg. Apply g (Some p) reg" "Remove g" IsEffectivelyPaused for g
  by unfold_locales
    (simp_all add: Apply_ok Remove_ok Apply_scopes Remove_scopes IsEffectivelyPaused_iff)

lemma Refresh_scopes:
  assumes "Refresh g env d reg = (None, reg')"
  shows "registry_ok reg' \<and> registry_scopes reg' = pause_scopes d"
proof -
  have "Scope ` row_pause ` rows = ps_scope ` rows" for rows
    by (simp add: image_image row_pause_def)
  then show ?thesis
    using assms
    by (auto simp: Refresh_def pause_GetAll_def queryRows_def registry_ok_def registry_scopes_def
        pause_scopes_def split: option.splits sum.splits fault.splits)
qed

lemma Refresh_failed: "fst (Refresh g env d reg) = Some e \<Longrightarrow> snd (Refresh g env d reg) = reg"
  by (auto simp: Refresh_def split: sum.splits)

text \<open>The gauge has exactly the labels of the paused scopes, each with value 1.\<close>

lemma fold_labels:
  "mget (fold (\<lambda>i g. mput (f i) 1 g) is g) l = (if l \<in> f ` set is then Some 1 else mget g l)"
  by (induction "is" arbitrary: g) auto

lemma publish_gauge:
  "mget (DispatchPaused (publish g s reg)) l =
     (if (l = (globalPauseMetricLabel, globalPauseMetricLabel) \<and> snap_global s \<noteq> None) \<or>
         l \<in> pause_labels g ` mkeys (snap_consumers s) then Some 1 else None)"
  by (simp add: publish_def Let_def fold_labels del: not_None_eq)

subsection \<open>Properties\<close>

text \<open>
  C13: a registry refreshed from the database, and then told of every pause and resume that is made in
  the database (the write-through of the API handlers), answers \<^verbatim>\<open>IsEffectivelyPaused\<close> exactly as the
  database query does, for every consumer and every sequence of valid pauses and resumes, the global
  pause included.
\<close>

theorem registry_tracks_database:
  assumes "Refresh g env d reg = (None, reg')" "pause_table_ok d"
    "list_all (\<lambda>op. case op of OpPause p \<Rightarrow> pause_valid (calm di t) d p | OpResume x \<Rightarrow> True) ops"
  shows "IsEffectivelyPaused
           (fold (\<lambda>op r. case op of OpPause p \<Rightarrow> Apply g (Some p) r | OpResume x \<Rightarrow> Remove g x r) ops reg') c
       \<longleftrightarrow> effectively_paused
           (fold (\<lambda>op d. case op of OpPause p \<Rightarrow> snd (pause_Pause (calm di t) (calm di t) (Some p) d)
                          | OpResume x \<Rightarrow> snd (pause_Resume (calm di t) x d)) ops d) c"
proof -
  have r: "registry.step g = (\<lambda>op r. case op of OpPause p \<Rightarrow> Apply g (Some p) r | OpResume x \<Rightarrow> Remove g x r)"
    by (intro ext) (simp split: pause_op.split)
  have s: "repo.step di t = (\<lambda>op d. case op of OpPause p \<Rightarrow> snd (pause_Pause (calm di t) (calm di t) (Some p) d)
                          | OpResume x \<Rightarrow> snd (pause_Resume (calm di t) x d))"
    by (intro ext) (simp split: pause_op.split)
  have o: "repo.op_ok di t d = (\<lambda>op. case op of OpPause p \<Rightarrow> pause_valid (calm di t) d p | OpResume x \<Rightarrow> True)"
    by (intro ext) (simp split: pause_op.split)
  have t: "registry.op_ok reg' op" for op by (cases op) simp_all
  show ?thesis
    using registry.run_paused [of reg' ops g c] repo.run_paused [OF assms(2), of di t ops c]
      Refresh_scopes [OF assms(1)] assms(3) t
    by (simp add: r s o list_all_iff)
qed

definition sample_pause :: DispatchPause where
  "sample_pause = \<lparr>Scope = ''c1'', pause_ConsumerID = ''c1'', Reason = ''maintenance'', PausedAt = 5000000000\<rparr>"

definition paused_consumer_db :: db where
  "paused_consumer_db = empty_db\<lparr>t_consumer :=
     [\<lparr>c_id = ''c1'', c_consumerId = ''a'', c_channelId = ''ch'', c_name = ''a'', c_token = ''t'',
       c_callbackUrl = ''http://x/'', c_type = PushConsumer, c_createdAt = 1, c_updatedAt = 1\<rparr>]\<rparr>"

theorem registry_tracks_database_witness:
  "IsEffectivelyPaused (fold (\<lambda>op r. case op of OpPause p \<Rightarrow> Apply (\<lambda>_. Inl ErrNoRows) (Some p) r
        | OpResume x \<Rightarrow> Remove (\<lambda>_. Inl ErrNoRows) x r)
      [OpPause sample_pause, OpPause (NewGlobalDispatchPause 6 ''all''), OpResume GlobalDispatchPauseScope]
      (NewPauseRegistry (\<lambda>_. Inl ErrNoRows) (calm MySQLDialect 1) paused_consumer_db)) ''c1'' = True"
proof -
  let ?g = "\<lambda>_ :: string. Inl ErrNoRows"
  let ?d = paused_consumer_db
  let ?ops = "[OpPause sample_pause, OpPause (NewGlobalDispatchPause 6 ''all''), OpResume GlobalDispatchPauseScope]"
  have "Refresh ?g (calm MySQLDialect 1) ?d \<lparr>state = newPauseSnapshot [], DispatchPaused = []\<rparr>
      = (None, NewPauseRegistry ?g (calm MySQLDialect 1) ?d)" by code_simp
  moreover have "pause_table_ok ?d" by code_simp
  moreover have "list_all (\<lambda>op. case op of OpPause p \<Rightarrow> pause_valid (calm MySQLDialect 9) ?d p | OpResume x \<Rightarrow> True) ?ops"
    by code_simp
  ultimately show ?thesis
    using registry_tracks_database [of ?g "calm MySQLDialect 1" ?d
        "\<lparr>state = newPauseSnapshot [], DispatchPaused = []\<rparr>" "NewPauseRegistry ?g (calm MySQLDialect 1) ?d"
        MySQLDialect 9 ?ops "''c1''"]
    by simp code_simp
qed

end
