(* ===== verification/Dispatcher.thy ===== *)
theory Dispatcher
  imports Worker Lock_Repo Pause_Registry
begin

section \<open>The dispatcher of a node: dispatcher/msgdispatcher.go\<close>

text \<open>
  The state of a node's dispatcher: the database it shares with the other nodes, its pause registry,
  the channel \<^verbatim>\<open>jobQueue\<close> (the addresses of the jobs sent and not yet received; a send to a full channel
  only waits), the lane scheduler with the heap of jobs, the next free address and the counter of parked
  jobs.  An operation ends normally or with a panic, in the state it had reached then.  The repositories
  it calls are the ones of the storage theories; their environments are \<open>es i k\<close> for the \<open>k\<close>-th call
  made for the \<open>i\<close>-th element of a loop.
\<close>

subsection \<open>State\<close>

record disp =
  d_db :: db
  registry :: PauseRegistry
  jobQueue :: "job_ref list"
  next_ref :: job_ref
  scheduler :: laneScheduler
  ParkedJobsTotal :: "(string, nat) gomap"

datatype 'a outcome = Done 'a disp | Panicked disp

primrec out_state :: "'a outcome \<Rightarrow> disp" where
  "out_state (Done x w) = w"
| "out_state (Panicked w) = w"

definition NewMessageDispatcher :: "Config \<Rightarrow> PauseRegistry \<Rightarrow> MetricsContainer \<Rightarrow> job_store \<Rightarrow> db \<Rightarrow> disp" where
  "NewMessageDispatcher cfg reg m heap d =
     \<lparr>d_db = d, registry = reg, jobQueue = [], next_ref = 0,
      scheduler = newLaneScheduler (GetConsumerMaxConcurrency cfg) m heap, ParkedJobsTotal = []\<rparr>"

definition stopTimeout :: "Config \<Rightarrow> duration" where
  "stopTimeout cfg = wrap64 (ConnectionTimeout cfg + 250 * millisecond)"

definition ParkReasonDispatch :: string where
  "ParkReasonDispatch = ''dispatch''"

definition ParkReasonRetry :: string where
  "ParkReasonRetry = ''retry''"

definition ParkReasonHandoff :: string where
  "ParkReasonHandoff = ''handoff''"

subsection \<open>Creating the jobs of a message\<close>

function list_consumers ::
  "(nat \<Rightarrow> dbenv) \<Rightarrow> chRepo \<Rightarrow> string \<Rightarrow> db \<Rightarrow> nat \<Rightarrow> Cursor option \<Rightarrow> Consumer list \<times> error option" where
  "list_consumers es chGet channelID d i c =
     (case consumer_GetList (es i) chGet channelID (Some (next_page c)) d of
        ((consumersPage, page), Some e) \<Rightarrow> (consumersPage, Some e)
      | ((consumersPage, page), None) \<Rightarrow>
          (case Next page of
             None \<Rightarrow> (consumersPage, None)
           | Some c' \<Rightarrow>
               (case list_consumers es chGet channelID d (Suc i) (Some c') of
                  (rest, err) \<Rightarrow> (consumersPage @ rest, err))))"
  by pat_completeness auto

lemma consumer_GetList_next:
  assumes "consumer_GetList env chGet channelID (Some (next_page c)) d = ((cs, page), None)" "Next page = Some c'"
  shows "length (filter (in_page c_id c_createdAt (next_page (Some c'))) (t_consumer d))
       < length (filter (in_page c_id c_createdAt (next_page c)) (t_consumer d))"
proof -
  let ?P = "\<lambda>r. sql_like (env_dialect env) channelID (c_channelId r)"
  let ?pg = "select_page c_id c_createdAt 25 (next_page c) (filter ?P (t_consumer d))"
  have l: "page = page_links c_id c_createdAt ?pg"
    using assms(1) by (auto simp: consumer_GetList_def queryRows_def split: if_splits prod.splits option.splits sum.splits fault.splits)
  then have "?pg \<noteq> []" "c' = page_cursor c_id c_createdAt (last ?pg)"
    using assms(2) by (auto simp: page_links_def no_page_def split: if_splits)
  then show ?thesis using page_shrinks [OF refl, of c_id c_createdAt 25 c ?P "t_consumer d"] by simp
qed

termination list_consumers
proof (relation "measure (\<lambda>(es, chGet, channelID, d, i, c).
         length (filter (in_page c_id c_createdAt (next_page c)) (t_consumer d)))", goal_cases)
  case 2
  then show ?case by (auto dest: sym intro!: consumer_GetList_next)
qed simp

declare list_consumers.simps [simp del]

text \<open>After the first error the remaining entries of the slice stay nil.\<close>

fun make_jobs ::
  "(nat \<Rightarrow> xid) \<Rightarrow> time \<Rightarrow> Message \<Rightarrow> nat \<Rightarrow> Consumer list \<Rightarrow> DeliveryJob option list \<times> error option" where
  "make_jobs ids t message i [] = ([], None)"
| "make_jobs ids t message i (consumer # rest) =
     (case NewDeliveryJob (ids i) t (Some message) (Some consumer) of
        (job, Some e) \<Rightarrow> (Some job # map (\<lambda>_. None) rest, Some e)
      | (job, None) \<Rightarrow>
          (case make_jobs ids t message (Suc i) rest of (jobs, err) \<Rightarrow> (Some job # jobs, err)))"

definition createJobs ::
  "(nat \<Rightarrow> dbenv) \<Rightarrow> chRepo \<Rightarrow> (nat \<Rightarrow> xid) \<Rightarrow> time \<Rightarrow> Message \<Rightarrow> db \<Rightarrow> DeliveryJob option list \<times> error option" where
  "createJobs es chGet ids t message d =
     (case list_consumers es chGet (message_GetChannelIDSafely message) d 0 None of
        (consumers, Some e) \<Rightarrow> (map (\<lambda>_. None) consumers, Some e)
      | (consumers, None) \<Rightarrow> make_jobs ids t message 0 consumers)"

definition splitPausedJobs :: "PauseRegistry \<Rightarrow> DeliveryJob list \<Rightarrow> DeliveryJob list \<times> DeliveryJob list" where
  "splitPausedJobs reg jobs =
     (filter (\<lambda>job. \<not> IsEffectivelyPaused reg (job_ListenerID job)) jobs,
      filter (\<lambda>job. IsEffectivelyPaused reg (job_ListenerID job)) jobs)"

subsection \<open>Queueing a job\<close>

definition send_job :: "DeliveryJob \<Rightarrow> disp \<Rightarrow> disp" where
  "send_job job w =
     w\<lparr>scheduler := (scheduler w)\<lparr>store := (store (scheduler w))(next_ref w := NewJob job)\<rparr>,
       jobQueue := jobQueue w @ [next_ref w], next_ref := next_ref w + 1\<rparr>"

definition parkOrQueue :: "dbenv \<Rightarrow> DeliveryJob \<Rightarrow> string \<Rightarrow> disp \<Rightarrow> bool outcome" where
  "parkOrQueue env job reason w =
     (case Listener job of
        None \<Rightarrow> Panicked w
      | Some listener \<Rightarrow>
          if IsEffectivelyPaused (registry w) (ID listener) then
            (case reparkJob env job reason (ParkedJobsTotal w) (d_db w) of
               (mv, parked', d') \<Rightarrow>
                 let w' = w\<lparr>d_db := d', ParkedJobsTotal := parked'\<rparr>
                 in if mv then Done False w' else Done True (send_job job w'))
          else Done True (send_job job w))"

definition queueJob :: "dbenv \<Rightarrow> DeliveryJob \<Rightarrow> disp \<Rightarrow> unit outcome" where
  "queueJob env job w =
     (case Listener job of
        None \<Rightarrow> Panicked w
      | Some listener \<Rightarrow>
          if CType listener \<noteq> PushConsumer then Done () w
          else (case parkOrQueue env job ParkReasonRetry w of Panicked w' \<Rightarrow> Panicked w' | Done _ w' \<Rightarrow> Done () w'))"

fun queue_jobs :: "(nat \<Rightarrow> dbenv) \<Rightarrow> nat \<Rightarrow> DeliveryJob list \<Rightarrow> disp \<Rightarrow> unit outcome" where
  "queue_jobs es i [] w = Done () w"
| "queue_jobs es i (job # rest) w =
     (case queueJob (es i) job w of Panicked w' \<Rightarrow> Panicked w' | Done _ w' \<Rightarrow> queue_jobs es (Suc i) rest w')"

fun EnqueueJobs :: "(nat \<Rightarrow> dbenv) \<Rightarrow> nat \<Rightarrow> DeliveryJob option list \<Rightarrow> disp \<Rightarrow> nat \<times> disp" where
  "EnqueueJobs es i [] w = (0, w)"
| "EnqueueJobs es i (None # rest) w = EnqueueJobs es (Suc i) rest w"
| "EnqueueJobs es i (Some job # rest) w =
     (case Listener job of
        None \<Rightarrow> EnqueueJobs es (Suc i) rest w
      | Some listener \<Rightarrow>
          if CType listener \<noteq> PushConsumer then EnqueueJobs es (Suc i) rest w
          else (case parkOrQueue (es i) job ParkReasonHandoff w of
                  Panicked w' \<Rightarrow> (0, w')
                | Done queued w' \<Rightarrow>
                    (case EnqueueJobs es (Suc i) rest w' of (n, w'') \<Rightarrow> (if queued then Suc n else n, w''))))"

definition QueueDepth :: "disp \<Rightarrow> nat" where
  "QueueDepth w = length (jobQueue w) + queuedLen (scheduler w)"

text \<open>The loop of \<^verbatim>\<open>startMessageDispatcher\<close> receives one job; \<open>None\<close> is a panic in the scheduler.\<close>

definition dispatchJob :: "disp \<Rightarrow> disp option" where
  "dispatchJob w =
     (case jobQueue w of
        [] \<Rightarrow> Some w
      | r # rest \<Rightarrow>
          map_option (\<lambda>(_, s). w\<lparr>jobQueue := rest, scheduler := s\<rparr>) (enqueue r (scheduler w)))"

fun releaseUnreadJobs :: "job_ref option list \<Rightarrow> laneScheduler \<Rightarrow> laneScheduler option" where
  "releaseUnreadJobs [] s = Some s"
| "releaseUnreadJobs (None # rest) s = releaseUnreadJobs rest s"
| "releaseUnreadJobs (Some job # rest) s =
     (case done_job job s of None \<Rightarrow> None | Some s' \<Rightarrow> releaseUnreadJobs rest s')"

subsection \<open>Dispatch\<close>

text \<open>\<open>le\<close> lists the consumers, \<open>tx\<close> is the transaction, \<open>qe\<close> queues the jobs.\<close>

definition Dispatch ::
  "(nat \<Rightarrow> dbenv) \<Rightarrow> dbenv \<Rightarrow> (nat \<Rightarrow> dbenv) \<Rightarrow> chRepo \<Rightarrow> (nat \<Rightarrow> xid) \<Rightarrow> time \<Rightarrow> Message option \<Rightarrow> disp \<Rightarrow>
   unit outcome" where
  "Dispatch le tx qe chGet ids t message w =
     (case message of
        None \<Rightarrow> Done () w
      | Some m \<Rightarrow>
          if \<not> message_IsInValidState m then Done () w
          else
            (case createJobs le chGet ids t m (d_db w) of
               (_, Some e) \<Rightarrow> Done () w
             | (jobs, None) \<Rightarrow>
                 (case splitPausedJobs (registry w) (map the jobs) of
                    (active, parked) \<Rightarrow>
                      (case DispatchMessageWithParking tx message (map Some active) (map Some parked) (d_db w) of
                         ((Some e, _), d') \<Rightarrow> Done () (w\<lparr>d_db := d'\<rparr>)
                       | ((None, _), d') \<Rightarrow>
                           queue_jobs qe 0 active
                             (w\<lparr>d_db := d', ParkedJobsTotal := (if length parked > 0
                                 then count_parked ParkReasonDispatch (length parked) (ParkedJobsTotal w)
                                 else ParkedJobsTotal w)\<rparr>)))))"

subsection \<open>Running under a lock\<close>

definition inLockRun ::
  "dbenv \<Rightarrow> dbenv \<Rightarrow> time \<Rightarrow> string option \<Rightarrow> (disp \<Rightarrow> error option outcome) \<Rightarrow> disp \<Rightarrow> error option outcome" where
  "inLockRun lockEnv releaseEnv t lockable run w =
     (case NewLock t lockable of
        (_, Some e) \<Rightarrow> Done (if e = ErrAlreadyLocked then None else Some e) w
      | (lock, None) \<Rightarrow>
          (case TryLock lockEnv lock (d_db w) of
             (Some e, d') \<Rightarrow> Done (if e = ErrAlreadyLocked then None else Some e) (w\<lparr>d_db := d'\<rparr>)
           | (None, d') \<Rightarrow>
               (case run (w\<lparr>d_db := d'\<rparr>) of
                  Panicked w' \<Rightarrow> Panicked (w'\<lparr>d_db := snd (ReleaseLock releaseEnv lock (d_db w'))\<rparr>)
                | Done err w' \<Rightarrow>
                    Done (if err = Some ErrAlreadyLocked then None else err)
                      (w'\<lparr>d_db := snd (ReleaseLock releaseEnv lock (d_db w'))\<rparr>))))"

subsection \<open>Recovery passes\<close>

text \<open>
  A pass visits its elements in order; a panic ends the pass and is recovered by
  \<^verbatim>\<open>genericPanicRecoveryFunc\<close>.
\<close>

fun visit :: "(nat \<Rightarrow> 'a \<Rightarrow> disp \<Rightarrow> error option outcome) \<Rightarrow> nat \<Rightarrow> 'a list \<Rightarrow> disp \<Rightarrow> disp" where
  "visit f i [] w = w"
| "visit f i (x # xs) w =
     (case f i x w of Panicked w' \<Rightarrow> w' | Done _ w' \<Rightarrow> visit f (Suc i) xs w')"

record repos =
  r_chGet :: chRepo
  r_prGet :: prRepo
  r_msgByIDs :: msgByIDsRepo
  r_conByID :: conByIDRepo

definition recoverMessagesNotYetDispatched ::
  "Config \<Rightarrow> repos \<Rightarrow> (nat \<Rightarrow> nat \<Rightarrow> dbenv) \<Rightarrow> (nat \<Rightarrow> nat \<Rightarrow> dbenv) \<Rightarrow> (nat \<Rightarrow> nat \<Rightarrow> dbenv) \<Rightarrow> (nat \<Rightarrow> nat \<Rightarrow> xid) \<Rightarrow> time \<Rightarrow> disp \<Rightarrow>
   disp" where
  "recoverMessagesNotYetDispatched cfg rp es le qe ids t w =
     (let w1 = w\<lparr>d_db := snd (TimeoutLocks (es 0 0) (RationalDelay cfg) (d_db w))\<rparr>;
          messages = GetMessagesNotDispatchedForCertainPeriod (es 1) t (r_chGet rp) (r_prGet rp) (RationalDelay cfg) (d_db w1)
      in visit (\<lambda>i message.
           inLockRun (es (i + 2) 0) (es (i + 2) 2) t (Some (message_GetLockID message))
             (\<lambda>w. case Dispatch (le i) (es (i + 2) 1) (qe i) (r_chGet rp) (ids i) t (Some message) w of
                    Panicked w' \<Rightarrow> Panicked w' | Done _ w' \<Rightarrow> Done None w')) 0 messages w1)"

definition retry_one :: "Config \<Rightarrow> (nat \<Rightarrow> nat \<Rightarrow> dbenv) \<Rightarrow> time \<Rightarrow> nat \<Rightarrow> DeliveryJob \<Rightarrow> disp \<Rightarrow> error option outcome" where
  "retry_one cfg es t i job w =
     (case Listener job of
        None \<Rightarrow> Panicked w
      | Some listener \<Rightarrow>
          if CType listener = PullConsumer then
            (if RetryAttemptCount job \<ge> MaxRetry cfg then
               inLockRun (es i 0) (es i 2) t (Some (job_GetLockID job))
                 (\<lambda>w. case MarkQueuedJobAsDead (es i 1) job (d_db w) of ((err, _), d') \<Rightarrow> Done err (w\<lparr>d_db := d'\<rparr>)) w
             else Done None w)
          else if isHeld job (scheduler w) then Done None w
          else inLockRun (es i 0) (es i 2) t (Some (job_GetLockID job))
                 (\<lambda>w. case queueJob (es i 1) job w of Panicked w' \<Rightarrow> Panicked w' | Done _ w' \<Rightarrow> Done None w') w)"

definition retryQueuedJobs ::
  "Config \<Rightarrow> repos \<Rightarrow> (nat \<Rightarrow> dbenv) \<Rightarrow> (nat \<Rightarrow> nat \<Rightarrow> dbenv) \<Rightarrow> time \<Rightarrow> disp \<Rightarrow> disp" where
  "retryQueuedJobs cfg rp pe es t w =
     visit (retry_one cfg es t) 0
       (GetJobsReadyForInflightSince pe (r_msgByIDs rp) (r_conByID rp) (RationalDelay cfg) (int (MaxRetry cfg)) (d_db w)) w"

definition shouldEnqueueLongInflightJob :: "Config \<Rightarrow> time \<Rightarrow> DeliveryJob \<Rightarrow> Consumer \<Rightarrow> bool" where
  "shouldEnqueueLongInflightJob cfg t job listener =
     (let totalDuration = wrap64 (int (IncrementalTimeout job) * second + RationalDelay cfg + stopTimeout cfg);
          changeAllowedThreshold = t - totalDuration
      in CType listener = PushConsumer \<or> CType listener = PullConsumer \<and> StatusChangedAt job < changeAllowedThreshold)"

definition recover_one :: "Config \<Rightarrow> (nat \<Rightarrow> nat \<Rightarrow> dbenv) \<Rightarrow> time \<Rightarrow> nat \<Rightarrow> DeliveryJob \<Rightarrow> disp \<Rightarrow> error option outcome" where
  "recover_one cfg es t i job w =
     (case Listener job of
        None \<Rightarrow> Panicked w
      | Some listener \<Rightarrow>
          if \<not> shouldEnqueueLongInflightJob cfg t job listener then Done None w
          else inLockRun (es i 0) (es i 2) t (Some (job_GetLockID job))
                 (\<lambda>w. case computeEarliestDelta (RetryAttemptCount job + 1) cfg of
                        None \<Rightarrow> Panicked w
                      | Some delta \<Rightarrow> Done None (w\<lparr>d_db := snd (MarkJobRetry (es i 1) job delta (d_db w))\<rparr>)) w)"

definition recoverJobsFromLongInflight ::
  "Config \<Rightarrow> repos \<Rightarrow> (nat \<Rightarrow> dbenv) \<Rightarrow> (nat \<Rightarrow> nat \<Rightarrow> dbenv) \<Rightarrow> time \<Rightarrow> disp \<Rightarrow> disp" where
  "recoverJobsFromLongInflight cfg rp pe es t w =
     visit (recover_one cfg es t) 0
       (GetJobsInflightSince pe (r_msgByIDs rp) (r_conByID rp) (wrap64 (stopTimeout cfg + RationalDelay cfg)) (d_db w)) w"

subsection \<open>The operations on the database\<close>

text \<open>
  \<open>db_safe P w w'\<close>: the step keeps \<open>store_ok\<close> and every delivery.
\<close>

definition db_safe :: "db \<Rightarrow> db \<Rightarrow> bool" where
  "db_safe d d' \<longleftrightarrow> (store_ok d \<longrightarrow> store_ok d' \<and> mset (owed d') = mset (owed d))"

named_theorems safe_steps

lemma db_safe_refl [safe_steps]: "db_safe d d"
  by (simp add: db_safe_def)

lemma db_safe_trans: "db_safe d d' \<Longrightarrow> db_safe d' d'' \<Longrightarrow> db_safe d d''"
  by (auto simp: db_safe_def)

lemma db_safe_lock: "db_safe d (d\<lparr>t_lock := l\<rparr>)"
  using store_ok_frame [of "d\<lparr>t_lock := l\<rparr>" d] by (simp add: db_safe_def owed_def)

lemma db_safe_op:
  assumes "\<And>d. op_ok d op" "\<not> deletes op" "op_new op = []"
  shows "db_safe d (store_exec op d)"
  using store_exec_ok [of d op] store_exec_owed [of d op] assms by (auto simp: db_safe_def)

lemma TryLock_only_lock: "\<exists>l. snd (TryLock env lock d) = d\<lparr>t_lock := l\<rparr>"
proof (cases lock)
  case (Some x)
  let ?st = "insert_lock \<lparr>LockID = LockID x, AttainedAt = dt env (AttainedAt x)\<rparr>"
  have "\<exists>l. snd (transactionalSingleRowWriteExec env ?st d) = d\<lparr>t_lock := l\<rparr>"
  proof (rule single_write_inv)
    show "\<exists>l. d = d\<lparr>t_lock := l\<rparr>" by (rule exI [of _ "t_lock d"]) simp
    show "\<exists>l. d' = d\<lparr>t_lock := l\<rparr>" if "?st d = Inr (1, d')" for d'
      using that by (auto simp: insert_lock_def dest!: into_table_ok)
  qed
  then show ?thesis using Some by (auto simp: TryLock_def split: prod.splits)
qed (auto simp: TryLock_def intro: exI [of _ "t_lock d"])

lemma ReleaseLock_only_lock: "\<exists>l. snd (ReleaseLock env lock d) = d\<lparr>t_lock := l\<rparr>"
proof (cases lock)
  case (Some x)
  let ?st = "delete_lock (\<lambda>r. sql_like (env_dialect env) (LockID x) (LockID r))"
  have "\<exists>l. snd (transactionalSingleRowWriteExec env ?st d) = d\<lparr>t_lock := l\<rparr>"
  proof (rule single_write_inv)
    show "\<exists>l. d = d\<lparr>t_lock := l\<rparr>" by (rule exI [of _ "t_lock d"]) simp
    show "\<exists>l. d' = d\<lparr>t_lock := l\<rparr>" if "?st d = Inr (1, d')" for d'
      using that by (auto simp: delete_lock_def sql_delete_def)
  qed
  then show ?thesis using Some by (simp add: ReleaseLock_def)
qed (auto simp: ReleaseLock_def intro: exI [of _ "t_lock d"])

lemma lock_safe [safe_steps]:
  "db_safe d (snd (TryLock env lock d))" "db_safe d (snd (ReleaseLock env lock d))"
  using TryLock_only_lock [of env lock d] ReleaseLock_only_lock [of env lock d] db_safe_lock by metis+

lemma mark_safe [safe_steps]:
  "db_safe d (snd (MarkJobInflight env job d))" "db_safe d (snd (MarkJobDelivered env job d))"
  "db_safe d (snd (MarkJobDead env job d))" "db_safe d (snd (MarkQueuedJobAsDead env job d))"
  "db_safe d (snd (MarkJobRetry env job delta d))" "db_safe d (snd (ReparkQueuedJob env (Some job) d))"
  using db_safe_op [of "OpInflight env job" d] db_safe_op [of "OpDelivered env job" d] db_safe_op [of "OpDead env job" d]
    db_safe_op [of "OpQueuedDead env job" d] db_safe_op [of "OpRetry env job delta" d] db_safe_op [of "OpRepark env job" d]
  by simp_all

lemma reparkJob_safe [safe_steps]: "db_safe d (snd (snd (reparkJob env job reason parked d)))"
  using mark_safe(6) [of d env job] by (auto simp: reparkJob_def split: prod.splits option.splits)

lemma send_job_db [simp]: "d_db (send_job job w) = d_db w"
  by (simp add: send_job_def)

lemma parkOrQueue_safe: "db_safe (d_db w) (d_db (out_state (parkOrQueue env job reason w)))"
proof (cases "Listener job")
  case (Some c)
  show ?thesis
    using reparkJob_safe [of "d_db w" env job reason "ParkedJobsTotal w"] db_safe_refl [of "d_db w"] Some
    by (auto simp: parkOrQueue_def Let_def split: prod.splits)
qed (simp add: parkOrQueue_def db_safe_refl)

lemma queueJob_safe [safe_steps]: "db_safe (d_db w) (d_db (out_state (queueJob env job w)))"
  using parkOrQueue_safe [of w env job ParkReasonRetry] db_safe_refl [of "d_db w"]
  by (auto simp: queueJob_def split: option.splits outcome.splits)

lemma inLockRun_safe:
  assumes "\<And>w. db_safe (d_db w) (d_db (out_state (run w)))"
  shows "db_safe (d_db w) (d_db (out_state (inLockRun e1 e2 t l run w)))"
proof -
  obtain lock err where n: "NewLock t l = (lock, err)" by fastforce
  obtain e d' where tl: "TryLock e1 lock (d_db w) = (e, d')" by fastforce
  have d': "db_safe (d_db w) d'" using lock_safe(1) [of "d_db w" e1 lock] tl by simp
  have run: "db_safe d' (d_db (out_state (run (w\<lparr>d_db := d'\<rparr>))))" using assms [of "w\<lparr>d_db := d'\<rparr>"] by simp
  show ?thesis
    using d' db_safe_refl [of "d_db w"] db_safe_trans [OF d' db_safe_trans [OF run lock_safe(2)]]
    by (cases err; cases e; cases "run (w\<lparr>d_db := d'\<rparr>)") (simp_all add: inLockRun_def n tl)
qed

lemma visit_safe:
  assumes "\<And>i x w. db_safe (d_db w) (d_db (out_state (f i x w)))"
  shows "db_safe (d_db w) (d_db (visit f i xs w))"
proof (induction xs arbitrary: i w)
  case (Cons x xs)
  show ?case
  proof (cases "f i x w")
    case (Done e w')
    with assms [of w i x] have "db_safe (d_db w) (d_db w')" by simp
    with Cons.IH [of w' "Suc i"] show ?thesis using Done by (auto intro: db_safe_trans)
  next
    case (Panicked w')
    with assms [of w i x] show ?thesis by simp
  qed
qed (simp add: db_safe_refl)

lemma retry_one_safe: "db_safe (d_db w) (d_db (out_state (retry_one cfg es t i job w)))"
proof (cases "Listener job")
  case (Some c)
  have dead: "db_safe (d_db w) (d_db (out_state (inLockRun e1 e2 t l
      (\<lambda>w. case MarkQueuedJobAsDead e job (d_db w) of ((err, _), d') \<Rightarrow> Done err (w\<lparr>d_db := d'\<rparr>)) w)))" for e1 e2 e l
    by (rule inLockRun_safe) (simp add: prod.case_eq_if mark_safe(4))
  have queue: "db_safe (d_db w) (d_db (out_state (inLockRun e1 e2 t l
      (\<lambda>w. case queueJob e job w of Panicked w' \<Rightarrow> Panicked w' | Done _ w' \<Rightarrow> Done None w') w)))" for e1 e2 e l
  proof (rule inLockRun_safe)
    show "db_safe (d_db w) (d_db (out_state (case queueJob e job w of Panicked w' \<Rightarrow> Panicked w' | Done _ w' \<Rightarrow> Done None w')))" for w
      using queueJob_safe [of w e job] by (cases "queueJob e job w") simp_all
  qed
  show ?thesis using Some dead queue db_safe_refl by (auto simp: retry_one_def)
qed (simp add: retry_one_def db_safe_refl)

lemma recover_one_safe: "db_safe (d_db w) (d_db (out_state (recover_one cfg es t i job w)))"
proof (cases "Listener job")
  case (Some c)
  have "db_safe (d_db w) (d_db (out_state (inLockRun e1 e2 t l
      (\<lambda>w. case computeEarliestDelta k cfg of None \<Rightarrow> Panicked w
         | Some delta \<Rightarrow> Done None (w\<lparr>d_db := snd (MarkJobRetry e job delta (d_db w))\<rparr>)) w)))" for e1 e2 e l k
    by (rule inLockRun_safe) (cases "computeEarliestDelta k cfg", simp_all add: db_safe_refl mark_safe(5))
  then show ?thesis using Some db_safe_refl by (auto simp: recover_one_def)
qed (simp add: recover_one_def db_safe_refl)

lemma EnqueueJobs_safe: "db_safe (d_db w) (d_db (snd (EnqueueJobs es i jobs w)))"
proof (induction es i jobs w rule: EnqueueJobs.induct)
  case (3 es i job rest w)
  show ?case
  proof (cases "Listener job")
    case (Some c)
    show ?thesis
    proof (cases "CType c = PushConsumer")
      case True
      show ?thesis
      proof (cases "parkOrQueue (es i) job ParkReasonHandoff w")
        case (Done q w')
        with parkOrQueue_safe [of w "es i" job ParkReasonHandoff] have "db_safe (d_db w) (d_db w')" by simp
        moreover have "db_safe (d_db w') (d_db (snd (EnqueueJobs es (Suc i) rest w')))"
          using 3(3) [OF Some _ Done] True by simp
        ultimately show ?thesis using Some True Done by (auto split: prod.splits intro: db_safe_trans)
      next
        case (Panicked w')
        with parkOrQueue_safe [of w "es i" job ParkReasonHandoff] show ?thesis using Some True by simp
      qed
    next
      case False
      then show ?thesis using 3(2) [OF Some] Some by simp
    qed
  qed (use 3(1) in simp)
qed (simp_all add: db_safe_refl)

lemma deliverJob_safe:
  assumes "deliverJob es http_Do cfg rid job parked d = Some (parked', d')"
  shows "db_safe d d'"
proof -
  obtain err job1 d1 where m: "MarkJobInflight (es 0) (Data job) d = ((err, job1), d1)" by (metis prod.collapse)
  have d1: "db_safe d d1" using mark_safe(1) [of d "es 0" "Data job"] m by simp
  have "db_safe d1 d'"
  proof (cases err)
    case (Some e)
    then show ?thesis using assms reparkJob_safe [of d1 "es 1" "Data job" ParkReasonWorker parked]
      by (auto simp: deliverJob_def m split: prod.splits)
  next
    case None
    then show ?thesis using assms mark_safe [of d1 "es 1" job1]
      by (auto simp: deliverJob_def m Let_def split: option.splits if_splits)
  qed
  with d1 show ?thesis by (rule db_safe_trans)
qed


definition sample_disp :: disp where
  "sample_disp = NewMessageDispatcher sample_cfg \<lparr>state = newPauseSnapshot [], DispatchPaused = []\<rparr>
     \<lparr>QueuedJobCount = 0, ConsumerQueuedJobCount = (\<lambda>_. 0), ConsumerInflightJobCount = (\<lambda>_. 0)\<rparr> (\<lambda>_. j1_job) sample_db"


subsection \<open>Locks\<close>

lemma ReleaseLock_quiet:
  assumes "quiet env" "plain (LockID l)" "lock_table_ok d" "held d (LockID l)"
  shows "\<not> held (snd (ReleaseLock env (Some l) d)) (LockID l)"
proof -
  obtain r where r: "r \<in> set (t_lock d)" "LockID r = LockID l" using assms(4) by (auto simp: held_def list_ex_iff)
  have "filter (\<lambda>s. LockID s = LockID r) (t_lock d) = [r]"
    by (rule filter_key_unique) (use assms(3) r in \<open>simp_all add: lock_table_ok_def\<close>)
  then show ?thesis
    using assms(1,2) r(2)
    by (simp add: ReleaseLock_def single_write_quiet delete_lock_def sql_delete_def held_def list_ex_iff)
qed

text \<open>
  C30: Work under a lock: when another node holds the lock the work is skipped without an error and the
  state does not change; otherwise it runs once, and the lock is free again afterwards even when the work
  panicked, as long as the work itself leaves the lock alone.
\<close>
theorem lock_run_once:
  assumes "quiet e1" "quiet e2" "plain lid" "lock_table_ok (d_db w)"
    and "\<And>v. t_lock (d_db (out_state (run v))) = t_lock (d_db v)"
  shows "(held (d_db w) lid \<longrightarrow> inLockRun e1 e2 t (Some lid) run w = Done None w) \<and>
    (\<not> held (d_db w) lid \<longrightarrow>
       \<not> held (d_db (out_state (inLockRun e1 e2 t (Some lid) run w))) lid \<and>
       (\<exists>v. d_db v = (d_db w)\<lparr>t_lock := t_lock (d_db w) @ [\<lparr>LockID = lid, AttainedAt = dt e1 t\<rparr>]\<rparr> \<and>
            v\<lparr>d_db := d_db w\<rparr> = w \<and>
            (\<forall>err v'. run v = Done err v' \<longrightarrow> inLockRun e1 e2 t (Some lid) run w =
               Done (if err = Some ErrAlreadyLocked then None else err)
                 (v'\<lparr>d_db := snd (ReleaseLock e2 (Some \<lparr>LockID = lid, AttainedAt = t\<rparr>) (d_db v'))\<rparr>))))"
proof (cases "held (d_db w) lid")
  case True
  then have "TryLock e1 (Some \<lparr>LockID = lid, AttainedAt = t\<rparr>) (d_db w) = (Some ErrAlreadyLocked, d_db w)"
    using assms(1)
    by (auto simp: TryLock_def single_write_quiet insert_lock_def into_table_def held_def list_ex_iff
        normalizeDBError_def lookup_error_def lockErrorMap_def)
  then show ?thesis using True by (simp add: inLockRun_def NewLock_def)
next
  case False
  let ?l = "\<lparr>LockID = lid, AttainedAt = t\<rparr>"
  let ?d = "(d_db w)\<lparr>t_lock := t_lock (d_db w) @ [\<lparr>LockID = lid, AttainedAt = dt e1 t\<rparr>]\<rparr>"
  let ?v = "w\<lparr>d_db := ?d\<rparr>"
  have tl: "TryLock e1 (Some ?l) (d_db w) = (None, ?d)"
    using assms(1) False
    by (auto simp: TryLock_def single_write_quiet insert_lock_def into_table_def held_def list_ex_iff
        normalizeDBError_def)
  have locks: "t_lock (d_db (out_state (run ?v))) = t_lock ?d" using assms(5) [of ?v] by simp
  have "lock_table_ok (d_db (out_state (run ?v)))" "held (d_db (out_state (run ?v))) lid"
    using assms(4) False by (auto simp: locks lock_table_ok_def held_def list_ex_iff)
  then have "\<not> held (snd (ReleaseLock e2 (Some ?l) (d_db (out_state (run ?v))))) lid"
    using ReleaseLock_quiet [OF assms(2), of ?l] assms(3) by simp
  then have "\<not> held (d_db (out_state (inLockRun e1 e2 t (Some lid) run w))) lid"
    by (cases "run ?v") (simp_all add: inLockRun_def NewLock_def tl)
  moreover have "inLockRun e1 e2 t (Some lid) run w =
      Done (if err = Some ErrAlreadyLocked then None else err) (v'\<lparr>d_db := snd (ReleaseLock e2 (Some ?l) (d_db v'))\<rparr>)"
    if "run ?v = Done err v'" for err v'
    using that by (simp add: inLockRun_def NewLock_def tl)
  ultimately show ?thesis using False by (intro conjI impI exI [of _ ?v]) simp_all
qed

theorem lock_run_once_witness:
  "\<not> held (d_db (out_state (inLockRun (sample_env 7) (sample_env 8) 7 (Some ''k'') (\<lambda>w. Panicked w) sample_disp))) ''k'' \<and>
   (\<exists>w. inLockRun (sample_env 7) (sample_env 8) 7 (Some ''k'') (\<lambda>w. Panicked w) sample_disp = Panicked w)"
proof
  have "\<not> held (d_db sample_disp) ''k''" "lock_table_ok (d_db sample_disp)" "plain ''k''" by code_simp+
  then show "\<not> held (d_db (out_state (inLockRun (sample_env 7) (sample_env 8) 7 (Some ''k'') (\<lambda>w. Panicked w) sample_disp))) ''k''"
    using lock_run_once [of "sample_env 7" "sample_env 8" "''k''" sample_disp "\<lambda>w. Panicked w" 7] by simp
  have "fst (TryLock (sample_env 7) (Some \<lparr>LockID = ''k'', AttainedAt = 7\<rparr>) (d_db sample_disp)) = None" by code_simp
  then show "\<exists>w. inLockRun (sample_env 7) (sample_env 8) 7 (Some ''k'') (\<lambda>w. Panicked w) sample_disp = Panicked w"
    by (cases "TryLock (sample_env 7) (Some \<lparr>LockID = ''k'', AttainedAt = 7\<rparr>) (d_db sample_disp)")
      (simp add: inLockRun_def NewLock_def)
qed

subsection \<open>Dispatching to every consumer\<close>

lemma consumer_GetList_quiet:
  assumes "quiet env" "chGet ch = (channel, None)" "plain ch"
  shows "consumer_GetList env chGet ch (Some (next_page c)) d =
    ((let pg = select_page c_id c_createdAt 25 (next_page c) (filter (\<lambda>r. c_channelId r = ch) (t_consumer d))
      in (map (row_consumer (Some channel)) pg, page_links c_id c_createdAt pg)), None)"
  using assms by (simp add: consumer_GetList_def bad_page_def next_page_def queryRows_def quiet_def Let_def)

lemma list_consumers_scan:
  assumes "\<And>i. quiet (es i)" "chGet ch = (channel, None)" "plain ch"
  shows "list_consumers es chGet ch d i c = (scan_pages c_id c_createdAt 25 (\<lambda>_ r. c_channelId r = ch)
    (\<lambda>_ pg. Inr (map (row_consumer (Some channel)) pg)) (t_consumer d) i c, None)"
  using assms
proof (induction es chGet ch d i c rule: list_consumers.induct)
  case (1 es chGet ch d i c)
  let ?pg = "select_page c_id c_createdAt 25 (next_page c) (filter (\<lambda>r. c_channelId r = ch) (t_consumer d))"
  let ?g = "row_consumer (Some channel)"
  have g: "consumer_GetList (es i) chGet ch (Some (next_page c)) d = ((map ?g ?pg, page_links c_id c_createdAt ?pg), None)"
    using consumer_GetList_quiet [of "es i" chGet ch channel c d] 1(2,3,4) by (simp add: Let_def)
  show ?case
  proof (cases "?pg = []")
    case True
    then have "Next (page_links c_id c_createdAt ?pg) = None" by (simp add: page_links_def no_page_def)
    with g True show ?thesis
      by (subst list_consumers.simps, subst scan_pages.simps) simp
  next
    case False
    let ?c = "page_cursor c_id c_createdAt (last ?pg)"
    have n: "Next (page_links c_id c_createdAt ?pg) = Some ?c" using False by (simp add: page_links_def)
    have IH: "list_consumers es chGet ch d (Suc i) (Some ?c) = (scan_pages c_id c_createdAt 25 (\<lambda>_ r. c_channelId r = ch)
        (\<lambda>_ pg. Inr (map ?g pg)) (t_consumer d) (Suc i) (Some ?c), None)"
      by (rule 1(1) [OF g [symmetric] refl refl n]) (use 1(2-4) in auto)
    have "list_consumers es chGet ch d i c = (map ?g ?pg @ scan_pages c_id c_createdAt 25 (\<lambda>_ r. c_channelId r = ch)
        (\<lambda>_ pg. Inr (map ?g pg)) (t_consumer d) (Suc i) (Some ?c), None)"
      by (subst list_consumers.simps) (simp add: g n IH)
    moreover have "scan_pages c_id c_createdAt 25 (\<lambda>_ r. c_channelId r = ch) (\<lambda>_ pg. Inr (map ?g pg)) (t_consumer d) i c =
        map ?g ?pg @ scan_pages c_id c_createdAt 25 (\<lambda>_ r. c_channelId r = ch) (\<lambda>_ pg. Inr (map ?g pg)) (t_consumer d) (Suc i) (Some ?c)"
      using False by (subst scan_pages.simps) (simp add: Let_def)
    ultimately show ?thesis by simp
  qed
qed

lemma list_consumers_complete:
  assumes "\<And>i. quiet (es i)" "chGet ch = (channel, None)" "plain ch"
    and "distinct (map c_id (t_consumer d))" "comonotone c_id c_createdAt (t_consumer d)"
  shows "list_consumers es chGet ch d 0 None = (map (row_consumer (Some channel))
    (order_rows c_id c_createdAt (filter (\<lambda>r. c_channelId r = ch) (t_consumer d))), None)"
proof -
  have "in_page c_id c_createdAt (next_page None) r" for r :: consumer_row by (simp add: in_page_def next_page_def)
  then show ?thesis
    using list_consumers_scan [of es chGet ch channel d 0 None] assms(1,2,3)
      scan_pages_complete [OF assms(4,5), of 25 "\<lambda>r. c_channelId r = ch" "row_consumer (Some channel)" 0 None] by simp
qed

lemma make_jobs_ok:
  assumes "t \<noteq> 0" "message_IsInValidState m" "list_all consumer_IsInValidState cs"
  shows "\<exists>jobs. make_jobs ids t m i cs = (map Some jobs, None) \<and> map job_ListenerID jobs = map ID cs \<and>
    map ID jobs = map ids [i..<i + length cs] \<and>
    list_all (\<lambda>j. job_MessageID j = ID m \<and> dj_Status j = JobQueued) jobs"
  using assms(3)
proof (induction cs arbitrary: i)
  case (Cons c cs)
  have e: "snd (NewDeliveryJob (ids i) t (Some m) (Some c)) = None"
    by (rule NewDeliveryJob_err) (use assms(1,2) Cons.prems in simp_all)
  define job where "job = fst (NewDeliveryJob (ids i) t (Some m) (Some c))"
  have j: "NewDeliveryJob (ids i) t (Some m) (Some c) = (job, None)" by (simp add: prod_eq_iff e job_def)
  from Cons.IH [of "Suc i"] Cons.prems obtain jobs where IH: "make_jobs ids t m (Suc i) cs = (map Some jobs, None)"
    "map job_ListenerID jobs = map ID cs" "map ID jobs = map ids [Suc i..<Suc i + length cs]"
    "list_all (\<lambda>j. job_MessageID j = ID m \<and> dj_Status j = JobQueued) jobs" by auto
  have f: "ID job = ids i" "job_MessageID job = ID m" "job_ListenerID job = ID c" "dj_Status job = JobQueued"
    using assms(1) by (simp_all add: job_def NewDeliveryJob_eq job_MessageID_def job_ListenerID_def)
  have "make_jobs ids t m i (c # cs) = (map Some (job # jobs), None)" by (simp only: make_jobs.simps j IH(1)) simp
  moreover have "map ID (job # jobs) = map ids [i..<i + length (c # cs)]"
    using IH(3) f(1) by (simp add: upt_conv_Cons del: upt_Suc)
  ultimately show ?case using IH(2,4) f by (intro exI [of _ "job # jobs"]) simp
qed simp

lemma queue_jobs_safe: "db_safe (d_db w) (d_db (out_state (queue_jobs es i js w)))"
proof (induction js arbitrary: i w)
  case (Cons j js)
  show ?case
  proof (cases "queueJob (es i) j w")
    case (Done u w')
    with queueJob_safe [of w "es i" j] have "db_safe (d_db w) (d_db w')" by simp
    with Cons.IH [of w' "Suc i"] show ?thesis using Done by (auto intro: db_safe_trans)
  next
    case (Panicked w')
    with queueJob_safe [of w "es i" j] show ?thesis by simp
  qed
qed (simp add: db_safe_refl)

lemma split_mset: "mset (fst (splitPausedJobs reg js) @ snd (splitPausedJobs reg js)) = mset js"
  by (simp add: splitPausedJobs_def)

end
