(* ===== verification/Dispatch_Properties.thy ===== *)
theory Dispatch_Properties
  imports Dispatcher
begin

section \<open>A dispatched message reaches every consumer of its channel\<close>

text \<open>
  Without faults the transaction of \<open>Dispatch\<close> succeeds: the rows it inserts violate no key, because
  the resulting tables satisfy the store invariant.
\<close>

lemma sql_insert_all:
  assumes "\<forall>r \<in> set rs. ok r"
    and "\<And>i j. i < j \<Longrightarrow> j < length (rows @ rs) \<Longrightarrow> \<not> clash ((rows @ rs) ! j) ((rows @ rs) ! i)"
  shows "sql_insert clash ok rs rows = Inr (length rs, rows @ rs)"
proof (rule sql_insert_runs [OF assms(1)])
  show "\<forall>r \<in> set rs. \<forall>s \<in> set rows. \<not> clash r s"
  proof (intro ballI)
    fix r s assume "r \<in> set rs" "s \<in> set rows"
    then obtain a b where "a < length rs" "r = rs ! a" "b < length rows" "s = rows ! b" by (metis in_set_conv_nth)
    then show "\<not> clash r s" using assms(2) [of b "length rows + a"] by (simp add: nth_append)
  qed
  show "\<forall>i < length rs. \<forall>j < i. \<not> clash (rs ! i) (rs ! j)"
  proof (intro allI impI)
    fix i j assume "i < length rs" "j < i"
    then show "\<not> clash (rs ! i) (rs ! j)" using assms(2) [of "length rows + j" "length rows + i"] by (simp add: nth_append)
  qed
qed

lemma distinct_nth_ne: "distinct (map f xs) \<Longrightarrow> i < j \<Longrightarrow> j < length xs \<Longrightarrow> f (xs ! j) \<noteq> f (xs ! i)"
proof
  assume a: "distinct (map f xs)" "i < j" "j < length xs" and "f (xs ! j) = f (xs ! i)"
  then have "map f xs ! j = map f xs ! i" by simp
  then have "j = i" using a by (subst (asm) nth_eq_iff_index_eq) auto
  then show False using a(2) by simp
qed

lemma store_ok_tables:
  assumes "store_ok d"
  shows "distinct (map j_id (t_job d))" "distinct (map (\<lambda>j. (j_messageId j, j_consumerId j)) (t_job d))"
    "distinct (map p_id (t_parking d))" "distinct (map (\<lambda>p. (p_messageId p, p_consumerId p)) (t_parking d))"
  using store_okD(1,2) [OF assms] by (simp_all add: owed_def job_triple_def parked_triple_def comp_def)

lemma insert_jobs_runs:
  assumes "store_ok d'" "t_job d' = t_job d @ rs"
    and "\<forall>r \<in> set rs. has_message d (j_messageId r) \<and> has_consumer d (j_consumerId r)"
  shows "insert_jobs rs d = Inr (length rs, d\<lparr>t_job := t_job d @ rs\<rparr>)"
proof -
  have "sql_insert job_clash (\<lambda>r. has_message d (j_messageId r) \<and> has_consumer d (j_consumerId r)) rs (t_job d) =
      Inr (length rs, t_job d @ rs)"
  proof (rule sql_insert_all)
    fix i j assume ij: "i < j" "j < length (t_job d @ rs)"
    let ?T = "t_job d @ rs"
    show "\<not> job_clash (?T ! j) (?T ! i)"
      using distinct_nth_ne [OF _ ij, of j_id] distinct_nth_ne [OF _ ij, of "\<lambda>j. (j_messageId j, j_consumerId j)"]
        store_ok_tables(1,2) [OF assms(1)] unfolding assms(2) by (auto simp: job_clash_def)
  qed (use assms(3) in blast)
  then show ?thesis by (simp add: insert_jobs_def into_table_def)
qed

lemma insert_parked_runs:
  assumes "store_ok d'" "t_parking d' = t_parking d @ number_parked (t_parking_seq d) rs"
    and "\<forall>r \<in> set rs. has_message d (p_messageId r) \<and> has_consumer d (p_consumerId r)"
  shows "insert_parked rs d = Inr (length rs, d\<lparr>t_parking := t_parking d @ number_parked (t_parking_seq d) rs,
    t_parking_seq := t_parking_seq d + length rs\<rparr>)"
proof -
  let ?rs = "number_parked (t_parking_seq d) rs"
  have len: "length ?rs = length rs" by (simp add: number_parked_def)
  have "parked_triple ` set ?rs = parked_triple ` set rs" using number_parked_sel(2) by (metis list.set_map)
  then have t: "\<exists>s \<in> set rs. parked_triple r = parked_triple s" if "r \<in> set ?rs" for r
    using that by (metis imageI imageE)
  have fk: "\<forall>r \<in> set ?rs. has_message d (p_messageId r) \<and> has_consumer d (p_consumerId r)"
  proof
    fix r assume "r \<in> set ?rs"
    then obtain s where "s \<in> set rs" "parked_triple r = parked_triple s" using t by blast
    then show "has_message d (p_messageId r) \<and> has_consumer d (p_consumerId r)"
      using assms(3) by (simp add: parked_triple_def)
  qed
  have "sql_insert parked_clash (\<lambda>r. has_message d (p_messageId r) \<and> has_consumer d (p_consumerId r)) ?rs (t_parking d) =
      Inr (length ?rs, t_parking d @ ?rs)"
  proof (rule sql_insert_all [OF fk])
    fix i j assume ij: "i < j" "j < length (t_parking d @ ?rs)"
    let ?T = "t_parking d @ ?rs"
    show "\<not> parked_clash (?T ! j) (?T ! i)"
      using distinct_nth_ne [OF _ ij, of p_seq] distinct_nth_ne [OF _ ij, of p_id]
        distinct_nth_ne [OF _ ij, of "\<lambda>p. (p_messageId p, p_consumerId p)"]
        store_ok_tables(3,4) [OF assms(1)] store_okD(3) [OF assms(1)] unfolding assms(2) by (auto simp: parked_clash_def)
  qed
  then show ?thesis by (simp add: insert_parked_def into_table_def len)
qed

lemma SetDispatched_runs:
  assumes "quiet env" "message_IsInValidState m" "plain (ID m)" "distinct (map m_id (t_message d))"
    and "r \<in> set (t_message d)" "m_id r = ID m" "m_status r = MsgStatusAcknowledged"
  shows "\<exists>d'. SetDispatched env n True (Some m) d = TxOk d'"
proof -
  let ?P = "\<lambda>r. sql_like (env_dialect env) (ID m) (m_id r) \<and> m_status r = MsgStatusAcknowledged"
  let ?f = "\<lambda>r. r\<lparr>m_status := MsgStatusDispatched, m_outboxedAt := dt env (now env), m_updatedAt := dt env (now env)\<rparr>"
  have "m_status (?f r) \<noteq> m_status r" using assms(7) by simp
  then have "?f r \<noteq> r" by metis
  then have "sql_update (env_dialect env) ?P ?f (t_message d) = (1, map (\<lambda>s. if s = r then ?f r else s) (t_message d))"
    by (intro update_one_row [where key = m_id]) (use assms in simp_all)
  then show ?thesis using assms(1,2) by (simp add: SetDispatched_def inTransactionExec_quiet update_message_def)
qed

lemma dispatch_txs_runs:
  assumes "quiet env" "store_ok d" "fresh_jobs d m js ps" "message_IsInValidState m"
    and "r \<in> set (t_message d)" "m_id r = ID m" "m_status r = MsgStatusAcknowledged"
    and "\<forall>j \<in> set (js @ ps). has_consumer d (job_ListenerID j)"
  shows "run_ops (dispatch_txs env m js ps) d = TxOk (dispatched_db env m js ps d)"
proof -
  let ?D = "dispatched_db env m js ps d"
  have ok: "store_ok ?D" using dispatched_db_ok [OF assms(2,3)] assms(5-7) by blast
  have hm: "has_message d (ID m)" using assms(5,6) by (auto simp: has_message_def list_ex_iff)
  have mid: "job_MessageID j = ID m" if "j \<in> set (js @ ps)" for j
    using assms(3) that by (auto simp: fresh_jobs_def list_all_iff)
  let ?jr = "map (job_row_of env) js" and ?pr = "map (parked_row_of env (now env)) ps"
  define d1 where "d1 = d\<lparr>t_job := t_job d @ ?jr\<rparr>"
  have fk1: "\<forall>r \<in> set ?jr. has_message d (j_messageId r) \<and> has_consumer d (j_consumerId r)"
    using hm mid assms(8) by (simp add: job_row_of_def)
  have j: "insert_jobs ?jr d = Inr (length ?jr, d1)"
    unfolding d1_def by (rule insert_jobs_runs [OF ok _ fk1]) (simp add: dispatched_db_def)
  have fk2: "\<forall>r \<in> set ?pr. has_message d1 (p_messageId r) \<and> has_consumer d1 (p_consumerId r)"
    using hm mid assms(8) by (simp add: parked_row_of_def d1_def has_message_def has_consumer_def)
  have p: "\<exists>x. insert_parked ?pr d1 = Inr (length ?pr, x) \<and> t_message x = t_message d"
    using insert_parked_runs [OF ok _ fk2] by (simp add: dispatched_db_def d1_def)
  then obtain x where x: "insert_parked ?pr d1 = Inr (length ?pr, x)" "t_message x = t_message d" by blast
  have s: "\<exists>d'. SetDispatched env 2 True (Some m) y = TxOk d'" if "t_message y = t_message d" for y
    using that assms(3) store_okD(5) [OF assms(2)]
    by (intro SetDispatched_runs [OF assms(1,4) _ _ _ assms(6,7)]) (simp_all add: fresh_jobs_def assms(5))
  have t1: "t_message d1 = t_message d" by (simp add: d1_def)
  have j0: "insert_parked ?pr d = Inr (length ?pr, x)" if "js = []" using that x(1) by (simp add: d1_def)
  have "\<exists>d'. run_ops (dispatch_txs env m js ps) d = TxOk d'"
    using s [OF x(2)] s [OF t1] s [OF refl]
    by (cases "js = []"; cases "ps = []")
      (use j0 in \<open>auto simp: dispatch_txs_def insertParkedJobsInTx_def inTransactionExec_quiet [OF assms(1)] j x(1)\<close>)
  then show ?thesis using dispatch_txs_ok by blast
qed

lemma make_jobs_valid:
  "make_jobs ids t m i cs = (map Some jobs, None) \<Longrightarrow> list_all job_IsInValidState jobs"
proof (induction cs arbitrary: i jobs)
  case (Cons c cs)
  define n where "n = NewDeliveryJob (ids i) t (Some m) (Some c)"
  have v: "snd n = None \<Longrightarrow> job_IsInValidState (fst n)"
    by (simp add: n_def NewDeliveryJob_def Let_def split: if_splits)
  obtain j where j: "n = (j, None)" using Cons.prems by (auto simp: n_def [symmetric] split: prod.splits option.splits)
  obtain js err where m: "make_jobs ids t m (Suc i) cs = (js, err)" by fastforce
  have "Some j # js = map Some jobs" "err = None" using Cons.prems by (auto simp: n_def [symmetric] j m)
  then obtain jobs' where "jobs = j # jobs'" "js = map Some jobs'" "err = None" by (cases jobs) auto
  with Cons.IH [of "Suc i" jobs'] v j m show ?case by simp
qed simp

lemma dispatch_commits:
  assumes "quiet tx" "store_ok d" "fresh_jobs d m js ps" "message_IsInValidState m"
    and "r \<in> set (t_message d)" "m_id r = ID m" "m_status r = MsgStatusAcknowledged"
    and "\<forall>j \<in> set (js @ ps). has_consumer d (job_ListenerID j)" "list_all job_IsInValidState (js @ ps)"
  shows "\<exists>x. DispatchMessageWithParking tx (Some m) (map Some js) (map Some ps) d = ((None, x), dispatched_db tx m js ps d)"
proof -
  have "list_all (dispatch_job_ok m) (map Some js)" "list_all (dispatch_job_ok m) (map Some ps)"
    using assms(3,9) by (auto simp: dispatch_job_ok_def fresh_jobs_def list_all_iff)
  then show ?thesis
    using dispatch_txs_runs [OF assms(1-8)] assms(1,4)
    by (simp add: DispatchMessageWithParking_def transactionalWrites_quiet comp_def)
qed

text \<open>The jobs created for a message are one per consumer of its channel, with the new ids.\<close>

lemma createJobs_complete:
  assumes "\<And>i. quiet (le i)" "t \<noteq> 0" "message_IsInValidState m" "BroadcastedTo m = Some channel"
    and "plain (ChannelID channel)" "chGet (ChannelID channel) = (channel, None)"
    and "distinct (map c_id (t_consumer d))" "comonotone c_id c_createdAt (t_consumer d)"
    and "list_all (\<lambda>c. consumer_IsInValidState (row_consumer (Some channel) c)) (t_consumer d)"
  shows "\<exists>jobs. createJobs le chGet ids t m d = (map Some jobs, None) \<and>
    mset (map job_ListenerID jobs) = mset (map c_id (filter (\<lambda>c. c_channelId c = ChannelID channel) (t_consumer d))) \<and>
    map ID jobs = map ids [0..<length jobs] \<and> list_all job_IsInValidState jobs \<and>
    list_all (\<lambda>j. job_MessageID j = ID m \<and> dj_Status j = JobQueued) jobs"
proof -
  let ?ch = "ChannelID channel"
  let ?rows = "order_rows c_id c_createdAt (filter (\<lambda>r. c_channelId r = ?ch) (t_consumer d))"
  let ?cs = "map (row_consumer (Some channel)) ?rows"
  have mrows: "mset ?rows = mset (filter (\<lambda>r. c_channelId r = ?ch) (t_consumer d))" by (simp add: order_rows_def)
  then have srows: "set ?rows \<subseteq> set (t_consumer d)" by (metis filter_is_subset set_mset_mset)
  have "list_all consumer_IsInValidState ?cs" using assms(9) srows by (auto simp: list_all_iff)
  from make_jobs_ok [OF assms(2,3) this, of ids 0] obtain jobs where jobs:
    "make_jobs ids t m 0 ?cs = (map Some jobs, None)" "map job_ListenerID jobs = map ID ?cs"
    "map ID jobs = map ids [0..<0 + length ?cs]" "list_all (\<lambda>j. job_MessageID j = ID m \<and> dj_Status j = JobQueued) jobs" by blast
  have "createJobs le chGet ids t m d = (map Some jobs, None)"
    using list_consumers_complete [of le chGet ?ch channel d, OF assms(1,6,5,7,8)] jobs(1) assms(4)
    by (simp add: createJobs_def message_GetChannelIDSafely_def)
  moreover have "map ID ?cs = map c_id ?rows" by (simp add: row_consumer_def)
  then have "mset (map job_ListenerID jobs) = mset (map c_id (filter (\<lambda>c. c_channelId c = ?ch) (t_consumer d)))"
    unfolding jobs(2) using mrows by (metis mset_map)
  moreover have "length jobs = length ?cs" using jobs(2) by (metis length_map)
  ultimately show ?thesis using jobs(3,4) make_jobs_valid [OF jobs(1)] by auto
qed

lemma split_fresh:
  assumes "mset (js @ ps) = mset jobs" "plain (ID m)" "inj ids" "\<And>i. ids i \<notin> fst ` set (owed d)"
    and "distinct (map job_ListenerID jobs)" "map ID jobs = map ids [0..<length jobs]"
    and "list_all (\<lambda>j. job_MessageID j = ID m \<and> dj_Status j = JobQueued) jobs"
  shows "fresh_jobs d m js ps"
proof -
  have sjs: "set (js @ ps) = set jobs" using assms(1) by (metis set_mset_mset)
  have "distinct (map job_ListenerID (js @ ps))" by (rule distinct_map_mset [OF assms(1) [symmetric] assms(5)])
  moreover have "distinct (map ids [0..<length jobs])"
    using inj_on_subset [OF assms(3) subset_UNIV] by (simp add: distinct_map)
  then have "distinct (map ID (js @ ps))" using distinct_map_mset [OF assms(1) [symmetric]] assms(6) by metis
  moreover have "ID j \<notin> fst ` set (owed d)" if "j \<in> set jobs" for j
  proof -
    have "ID j \<in> set (map ids [0..<length jobs])" using that assms(6) by (metis image_eqI list.set_map)
    then show ?thesis using assms(4) unfolding set_map by (metis imageE)
  qed
  ultimately show ?thesis
    unfolding fresh_jobs_def using assms(2,7) sjs by (auto simp: list_all_iff)
qed

lemma moved_trans: "moved d d' \<Longrightarrow> moved d' d'' \<Longrightarrow> moved d d''"
  unfolding moved_def by (cases d; cases d'; cases d'') simp

lemma parkOrQueue_moved:
  assumes "store_ok (d_db w)"
  shows "moved (d_db w) (d_db (out_state (parkOrQueue env job reason w)))"
proof -
  have "moved (d_db w) (snd (snd (reparkJob env job reason (ParkedJobsTotal w) (d_db w))))"
    using ReparkQueuedJob_effect [OF assms, of env "Some job"] by (auto simp: reparkJob_def split: prod.splits option.splits)
  then show ?thesis
    using moved_refl [of "d_db w"] by (auto simp: parkOrQueue_def Let_def split: prod.splits option.splits)
qed

lemma queueJob_moved: "store_ok (d_db w) \<Longrightarrow> moved (d_db w) (d_db (out_state (queueJob env job w)))"
  using parkOrQueue_moved [of w env job ParkReasonRetry] moved_refl [of "d_db w"]
  by (auto simp: queueJob_def split: option.splits outcome.splits)

lemma queue_jobs_moved:
  "store_ok (d_db w) \<Longrightarrow> moved (d_db w) (d_db (out_state (queue_jobs es i js w)))"
proof (induction js arbitrary: i w)
  case (Cons j js)
  note m = queueJob_moved [OF Cons.prems, of "es i" j]
  show ?case
  proof (cases "queueJob (es i) j w")
    case (Done u w')
    then have "store_ok (d_db w')" using queueJob_safe [of w "es i" j] Cons.prems by (simp add: db_safe_def)
    with Cons.IH [of w' "Suc i"] m show ?thesis using Done by (auto intro: moved_trans)
  qed (use m in simp)
qed (simp add: moved_refl)

lemma Dispatch_complete:
  assumes "\<And>i. quiet (le i)" "quiet tx" "store_ok (d_db w)" "t \<noteq> 0"
    and "message_IsInValidState m" "plain (ID m)" "BroadcastedTo m = Some channel" "plain (ChannelID channel)"
    and "chGet (ChannelID channel) = (channel, None)"
    and "r \<in> set (t_message (d_db w))" "m_id r = ID m" "m_status r = MsgStatusAcknowledged"
    and "distinct (map c_id (t_consumer (d_db w)))" "comonotone c_id c_createdAt (t_consumer (d_db w))"
    and "list_all (\<lambda>c. consumer_IsInValidState (row_consumer (Some channel) c)) (t_consumer (d_db w))"
    and "inj ids" "\<And>i. ids i \<notin> fst ` set (owed (d_db w))"
  shows "\<exists>js ps. let d' = d_db (out_state (Dispatch le tx qe chGet ids t (Some m) w)) in
    moved (dispatched_db tx m js ps (d_db w)) d' \<and> store_ok d' \<and>
    mset (map snd (owed d')) = mset (map snd (owed (d_db w))) +
      mset (map (\<lambda>c. (ID m, c_id c)) (filter (\<lambda>c. c_channelId c = ChannelID channel) (t_consumer (d_db w))))"
proof -
  let ?d = "d_db w" and ?rows = "filter (\<lambda>c. c_channelId c = ChannelID channel) (t_consumer (d_db w))"
  from createJobs_complete [of le t m channel chGet ?d ids, OF assms(1,4,5,7-9,13-15)] obtain jobs where jobs:
    "createJobs le chGet ids t m ?d = (map Some jobs, None)" "mset (map job_ListenerID jobs) = mset (map c_id ?rows)"
    "map ID jobs = map ids [0..<length jobs]" "list_all job_IsInValidState jobs"
    "list_all (\<lambda>j. job_MessageID j = ID m \<and> dj_Status j = JobQueued) jobs" by blast
  obtain js ps where split: "splitPausedJobs (registry w) jobs = (js, ps)" by fastforce
  have mjs: "mset (js @ ps) = mset jobs" using split_mset [of "registry w" jobs] by (simp add: split)
  then have sjs: "set (js @ ps) = set jobs" by (metis set_mset_mset)
  have "distinct (map job_ListenerID jobs)"
    using jobs(2) assms(13) by (metis distinct_map_filter mset_eq_imp_distinct_iff)
  from split_fresh [OF mjs assms(6,16,17) this jobs(3,5)] have fresh: "fresh_jobs ?d m js ps" .
  have con: "\<forall>j \<in> set (js @ ps). has_consumer ?d (job_ListenerID j)"
  proof
    fix j assume "j \<in> set (js @ ps)"
    then have "job_ListenerID j \<in> set (map c_id ?rows)" using sjs jobs(2) by (metis image_eqI list.set_map set_mset_mset)
    then show "has_consumer ?d (job_ListenerID j)" by (auto simp: has_consumer_def list_ex_iff)
  qed
  have val: "list_all job_IsInValidState (js @ ps)" using jobs(4) sjs by (simp only: list_all_iff)
  let ?D = "dispatched_db tx m js ps ?d" and ?d' = "d_db (out_state (Dispatch le tx qe chGet ids t (Some m) w))"
  from dispatch_commits [OF assms(2,3) fresh assms(5,10-12) con val] obtain x where
    x: "DispatchMessageWithParking tx (Some m) (map Some js) (map Some ps) ?d = ((None, x), ?D)" by blast
  have D: "store_ok ?D" using dispatched_db_ok [OF assms(3) fresh] assms(10-12) by blast
  have "db_safe ?D ?d'" "moved ?D ?d'"
    using queue_jobs_safe [of "w\<lparr>d_db := ?D, ParkedJobsTotal := c\<rparr>" qe 0 js for c]
      queue_jobs_moved [of "w\<lparr>d_db := ?D, ParkedJobsTotal := c\<rparr>" qe 0 js for c] D
    by (simp_all add: Dispatch_def assms(5) jobs(1) comp_def split x)
  with D have ok: "store_ok ?d'" "mset (owed ?d') = mset (owed ?D)" "moved ?D ?d'" by (simp_all add: db_safe_def)
  have "map (snd \<circ> new_triple) jobs = map (Pair (ID m)) (map job_ListenerID jobs)"
    using jobs(5) by (simp add: new_triple_def list_all_iff)
  then have "mset (map (snd \<circ> new_triple) (js @ ps)) = mset (map (\<lambda>c. (ID m, c_id c)) ?rows)"
    using mjs jobs(2) by (metis (mono_tags, lifting) comp_apply list.map_comp map_eq_conv mset_map)
  then have "mset (map snd (owed ?d')) = mset (map snd (owed ?d)) + mset (map (\<lambda>c. (ID m, c_id c)) ?rows)"
    using ok(2) dispatched_db_owed [of tx m js ps ?d] by (simp add: multiset.map_comp)
  with ok(1,3) show ?thesis unfolding Let_def by blast
qed


definition sample_ids :: "nat \<Rightarrow> xid" where
  "sample_ids i = replicate (Suc i) (CHR ''j'')"

definition created_disp :: disp where
  "created_disp = sample_disp\<lparr>d_db := created_db\<rparr>"


end
