(* ===== verification/Scheduler.thy ===== *)
theory Scheduler
  imports Scheduled_Repo Dispatch_Properties "HOL-Library.Word"
begin

section \<open>The message scheduler: scheduler/scheduler.go, scheduler/metrics.go\<close>

text \<open>
  The service that turns due scheduled messages into messages.  Its state is the dispatcher of the node
  (with the database) and the metrics, whose counters are 64-bit words.  A function ends with an error
  value or with a panic (\<open>None\<close>), which \<open>dispatchMessage\<close> recovers.  The goroutines of one pass handle
  different scheduled messages, each under the lock of its message; the model runs them one after another.
  \<open>es k\<close> is the environment of the \<open>k\<close>-th call to the database made for one message, \<open>le\<close>, \<open>tx\<close> and \<open>qe\<close>
  those of the dispatcher.
\<close>

record sched_metrics =
  DispatchedScheduledMessages :: "64 word"
  SchedulingErrors :: "64 word"
  LatestDispatchLag :: duration

record sched =
  sc_disp :: disp
  sc_metrics :: sched_metrics

definition IncreaseSchedulingErrorCount :: "sched \<Rightarrow> sched" where
  "IncreaseSchedulingErrorCount w =
     w\<lparr>sc_metrics := (sc_metrics w)\<lparr>SchedulingErrors := SchedulingErrors (sc_metrics w) + 1\<rparr>\<rparr>"

definition IncreaseDispatchedScheduledMessageCount :: "sched \<Rightarrow> sched" where
  "IncreaseDispatchedScheduledMessageCount w =
     w\<lparr>sc_metrics := (sc_metrics w)\<lparr>DispatchedScheduledMessages := DispatchedScheduledMessages (sc_metrics w) + 1\<rparr>\<rparr>"

definition SetLatestDispatchLag :: "duration \<Rightarrow> sched \<Rightarrow> sched" where
  "SetLatestDispatchLag lag w = w\<lparr>sc_metrics := (sc_metrics w)\<lparr>LatestDispatchLag := lag\<rparr>\<rparr>"

definition sc_db :: "sched \<Rightarrow> db" where
  "sc_db w = d_db (sc_disp w)"

definition set_db :: "db \<Rightarrow> sched \<Rightarrow> sched" where
  "set_db d w = w\<lparr>sc_disp := (sc_disp w)\<lparr>d_db := d\<rparr>\<rparr>"

lemma sc_db_simps [simp]:
  "sc_db (set_db d w) = d" "sc_db (IncreaseSchedulingErrorCount w) = sc_db w"
  "sc_db (IncreaseDispatchedScheduledMessageCount w) = sc_db w" "sc_db (SetLatestDispatchLag l w) = sc_db w"
  by (simp_all add: sc_db_def set_db_def IncreaseSchedulingErrorCount_def
      IncreaseDispatchedScheduledMessageCount_def SetLatestDispatchLag_def)

definition scheduler_inLockRun ::
  "dbenv \<Rightarrow> dbenv \<Rightarrow> time \<Rightarrow> string option \<Rightarrow> (sched \<Rightarrow> error option option \<times> sched) \<Rightarrow> sched \<Rightarrow> error option option \<times> sched" where
  "scheduler_inLockRun lockEnv releaseEnv t lockable run w =
     (case NewLock t lockable of
        (_, Some e) \<Rightarrow> (Some (if e = ErrAlreadyLocked then None else Some e), w)
      | (lock, None) \<Rightarrow>
          (case TryLock lockEnv lock (sc_db w) of
             (Some e, d') \<Rightarrow> (Some (if e = ErrAlreadyLocked then None else Some e), set_db d' w)
           | (None, d') \<Rightarrow>
               (case run (set_db d' w) of
                  (res, w') \<Rightarrow>
                    (map_option (\<lambda>err. if err = Some ErrAlreadyLocked then None else err) res,
                     set_db (snd (ReleaseLock releaseEnv lock (sc_db w'))) w'))))"

text \<open>The closure that runs under the lock; \<open>t\<close> is the time of \<open>NewMessage\<close>, \<open>t'\<close> the dispatch time.\<close>

definition scheduled_run ::
  "(nat \<Rightarrow> dbenv) \<Rightarrow> (nat \<Rightarrow> dbenv) \<Rightarrow> dbenv \<Rightarrow> (nat \<Rightarrow> dbenv) \<Rightarrow> repos \<Rightarrow> xid \<Rightarrow> xid \<Rightarrow> (nat \<Rightarrow> xid) \<Rightarrow> time \<Rightarrow> time \<Rightarrow>
   ScheduledMessage \<Rightarrow> sched \<Rightarrow> error option option \<times> sched" where
  "scheduled_run es le tx qe rp newid newmid ids t t' scheduledMsg w =
     (case NewMessage newid newmid t (sm_BroadcastedTo scheduledMsg) (sm_ProducedBy scheduledMsg)
             (sm_Payload scheduledMsg) (sm_ContentType scheduledMsg) (sm_Headers scheduledMsg) of
        (_, Some e) \<Rightarrow> (Some (Some e), IncreaseSchedulingErrorCount w)
      | (msg, None) \<Rightarrow>
          let message = msg\<lparr>MessageID := sm_MessageID scheduledMsg, msg_Priority := sm_Priority scheduledMsg\<rparr>
          in (case message_Create (es 1) (es 2) (r_chGet rp) (r_prGet rp) message (sc_db w) of
                (Some e, d1) \<Rightarrow>
                  (Some (Some e),
                   if e = ErrDuplicateMessageIDForChannel then set_db d1 w
                   else IncreaseSchedulingErrorCount (set_db d1 w))
              | (None, d1) \<Rightarrow>
                  let scheduledMsg' = scheduledMsg\<lparr>sm_Status := ScheduledMsgStatusDispatched, DispatchedAt := t'\<rparr>;
                      w1 = SetLatestDispatchLag (t' - DispatchSchedule scheduledMsg) (set_db d1 w)
                  in (case MarkDispatched (es 3) scheduledMsg' (sc_db w1) of
                        (Some e, d2) \<Rightarrow> (Some (Some e), IncreaseSchedulingErrorCount (set_db d2 w1))
                      | (None, d2) \<Rightarrow>
                          (case Dispatch le tx qe (r_chGet rp) ids t' (Some message) ((sc_disp w1)\<lparr>d_db := d2\<rparr>) of
                             Panicked v \<Rightarrow> (None, w1\<lparr>sc_disp := v\<rparr>)
                           | Done _ v \<Rightarrow>
                               (Some None, IncreaseDispatchedScheduledMessageCount (w1\<lparr>sc_disp := v\<rparr>))))))"

definition dispatchMessage ::
  "(nat \<Rightarrow> dbenv) \<Rightarrow> (nat \<Rightarrow> dbenv) \<Rightarrow> dbenv \<Rightarrow> (nat \<Rightarrow> dbenv) \<Rightarrow> repos \<Rightarrow> xid \<Rightarrow> xid \<Rightarrow> (nat \<Rightarrow> xid) \<Rightarrow> time \<Rightarrow> time \<Rightarrow>
   ScheduledMessage \<Rightarrow> sched \<Rightarrow> sched" where
  "dispatchMessage es le tx qe rp newid newmid ids t t' scheduledMsg w =
     (case scheduler_inLockRun (es 0) (es 4) t (Some (scheduled_GetLockID scheduledMsg))
             (scheduled_run es le tx qe rp newid newmid ids t t' scheduledMsg) w of
        (None, w') \<Rightarrow> IncreaseSchedulingErrorCount w'
      | (Some _, w') \<Rightarrow> w')"

text \<open>One pass; the parameters of the \<open>i\<close>-th message are the \<open>i\<close>-th ones.\<close>

record sched_env =
  se_es :: "nat \<Rightarrow> dbenv"
  se_le :: "nat \<Rightarrow> dbenv"
  se_tx :: dbenv
  se_qe :: "nat \<Rightarrow> dbenv"
  se_newid :: xid
  se_newmid :: xid
  se_ids :: "nat \<Rightarrow> xid"
  se_now :: time
  se_dispatchTime :: time

definition run_message :: "repos \<Rightarrow> sched_env \<Rightarrow> ScheduledMessage \<Rightarrow> sched \<Rightarrow> sched" where
  "run_message rp e m w =
     dispatchMessage (se_es e) (se_le e) (se_tx e) (se_qe e) rp (se_newid e) (se_newmid e) (se_ids e)
       (se_now e) (se_dispatchTime e) m w"

definition processScheduledMessages :: "Config \<Rightarrow> repos \<Rightarrow> dbenv \<Rightarrow> (nat \<Rightarrow> sched_env) \<Rightarrow> sched \<Rightarrow> sched" where
  "processScheduledMessages cfg rp env ees w =
     (let messages = GetMessagesReadyForDispatch env (r_chGet rp) (r_prGet rp) (GetSchedulerBatchSize cfg) (sc_db w)
      in fold (\<lambda>(i, m). run_message rp (ees i) m) (enumerate 0 messages) w)"

subsection \<open>At most once\<close>

lemma normalizeDBError_some: "\<exists>e'. normalizeDBError (Some e) m = Some e'"
  by (cases e) (simp_all add: normalizeDBError_def)

lemma message_Create_dup:
  assumes "no_panic env'" "r \<in> set (t_message d)" "m_messageId r = MessageID message"
    and "m_channelId r = message_GetChannelIDSafely message"
  shows "\<exists>e. message_Create env env' chGet prGet message d = (Some e, d)"
proof -
  let ?st = "insert_message (message_row_of env' message)"
  have "message_clash (message_row_of env' message) r" using assms(3,4) by (simp add: message_clash_def message_row_of_def)
  then have no: "?st d = Inl (DBError 1062)"
    using assms(2) by (auto simp: insert_message_def into_table_def list_ex_iff)
  obtain err d' where w: "transactionalSingleRowWriteExec env' ?st d = (err, d')" by fastforce
  have "err \<noteq> None" using single_write_ok [OF assms(1), of ?st d d'] w no by auto
  moreover have "d' = d" using single_write_atomic [of env' ?st d] w no by simp
  ultimately obtain e where "(normalizeDBError err messageErrorMap, d') = (Some e, d)"
    using normalizeDBError_some by (metis not_None_eq)
  then show ?thesis
    using w by (cases "message_Get env chGet prGet (message_GetChannelIDSafely message) (MessageID message) d")
      (auto simp: message_Create_def split: option.splits)
qed

lemma NewMessage_channel: "BroadcastedTo (fst (NewMessage i j t ch pr p c h)) = ch"
  by (simp add: NewMessage_def message_QuickFix_def base_QuickFix_def fix_when_def Let_def)

lemma scheduled_run_dup:
  assumes "no_panic (es 2)" "r \<in> set (t_message (sc_db w))" "m_messageId r = sm_MessageID s"
    and "m_channelId r = scheduled_GetChannelIDSafely s"
  shows "sc_db (snd (scheduled_run es le tx qe rp newid newmid ids t t' s w)) = sc_db w"
proof -
  let ?n = "NewMessage newid newmid t (sm_BroadcastedTo s) (sm_ProducedBy s) (sm_Payload s) (sm_ContentType s) (sm_Headers s)"
  let ?m = "(fst ?n)\<lparr>MessageID := sm_MessageID s, msg_Priority := sm_Priority s\<rparr>"
  have "message_GetChannelIDSafely ?m = scheduled_GetChannelIDSafely s"
    using NewMessage_channel by (simp add: message_GetChannelIDSafely_def scheduled_GetChannelIDSafely_def)
  then obtain e where "message_Create (es 1) (es 2) (r_chGet rp) (r_prGet rp) ?m (sc_db w) = (Some e, sc_db w)"
    using message_Create_dup [OF assms(1,2), of ?m "es 1" "r_chGet rp" "r_prGet rp"] assms(3,4) by auto
  then show ?thesis by (cases ?n; cases "snd ?n") (simp_all add: scheduled_run_def Let_def)
qed

lemma dispatchMessage_db:
  "sc_db (dispatchMessage es le tx qe rp newid newmid ids t t' s w) =
   sc_db (snd (scheduler_inLockRun (es 0) (es 4) t (Some (scheduled_GetLockID s))
     (scheduled_run es le tx qe rp newid newmid ids t t' s) w))"
  by (simp add: dispatchMessage_def split: prod.splits option.splits)

lemma scheduler_inLockRun_only_lock:
  assumes "\<And>v. t_message (sc_db v) = t_message (sc_db w) \<Longrightarrow> sc_db (snd (run v)) = sc_db v"
  shows "\<exists>l. sc_db (snd (scheduler_inLockRun e0 e1 t (Some lid) run w)) = (sc_db w)\<lparr>t_lock := l\<rparr>"
proof -
  let ?lock = "Some \<lparr>LockID = lid, AttainedAt = t\<rparr>"
  obtain l where l: "snd (TryLock e0 ?lock (sc_db w)) = (sc_db w)\<lparr>t_lock := l\<rparr>" using TryLock_only_lock by blast
  obtain err d1 where tl: "TryLock e0 ?lock (sc_db w) = (err, d1)" by fastforce
  have d1: "d1 = (sc_db w)\<lparr>t_lock := l\<rparr>" using l unfolding tl snd_conv .
  obtain res v where v: "run (set_db d1 w) = (res, v)" by fastforce
  have "t_message (sc_db (set_db d1 w)) = t_message (sc_db w)" by (simp add: d1)
  from assms [OF this] have "sc_db v = d1" unfolding v snd_conv by simp
  moreover obtain l' where "snd (ReleaseLock e1 ?lock d1) = d1\<lparr>t_lock := l'\<rparr>" using ReleaseLock_only_lock by blast
  ultimately have "sc_db (snd (scheduler_inLockRun e0 e1 t (Some lid) run w)) =
      (if err = None then d1\<lparr>t_lock := l'\<rparr> else d1)"
    by (cases err) (simp_all add: scheduler_inLockRun_def NewLock_def tl v)
  then show ?thesis unfolding d1 by (cases "err = None") auto
qed

text \<open>
  C34: A scheduled message becomes a message at most once.  When its channel already has a message with
  its id, because another node was faster or because an earlier attempt stopped after storing the message,
  a further attempt on any node changes nothing in the database but the lock table, whatever the
  database answers, panics on the insert apart: no second message and no second set of deliveries.
\<close>
theorem scheduled_at_most_once:
  assumes "no_panic (es 2)" "r \<in> set (t_message (sc_db w))" "m_messageId r = sm_MessageID s"
    and "m_channelId r = scheduled_GetChannelIDSafely s"
  shows "\<exists>l. sc_db (dispatchMessage es le tx qe rp newid newmid ids t t' s w) = (sc_db w)\<lparr>t_lock := l\<rparr>"
  unfolding dispatchMessage_db
proof (rule scheduler_inLockRun_only_lock)
  fix v assume "t_message (sc_db v) = t_message (sc_db w)"
  then have "r \<in> set (t_message (sc_db v))" using assms(2) by simp
  then show "sc_db (snd (scheduled_run es le tx qe rp newid newmid ids t t' s v)) = sc_db v"
    by (rule scheduled_run_dup [of es r v s, OF assms(1) _ assms(3,4)])
qed

definition sample_scheduled :: ScheduledMessage where
  "sample_scheduled = \<lparr>ID = ''s1'', CreatedAt = 2, UpdatedAt = 2, sm_MessageID = ''x'', sm_Payload = ''p'', sm_ContentType = ''t'',
     sm_Priority = 0, sm_Status = ScheduledMsgStatusScheduled, sm_BroadcastedTo = Some sample_channel,
     sm_ProducedBy = Some sample_producer, DispatchSchedule = 5, DispatchedAt = 0, sm_Headers = []\<rparr>"

definition sample_sched :: sched where
  "sample_sched = \<lparr>sc_disp = created_disp,
     sc_metrics = \<lparr>DispatchedScheduledMessages = 0, SchedulingErrors = 0, LatestDispatchLag = 0\<rparr>\<rparr>"

definition sample_repos :: repos where
  "sample_repos = \<lparr>r_chGet = (\<lambda>_. (sample_channel, None)), r_prGet = (\<lambda>_. (sample_producer, None)),
     r_msgByIDs = (\<lambda>_. ([], None)), r_conByID = (\<lambda>_. (None, None))\<rparr>"

theorem scheduled_at_most_once_witness:
  "t_message (sc_db (dispatchMessage (\<lambda>_. sample_env 8) (\<lambda>_. sample_env 8) (sample_env 8) (\<lambda>_. sample_env 9) sample_repos
     ''m7'' ''y'' sample_ids 8 8 sample_scheduled sample_sched)) = t_message created_db \<and>
   owed (sc_db (dispatchMessage (\<lambda>_. sample_env 8) (\<lambda>_. sample_env 8) (sample_env 8) (\<lambda>_. sample_env 9) sample_repos
     ''m7'' ''y'' sample_ids 8 8 sample_scheduled sample_sched)) = owed created_db"
proof -
  have d: "sc_db sample_sched = created_db" by (simp add: sc_db_def sample_sched_def created_disp_def)
  have r: "t_message created_db ! 0 \<in> set (t_message created_db)"
    "m_messageId (t_message created_db ! 0) = sm_MessageID sample_scheduled"
    "m_channelId (t_message created_db ! 0) = scheduled_GetChannelIDSafely sample_scheduled" by code_simp+
  have n: "no_panic ((\<lambda>_. sample_env 8) (2 :: nat))" by simp
  show ?thesis
    using scheduled_at_most_once [of "\<lambda>_. sample_env 8" "t_message created_db ! 0" sample_sched sample_scheduled
        "\<lambda>_. sample_env 8" "sample_env 8" "\<lambda>_. sample_env 9" sample_repos "''m7''" "''y''" sample_ids 8 8] n r
    unfolding d by (auto simp: owed_def)
qed

end
