(* ===== verification/Spec2Isabelle.thy ===== *)
theory Spec2Isabelle
  imports Lane_Properties Memcache Gateway_Auth Scheduler
begin

text \<open>
  A verification development of the webhook broker (sources under \<^verbatim>\<open>src/\<close>).

  \<^bold>\<open>The program.\<close>  Producers broadcast messages to channels over HTTP.  The broker stores a message in a
  relational database, creates one delivery job per consumer of the channel in the same transaction that
  marks the message dispatched, and pushes the jobs to the consumers' callback URLs from a pool of workers;
  failed jobs are retried with a back-off and finally dead.  Several nodes share the database.  They
  coordinate through rows: locks, conditional status updates and unique keys.  Consumers can be paused, one
  by one or all at once; their jobs are then parked in a table of their own and drained back later.
  Messages can be scheduled for a later time.  Recovery passes on every node pick up what a crash left behind.

  \<^bold>\<open>The theories\<close>, from the bottom up:

  \<^item> \<open>Prelude\<close>, \<open>Go_Heap\<close>, \<open>Go_Url\<close>, \<open>Sha256\<close>: what the sources use of Go and its library.  Maps are
    association lists, times and durations are integers of nanoseconds with 0 for the zero time, a nil
    pointer is an option; \<^verbatim>\<open>container/heap\<close>, \<^verbatim>\<open>net/url\<close>, \<^verbatim>\<open>crypto/sha256\<close>, \<^verbatim>\<open>crypto/hmac\<close> and
    \<^verbatim>\<open>encoding/hex\<close> are translated.
  \<^item> \<open>Data_Model\<close>: the objects of \<^verbatim>\<open>storage/data\<close>, their constructors, \<^verbatim>\<open>QuickFix\<close> and validity.
  \<^item> \<open>Job_Queue\<close>, \<open>Lanes\<close>, \<open>Lane_Invariant\<close>, \<open>Lane_Properties\<close>: the in-memory scheduler of a node
    (\<^verbatim>\<open>dispatcher/queue.go\<close>, \<^verbatim>\<open>dispatcher/lanes.go\<close>).  Jobs live in a store of addresses because the code
    shares and updates them.  C1 shows that the queue is a stable sort by priority; C2 to C10 give the
    limits, the choice of the next job, fairness, wake-ups, gauges and the stop.
  \<^item> \<open>Rdbms\<close>, \<open>Schema\<close>: \<^verbatim>\<open>storage/rdbms.go\<close> and the tables of \<^verbatim>\<open>migration/sqls\<close>.  A transaction runs on a
    record of tables with an environment that says which call fails, which panics, and whether a commit
    whose reply is lost was applied, so the lemmas hold for every fault.  \<open>quiet\<close> is the environment
    without faults.
  \<^item> \<open>Lock_Repo\<close>, \<open>Pause_Repo\<close>, \<open>Stakeholder_Repo\<close>, \<open>Message_Repo\<close>, \<open>Job_Repo\<close>, \<open>Job_Query\<close>,
    \<open>Scheduled_Repo\<close>: the repositories, one definition per method.  C11 and C12 are the mutual exclusion of
    locks and of the initialisation.
  \<^item> \<open>Pause_Registry\<close> (\<^verbatim>\<open>dispatcher/pause.go\<close>): the snapshot of the pauses; C13 is its refinement of the
    database.  \<open>Memcache\<close> (\<^verbatim>\<open>storage/memcache.go\<close> and the cached repositories): C14 is the equivalence
    with the uncached repository.
  \<^item> \<open>Job_Invariant\<close>, \<open>Job_Steps\<close>, \<open>Job_Properties\<close>: every delivery is a row of the job table or of the
    parking table.  \<open>store_ok\<close> is the invariant, \<open>store_op\<close> the operations of any node in any order, and
    C15 to C23 show that no delivery is lost or doubled, the status machine, the claiming of a job, atomic
    dispatch, the round trip through parking, and that the search for undispatched messages ends.
  \<^item> \<open>Config\<close> (\<^verbatim>\<open>config/\<close>): reading and validating the configuration, with the INI library as a parameter;
    C24 gives the bounds of what is loaded.
  \<^item> \<open>Worker\<close> (\<^verbatim>\<open>dispatcher/worker.go\<close>): one delivery attempt, with the HTTP client as a parameter; C25 to C28.
  \<^item> \<open>Dispatcher\<close>, \<open>Dispatch_Properties\<close> (\<^verbatim>\<open>dispatcher/msgdispatcher.go\<close>): dispatching, queueing, locking and
    the recovery passes on the repositories; C29 and C30, and C31: a dispatch reaches every consumer.
  \<^item> \<open>Http_Server\<close>, \<open>Gateway_Auth\<close> (\<^verbatim>\<open>controllers/router.go\<close>, \<^verbatim>\<open>controllers/hmac_middleware.go\<close>,
    \<^verbatim>\<open>parking/handoff.go\<close>): requests, replies and their authentication; C32 and C33.
  \<^item> \<open>Scheduler\<close> (\<^verbatim>\<open>scheduler/\<close>): due scheduled messages become messages; C34.

  \<^bold>\<open>Conventions.\<close>  New ids, clocks and the results of other systems are arguments.  Numbers whose wrap-around
  matters are cut explicitly (\<open>wrap64\<close>, the eight bits of the retry limit) or are words.  Errors are values
  of \<open>error\<close>, a panic is a value of its own.  No definition uses fuel: loops over pages are functions with a
  termination proof, whose measure is the number of rows still ahead of the cursor.  That a listing over
  several pages is complete needs ids and creation times that grow together (\<open>comonotone\<close>), because the
  query compares both.  Statements about ids in \<^verbatim>\<open>like\<close> patterns ask for ids without wildcards (\<open>plain\<close>).

  \<^bold>\<open>Not modelled.\<close>  The resource endpoints, the drainer's loop, the sending loop of the hand-off, the dead
  letter summary, pruning and archiving, command line parsing, and the start and stop of the process: HTTP
  decoding, files, object stores, tickers and goroutines around the operations that are modelled.  Goroutines
  that the code starts for independent items run one after another in the model; concurrency between nodes
  is any sequence of repository operations.  The generated wiring, the mocks and the integration test are
  not part of the service.
\<close>

end
